theory Spec2Isabelle
  imports Complex_Main
begin

section \<open>Python values, exceptions and string operations\<close>

text \<open>
  The exceptions the modelled code can see. All of them are subclasses of Python's
  \<open>Exception\<close> except \<open>CancelledError\<close>, which an \<open>except Exception\<close> clause does not
  catch. The string of \<open>TimeoutError\<close> is the message the source passes.
\<close>

datatype exn =
    TimeoutError string
  | RuntimeError string
  | ConnectionClosed
  | ValueError
  | IndexError
  | AttributeError
  | TypeError
  | UnboundLocalError string
  | AssertionError
  | ZeroDivisionError
  | OverflowError
  | CancelledError

fun is_Exception :: "exn \<Rightarrow> bool" where
  "is_Exception CancelledError = False"
| "is_Exception _ = True"

fun is_TimeoutError :: "exn \<Rightarrow> bool" where
  "is_TimeoutError (TimeoutError _) = True"
| "is_TimeoutError _ = False"

text \<open>
  The class of an exception. An \<open>except\<close> clause selects by class:
  \<open>except asyncio.TimeoutError\<close> takes the exceptions of the class TimeoutError, whatever
  their message (\<open>asyncio.TimeoutError\<close> is the built-in \<open>TimeoutError\<close>).
\<close>

fun exn_class :: "exn \<Rightarrow> string" where
  "exn_class (TimeoutError m) = ''TimeoutError''"
| "exn_class (RuntimeError m) = ''RuntimeError''"
| "exn_class ConnectionClosed = ''ConnectionClosed''"
| "exn_class ValueError = ''ValueError''"
| "exn_class IndexError = ''IndexError''"
| "exn_class AttributeError = ''AttributeError''"
| "exn_class TypeError = ''TypeError''"
| "exn_class (UnboundLocalError m) = ''UnboundLocalError''"
| "exn_class AssertionError = ''AssertionError''"
| "exn_class ZeroDivisionError = ''ZeroDivisionError''"
| "exn_class OverflowError = ''OverflowError''"
| "exn_class CancelledError = ''CancelledError''"

text \<open>Sequencing of computations that may raise: the first exception wins.\<close>

definition ebind :: "exn + 'a \<Rightarrow> ('a \<Rightarrow> exn + 'b) \<Rightarrow> exn + 'b" where
  "ebind m f = (case m of Inl e \<Rightarrow> Inl e | Inr x \<Rightarrow> f x)"

text \<open>\<open>xs[i]\<close>: IndexError out of range (only non-negative indices occur in the source).\<close>

definition index :: "'a list \<Rightarrow> nat \<Rightarrow> exn + 'a" where
  "index xs i = (if i < length xs then Inr (xs ! i) else Inl IndexError)"

text \<open>Values decoded from JSON, with Python's truthiness, \<open>or\<close> and \<open>dict.get\<close>.\<close>

datatype json =
    JNull
  | JBool bool
  | JInt int
  | JFloat real
  | JStr string
  | JArr "json list"
  | JObj "(string \<times> json) list"

fun truthy :: "json \<Rightarrow> bool" where
  "truthy JNull = False"
| "truthy (JBool b) = b"
| "truthy (JInt i) = (i \<noteq> 0)"
| "truthy (JFloat r) = (r \<noteq> 0)"
| "truthy (JStr s) = (s \<noteq> [])"
| "truthy (JArr xs) = (xs \<noteq> [])"
| "truthy (JObj kvs) = (kvs \<noteq> [])"

definition py_or :: "json \<Rightarrow> json \<Rightarrow> json" where
  "py_or a b = (if truthy a then a else b)"

fun py_get :: "json \<Rightarrow> string \<Rightarrow> exn + json" where
  "py_get (JObj kvs) k = Inr (case map_of kvs k of None \<Rightarrow> JNull | Some v \<Rightarrow> v)"
| "py_get _ k = Inl AttributeError"

text \<open>
  Strings are lists of characters, and a character is a code point below 256; text with
  other code points is outside this model. \<open>str.strip()\<close> removes from both ends the
  characters for which \<open>str.isspace()\<close> holds; below 256 these are the codes 9 to 13,
  28 to 32, 133 (U+0085) and 160 (U+00A0).
\<close>

definition is_space :: "char \<Rightarrow> bool" where
  "is_space c = (let n = (of_char c :: nat) in
     (9 \<le> n \<and> n \<le> 13) \<or> (28 \<le> n \<and> n \<le> 32) \<or> n = 133 \<or> n = 160)"

definition strip :: "string \<Rightarrow> string" where
  "strip s = rev (dropWhile is_space (rev (dropWhile is_space s)))"

text \<open>
  \<open>str.upper()\<close> is modelled on the ASCII characters, of which it maps a to z to A
  to Z. It is only used to compare the result with the words Y, 1, T and TRUE. Of the
  other code points below 256 only 223 (U+00DF) has an upper-case form with ASCII
  characters, which is SS, so a string with a character outside ASCII is none of the
  four words in Python and here.
\<close>

definition upper_char :: "char \<Rightarrow> char" where
  "upper_char c = (let n = (of_char c :: nat) in
     if 97 \<le> n \<and> n \<le> 122 then char_of (n - 32) else c)"

definition upper :: "string \<Rightarrow> string" where
  "upper s = map upper_char s"

text \<open>\<open>s.split(sep)\<close> for a one-character separator, and \<open>s.split(sep, n)\<close>.\<close>

fun split_on :: "char \<Rightarrow> string \<Rightarrow> string list" where
  "split_on c [] = [[]]"
| "split_on c (x # xs) =
     (if x = c then [] # split_on c xs
      else (case split_on c xs of [] \<Rightarrow> [[x]] | y # ys \<Rightarrow> (x # y) # ys))"

fun split_max :: "char \<Rightarrow> nat \<Rightarrow> string \<Rightarrow> string list" where
  "split_max c 0 s = [s]"
| "split_max c (Suc n) [] = [[]]"
| "split_max c (Suc n) (x # xs) =
     (if x = c then [] # split_max c n xs
      else (case split_max c (Suc n) xs of [] \<Rightarrow> [[x]] | y # ys \<Rightarrow> (x # y) # ys))"

definition startswith :: "string \<Rightarrow> char \<Rightarrow> bool" where
  "startswith s c = (case s of [] \<Rightarrow> False | x # _ \<Rightarrow> x = c)"

section \<open>Library functions taken as parameters\<close>

text \<open>
  The functions of Python's libraries that the code calls and that are not part of the
  repository: JSON decoding, the four steps of the AES decryption, and the conversions
  of text to numbers. Each returns \<open>None\<close> where the library raises.
  \<open>int_str s\<close> stands for \<open>int(s)\<close>, \<open>float_int s\<close> for \<open>int(float(s))\<close> and
  \<open>float_str v\<close> for \<open>float(str(v))\<close>.
\<close>

record pylib =
  json_loads :: "string \<Rightarrow> json option"
  b64decode :: "string \<Rightarrow> string option"
  aes_cbc_decrypt :: "string \<Rightarrow> string \<Rightarrow> string \<Rightarrow> string option"
  unpad :: "string \<Rightarrow> nat \<Rightarrow> string option"
  utf8_decode :: "string \<Rightarrow> string option"
  int_str :: "string \<Rightarrow> int option"
  float_int :: "string \<Rightarrow> int option"
  float_str :: "json \<Rightarrow> real option"

definition lift_opt :: "'a option \<Rightarrow> exn + 'a" where
  "lift_opt x = (case x of None \<Rightarrow> Inl ValueError | Some y \<Rightarrow> Inr y)"

text \<open>\<open>x.encode("utf-8")\<close> exists only on a string.\<close>

fun encode :: "json \<Rightarrow> exn + string" where
  "encode (JStr s) = Inr s"
| "encode _ = Inl AttributeError"

definition aes_cbc_base64_decrypt :: "pylib \<Rightarrow> string \<Rightarrow> json \<Rightarrow> json \<Rightarrow> exn + string" where
  "aes_cbc_base64_decrypt L cipher_b64 key iv =
     ebind (lift_opt (b64decode L cipher_b64)) (\<lambda>cipher_bytes.
     ebind (encode key) (\<lambda>k.
     ebind (encode iv) (\<lambda>i.
     ebind (lift_opt (aes_cbc_decrypt L k i cipher_bytes)) (\<lambda>plain.
     ebind (lift_opt (unpad L plain 16)) (\<lambda>plain'.
     lift_opt (utf8_decode L plain'))))))"

definition is_truthy :: "string \<Rightarrow> bool" where
  "is_truthy v = (upper (strip v) \<in> set [''Y'', ''1'', ''T'', ''TRUE''])"

definition safe_int :: "pylib \<Rightarrow> string \<Rightarrow> int \<Rightarrow> int" where
  "safe_int L v dflt = (case float_int L (strip v) of None \<Rightarrow> dflt | Some n \<Rightarrow> n)"

record Config =
  env :: string
  hts_id :: string
  custtype :: string

definition exec_tr_id :: "Config \<Rightarrow> string" where
  "exec_tr_id C = (if env C = ''vts'' then ''H0STCNI9'' else ''H0STCNI0'')"

section \<open>The client's state and its environment\<close>

record ExecFill =
  order_no :: string
  pdno :: string
  qty :: int
  price :: int
  raw_fields :: "string list"

datatype msg = Text string | Binary string

text \<open>What \<open>ws.recv()\<close> yields: a message, or the failure of the transport.\<close>

datatype recv = Frame msg | RecvFails exn

datatype task = NotStarted | Running | Failed exn | Cancelled

datatype reply = Done | Fails exn | RStr string | RInt int | RJson json

text \<open>
  The environment is a script of events, consumed in program order: \<open>Now t\<close> is one
  reading of the clock (in microseconds), \<open>Susp rs r\<close> is one suspension of the caller
  (an \<open>await\<close>): \<open>rs\<close> is what the receive loop gets from the transport while the
  caller is suspended and \<open>r\<close> is what the awaited operation yields.
\<close>

datatype ev = Now int | Susp "recv list" reply

datatype effect =
    GetApprovalKey
  | WsConnect
  | WsClose
  | Subscribe string string
  | Unsubscribe string string
  | GetRanking
  | InquirePsblCash string int
  | OrderCash string string int int string
  | Sleep

datatype level = INFO | WARNING | ERROR | STDOUT

text \<open>
  One record holds the mutable objects of a session: the fields of \<open>KISWebSocket\<close>,
  the cooldown dictionary, the rest of the environment's script, what was sent to the
  outside (\<open>sent\<close>) and what was logged. \<open>enqueued\<close> and \<open>drained\<close> are history
  variables: every fill put on a queue and every fill taken from one, in order. No
  function reads them.
\<close>

record world =
  aes_key :: "string \<rightharpoonup> json"
  aes_iv :: "string \<rightharpoonup> json"
  orderbook :: "string \<rightharpoonup> (int \<times> int \<times> int \<times> int)"
  orderbook_seq :: "string \<rightharpoonup> int"
  orderbook_event :: "string \<rightharpoonup> bool"
  trade_price :: "string \<rightharpoonup> int"
  trade_seq :: "string \<rightharpoonup> int"
  trade_event :: "string \<rightharpoonup> bool"
  fills_by_order :: "string \<rightharpoonup> ExecFill list"
  recv_task :: task
  ws_open :: bool
  cooldowns :: "string \<rightharpoonup> int"
  tape :: "ev list"
  sent :: "effect list"
  logged :: "(level \<times> string) list"
  enqueued :: "ExecFill list"
  drained :: "ExecFill list"

definition logmsg :: "level \<Rightarrow> string \<Rightarrow> world \<Rightarrow> world" where
  "logmsg l s w = w\<lparr>logged := logged w @ [(l, s)]\<rparr>"

text \<open>\<open>d.get(key, 0)\<close>, \<open>_bump_seq\<close> (the new dictionary; the value returned is its entry
  at \<open>key\<close>) and \<open>_ensure_event\<close> on a dictionary of event flags.\<close>

definition get0 :: "(string \<rightharpoonup> int) \<Rightarrow> string \<Rightarrow> int" where
  "get0 d key = (case d key of None \<Rightarrow> 0 | Some n \<Rightarrow> n)"

definition bump_seq :: "(string \<rightharpoonup> int) \<Rightarrow> string \<Rightarrow> (string \<rightharpoonup> int)" where
  "bump_seq d key = d(key \<mapsto> get0 d key + 1)"

definition ensure_event :: "(string \<rightharpoonup> bool) \<Rightarrow> string \<Rightarrow> (string \<rightharpoonup> bool)" where
  "ensure_event d key = (case d key of None \<Rightarrow> d(key \<mapsto> False) | Some _ \<Rightarrow> d)"

definition event_set :: "(string \<rightharpoonup> bool) \<Rightarrow> string \<Rightarrow> (string \<rightharpoonup> bool)" where
  "event_set d key = (ensure_event d key)(key \<mapsto> True)"

definition event_clear :: "(string \<rightharpoonup> bool) \<Rightarrow> string \<Rightarrow> (string \<rightharpoonup> bool)" where
  "event_clear d key = d(key \<mapsto> False)"

definition is_set :: "(string \<rightharpoonup> bool) \<Rightarrow> string \<Rightarrow> bool" where
  "is_set d key = (d key = Some True)"

text \<open>\<open>_get_order_queue\<close>: the queue of an order id is created on first use.\<close>

definition get_order_queue :: "world \<Rightarrow> string \<Rightarrow> world" where
  "get_order_queue w order =
     (case fills_by_order w order of
        None \<Rightarrow> w\<lparr>fills_by_order := (fills_by_order w)(order \<mapsto> [])\<rparr>
      | Some _ \<Rightarrow> w)"

definition queue_of :: "world \<Rightarrow> string \<Rightarrow> ExecFill list" where
  "queue_of w order = (case fills_by_order w order of None \<Rightarrow> [] | Some q \<Rightarrow> q)"

definition put_nowait :: "world \<Rightarrow> string \<Rightarrow> ExecFill \<Rightarrow> world" where
  "put_nowait w order f =
     w\<lparr>fills_by_order := (fills_by_order w)(order \<mapsto> queue_of w order @ [f]),
       enqueued := enqueued w @ [f]\<rparr>"

section \<open>The receive loop\<close>

text \<open>
  A control frame (a message that starts with a brace): when \<open>header.encrypt\<close> is
  \<open>"Y"\<close> and the topic id, the IV and the key are all truthy, the IV and the key are
  stored under the topic id. A topic id that is a list or an object cannot be a
  dictionary key (TypeError); one that is not a string is stored under a key that no
  later lookup uses (lookups are by the topic id of a text frame), so only the log line
  is modelled for it.
\<close>

definition store_key :: "world \<Rightarrow> json \<Rightarrow> json \<Rightarrow> json \<Rightarrow> exn + world" where
  "store_key w tr_id iv key =
     (case tr_id of
        JStr t \<Rightarrow> Inr (logmsg INFO ''WS encrypt set''
                   (w\<lparr>aes_iv := (aes_iv w)(t \<mapsto> iv), aes_key := (aes_key w)(t \<mapsto> key)\<rparr>))
      | JArr _ \<Rightarrow> Inl TypeError
      | JObj _ \<Rightarrow> Inl TypeError
      | _ \<Rightarrow> Inr (logmsg INFO ''WS encrypt set'' w))"

definition str_eq :: "json \<Rightarrow> string \<Rightarrow> bool" where
  "str_eq v s = (case v of JStr t \<Rightarrow> t = s | _ \<Rightarrow> False)"

definition control_frame :: "pylib \<Rightarrow> world \<Rightarrow> string \<Rightarrow> exn + world" where
  "control_frame L w s =
     ebind (lift_opt (json_loads L s)) (\<lambda>j.
     ebind (py_get j ''header'') (\<lambda>h0.
     ebind (py_get (py_or h0 (JObj [])) ''tr_id'') (\<lambda>tr_id.
     ebind (py_get (py_or h0 (JObj [])) ''encrypt'') (\<lambda>encrypt.
     if str_eq encrypt ''Y'' then
       ebind (py_get j ''body'') (\<lambda>b0.
       ebind (py_get (py_or b0 (JObj [])) ''output'') (\<lambda>o0.
       ebind (py_get (py_or o0 (JObj [])) ''iv'') (\<lambda>iv.
       ebind (py_get (py_or o0 (JObj [])) ''key'') (\<lambda>key.
       if truthy tr_id \<and> truthy iv \<and> truthy key then store_key w tr_id iv key
       else Inr w))))
     else Inr w))))"

text \<open>The order-book topic: fields 0, 3, 13, 23 and 33 of the payload.\<close>

definition py_int :: "pylib \<Rightarrow> string \<Rightarrow> exn + int" where
  "py_int L s = lift_opt (int_str L s)"

definition parse_orderbook ::
  "pylib \<Rightarrow> string list \<Rightarrow> exn + (string \<times> int \<times> int \<times> int \<times> int)" where
  "parse_orderbook L vals =
     ebind (index vals 0) (\<lambda>code.
     ebind (ebind (index vals 3) (py_int L)) (\<lambda>ask1.
     ebind (ebind (index vals 13) (py_int L)) (\<lambda>bid1.
     ebind (ebind (index vals 23) (py_int L)) (\<lambda>askq1.
     ebind (ebind (index vals 33) (py_int L)) (\<lambda>bidq1.
     Inr (code, ask1, askq1, bid1, bidq1))))))"

definition on_orderbook :: "pylib \<Rightarrow> world \<Rightarrow> string \<Rightarrow> world" where
  "on_orderbook L w data =
     (case parse_orderbook L (split_on CHR ''^'' data) of
        Inl e \<Rightarrow> w
      | Inr (code, ask1, askq1, bid1, bidq1) \<Rightarrow>
          w\<lparr>orderbook := (orderbook w)(code \<mapsto> (ask1, askq1, bid1, bidq1)),
            orderbook_seq := bump_seq (orderbook_seq w) code,
            orderbook_event := event_set (orderbook_event w) code\<rparr>)"

text \<open>The trade-tick topic: fields 0 and 2 of the payload.\<close>

definition parse_trade :: "pylib \<Rightarrow> string list \<Rightarrow> exn + (string \<times> int)" where
  "parse_trade L vals =
     ebind (index vals 0) (\<lambda>code.
     ebind (ebind (index vals 2) (py_int L)) (\<lambda>p.
     Inr (code, p)))"

definition on_trade :: "pylib \<Rightarrow> world \<Rightarrow> string \<Rightarrow> world" where
  "on_trade L w data =
     (case parse_trade L (split_on CHR ''^'' data) of
        Inl e \<Rightarrow> w
      | Inr (code, p) \<Rightarrow>
          w\<lparr>trade_price := (trade_price w)(code \<mapsto> p),
            trade_seq := bump_seq (trade_seq w) code,
            trade_event := event_set (trade_event w) code\<rparr>)"

text \<open>
  The execution-notification topic, from the decrypted text on: fields 2, 8, 9, 10,
  12, 13 and 14, each with its default when the message is too short.
\<close>

definition field_or :: "string list \<Rightarrow> nat \<Rightarrow> string \<Rightarrow> string" where
  "field_or flds i d = (if length flds > i then flds ! i else d)"

definition exec_notify :: "pylib \<Rightarrow> world \<Rightarrow> string \<Rightarrow> world" where
  "exec_notify L w plain =
     (let flds = split_on CHR ''^'' plain;
          order = field_or flds 2 [];
          pd = field_or flds 8 [];
          q = safe_int L (field_or flds 9 ''0'') 0;
          p = safe_int L (field_or flds 10 ''0'') 0;
          reject_flag = field_or flds 12 [];
          is_reject = is_truthy reject_flag;
          is_fill = (\<not> is_reject \<and> q > 0 \<and> p > 0)
      in if is_fill then
           logmsg INFO ''EXEC_FILL''
             (put_nowait (get_order_queue w order) order
                \<lparr>order_no = order, pdno = pd, qty = q, price = p, raw_fields = flds\<rparr>)
         else logmsg INFO ''EXEC_NONFILL'' w)"

definition lookup :: "(string \<rightharpoonup> json) \<Rightarrow> string \<Rightarrow> json" where
  "lookup d k = (case d k of None \<Rightarrow> JNull | Some v \<Rightarrow> v)"

definition on_exec :: "pylib \<Rightarrow> world \<Rightarrow> string \<Rightarrow> string \<Rightarrow> world" where
  "on_exec L w tr_id data =
     (let key = lookup (aes_key w) tr_id; iv = lookup (aes_iv w) tr_id in
      if \<not> truthy key \<or> \<not> truthy iv then w
      else (case aes_cbc_base64_decrypt L data key iv of
              Inl e \<Rightarrow> logmsg WARNING ''EXEC_NOTIFY parse/decrypt failed'' w
            | Inr plain \<Rightarrow> exec_notify L w plain))"

text \<open>
  The body of the loop of \<open>_recv_loop\<close> for one received message. An exception that
  leaves this body would leave the loop.
\<close>

definition process_frame :: "pylib \<Rightarrow> Config \<Rightarrow> world \<Rightarrow> msg \<Rightarrow> exn + world" where
  "process_frame L C w m =
     (case m of
        Binary b \<Rightarrow> Inr w
      | Text s \<Rightarrow>
          if startswith s CHR ''{'' then
            Inr (case control_frame L w s of Inl e \<Rightarrow> w | Inr w' \<Rightarrow> w')
          else if CHR ''|'' \<notin> set s then Inr w
          else
            (let parts = split_max CHR ''|'' 3 s in
             if length parts < 4 then Inr w
             else
               ebind (index parts 0) (\<lambda>data_type.
               ebind (index parts 1) (\<lambda>tr_id.
               ebind (index parts 2) (\<lambda>third.
               ebind (index parts 3) (\<lambda>data.
                 if tr_id = ''H0STASP0'' then Inr (on_orderbook L w data)
                 else if tr_id = ''H0STCNT0'' then Inr (on_trade L w data)
                 else if tr_id = exec_tr_id C \<and> data_type = ''1'' then
                   Inr (on_exec L w tr_id data)
                 else Inr w))))))"

text \<open>
  \<open>_recv_loop\<close> over what the transport delivers: a failure of \<open>recv()\<close>, or an
  exception out of the body, ends the task with that exception; nothing received
  afterwards is looked at.
\<close>

fun recv_loop :: "pylib \<Rightarrow> Config \<Rightarrow> world \<Rightarrow> recv list \<Rightarrow> world" where
  "recv_loop L C w [] = w"
| "recv_loop L C w (RecvFails e # rs) = w\<lparr>recv_task := Failed e\<rparr>"
| "recv_loop L C w (Frame m # rs) =
     (case process_frame L C w m of
        Inl e \<Rightarrow> w\<lparr>recv_task := Failed e\<rparr>
      | Inr w' \<Rightarrow> recv_loop L C w' rs)"

definition dispatch :: "pylib \<Rightarrow> Config \<Rightarrow> world \<Rightarrow> recv list \<Rightarrow> world" where
  "dispatch L C w rs = (case recv_task w of Running \<Rightarrow> recv_loop L C w rs | _ \<Rightarrow> w)"

section \<open>Awaiting the environment\<close>

text \<open>
  The outcome of a coroutine: \<open>Ret x w\<close> returns \<open>x\<close>, \<open>Raise e w\<close> raises \<open>e\<close>, both
  in the state \<open>w\<close>; \<open>Stuck\<close> when the script of the environment has ended, or its
  next event is not of the kind the program asks for.
\<close>

datatype 'a res = Stuck | Raise exn world | Ret 'a world

definition bnd :: "'a res \<Rightarrow> ('a \<Rightarrow> world \<Rightarrow> 'b res) \<Rightarrow> 'b res" where
  "bnd r f = (case r of Stuck \<Rightarrow> Stuck | Raise e w \<Rightarrow> Raise e w | Ret x w \<Rightarrow> f x w)"

text \<open>\<open>kst_now()\<close> and the event loop's \<open>time()\<close>: the next clock reading of the script.\<close>

definition kst_now :: "world \<Rightarrow> int res" where
  "kst_now w = (case tape w of Now t # es \<Rightarrow> Ret t (w\<lparr>tape := es\<rparr>) | _ \<Rightarrow> Stuck)"

text \<open>One suspension: the receive loop runs on what arrives meanwhile.\<close>

definition suspend :: "pylib \<Rightarrow> Config \<Rightarrow> world \<Rightarrow> reply res" where
  "suspend L C w =
     (case tape w of
        Susp rs r # es \<Rightarrow> Ret r (dispatch L C (w\<lparr>tape := es\<rparr>) rs)
      | _ \<Rightarrow> Stuck)"

text \<open>An awaited call to the outside: it is recorded, and it returns or raises.\<close>

definition call :: "pylib \<Rightarrow> Config \<Rightarrow> effect \<Rightarrow> world \<Rightarrow> reply res" where
  "call L C eff w =
     bnd (suspend L C (w\<lparr>sent := sent w @ [eff]\<rparr>))
       (\<lambda>r w'. case r of Fails e \<Rightarrow> Raise e w' | _ \<Rightarrow> Ret r w')"

definition get_approval_key :: "pylib \<Rightarrow> Config \<Rightarrow> world \<Rightarrow> string res" where
  "get_approval_key L C w =
     bnd (call L C GetApprovalKey w) (\<lambda>r w'. case r of RStr s \<Rightarrow> Ret s w' | _ \<Rightarrow> Stuck)"

definition inquire_psbl_cash :: "pylib \<Rightarrow> Config \<Rightarrow> string \<Rightarrow> int \<Rightarrow> world \<Rightarrow> int res" where
  "inquire_psbl_cash L C code ord_unpr w =
     bnd (call L C (InquirePsblCash code ord_unpr) w)
       (\<lambda>r w'. case r of RInt n \<Rightarrow> Ret n w' | _ \<Rightarrow> Stuck)"

definition order_cash ::
  "pylib \<Rightarrow> Config \<Rightarrow> string \<Rightarrow> string \<Rightarrow> int \<Rightarrow> int \<Rightarrow> string \<Rightarrow> world \<Rightarrow> string res" where
  "order_cash L C side code q unpr ord_dvsn w =
     bnd (call L C (OrderCash side code q unpr ord_dvsn) w)
       (\<lambda>r w'. case r of RStr s \<Rightarrow> Ret s w' | _ \<Rightarrow> Stuck)"

definition get_ranking_fluctuation :: "pylib \<Rightarrow> Config \<Rightarrow> world \<Rightarrow> json res" where
  "get_ranking_fluctuation L C w =
     bnd (call L C GetRanking w) (\<lambda>r w'. case r of RJson j \<Rightarrow> Ret j w' | _ \<Rightarrow> Stuck)"

definition sleep :: "pylib \<Rightarrow> Config \<Rightarrow> world \<Rightarrow> unit res" where
  "sleep L C w = bnd (call L C Sleep w) (\<lambda>r w'. case r of Done \<Rightarrow> Ret () w' | _ \<Rightarrow> Stuck)"

text \<open>\<open>subscribe\<close> and \<open>unsubscribe\<close>: the assertion, the frame sent, the log line.\<close>

definition subscribe :: "pylib \<Rightarrow> Config \<Rightarrow> string \<Rightarrow> string \<Rightarrow> world \<Rightarrow> unit res" where
  "subscribe L C tr_id tr_key w =
     (if \<not> ws_open w then Raise AssertionError w
      else bnd (call L C (Subscribe tr_id tr_key) w)
        (\<lambda>r w'. case r of Done \<Rightarrow> Ret () (logmsg INFO ''WS subscribe'' w') | _ \<Rightarrow> Stuck))"

definition unsubscribe :: "pylib \<Rightarrow> Config \<Rightarrow> string \<Rightarrow> string \<Rightarrow> world \<Rightarrow> unit res" where
  "unsubscribe L C tr_id tr_key w =
     (if \<not> ws_open w then Raise AssertionError w
      else bnd (call L C (Unsubscribe tr_id tr_key) w)
        (\<lambda>r w'. case r of Done \<Rightarrow> Ret () (logmsg INFO ''WS unsubscribe'' w') | _ \<Rightarrow> Stuck))"

text \<open>\<open>asyncio.wait_for\<close> on an event or a queue: one suspension.\<close>

definition wait_for :: "pylib \<Rightarrow> Config \<Rightarrow> world \<Rightarrow> unit res" where
  "wait_for L C w =
     bnd (suspend L C w) (\<lambda>r w'. case r of Done \<Rightarrow> Ret () w' | _ \<Rightarrow> Stuck)"

subsection \<open>What the receive loop leaves alone\<close>

definition same_outside :: "world \<Rightarrow> world \<Rightarrow> bool" where
  "same_outside w w' =
     (tape w' = tape w \<and> sent w' = sent w \<and> drained w' = drained w \<and>
      cooldowns w' = cooldowns w \<and> ws_open w' = ws_open w \<and> recv_task w' = recv_task w)"

lemma same_outside_refl: "same_outside w w"
  by (simp add: same_outside_def)

lemma same_outside_trans: "same_outside a b \<Longrightarrow> same_outside b c \<Longrightarrow> same_outside a c"
  by (simp add: same_outside_def)

lemma ebind_Inr: "ebind m f = Inr y \<longleftrightarrow> (\<exists>x. m = Inr x \<and> f x = Inr y)"
  by (cases m) (simp_all add: ebind_def)

lemma same_outside_logmsg: "same_outside w (logmsg l s w)"
  by (simp add: same_outside_def logmsg_def)

lemma same_outside_store_key: "store_key w t i k = Inr w' \<Longrightarrow> same_outside w w'"
  by (auto simp: store_key_def same_outside_def logmsg_def split: json.splits)

lemma same_outside_control_frame: "control_frame L w s = Inr w' \<Longrightarrow> same_outside w w'"
  by (auto simp: control_frame_def ebind_Inr same_outside_refl
      dest: same_outside_store_key split: if_splits)

lemma same_outside_on_orderbook: "same_outside w (on_orderbook L w data)"
  by (simp add: on_orderbook_def same_outside_def split: sum.splits prod.splits)

lemma same_outside_on_trade: "same_outside w (on_trade L w data)"
  by (simp add: on_trade_def same_outside_def split: sum.splits prod.splits)

lemma same_outside_exec_notify: "same_outside w (exec_notify L w plain)"
  by (simp add: exec_notify_def same_outside_def logmsg_def put_nowait_def
      get_order_queue_def Let_def split: option.splits)

lemma same_outside_on_exec: "same_outside w (on_exec L w tr_id data)"
  by (simp add: on_exec_def Let_def same_outside_refl same_outside_logmsg
      same_outside_exec_notify split: sum.splits)

lemma same_outside_process_frame: "process_frame L C w m = Inr w' \<Longrightarrow> same_outside w w'"
  by (auto simp: process_frame_def Let_def ebind_Inr same_outside_refl
      same_outside_on_orderbook same_outside_on_trade same_outside_on_exec
      dest: same_outside_control_frame split: msg.splits if_splits sum.splits)

lemma process_frame_total: "\<exists>w'. process_frame L C w m = Inr w'"
  by (cases m) (simp_all add: process_frame_def Let_def index_def ebind_def)

lemma tape_recv_loop: "tape (recv_loop L C w rs) = tape w"
proof (induction rs arbitrary: w)
  case Nil
  then show ?case by simp
next
  case (Cons r rs)
  show ?case
  proof (cases r)
    case (Frame m)
    obtain w' where w': "process_frame L C w m = Inr w'"
      using process_frame_total by blast
    have "tape w' = tape w"
      using same_outside_process_frame [OF w'] by (simp add: same_outside_def)
    then show ?thesis using Frame w' Cons.IH [of w'] by simp
  next
    case (RecvFails e)
    then show ?thesis by simp
  qed
qed

lemma tape_dispatch: "tape (dispatch L C w rs) = tape w"
  by (simp add: dispatch_def tape_recv_loop split: task.splits)

lemma kst_now_tape: "kst_now w = Ret t w' \<Longrightarrow> tape w = Now t # tape w'"
  by (auto simp: kst_now_def split: list.splits ev.splits)

lemma suspend_tape: "suspend L C w = Ret r w' \<Longrightarrow> length (tape w') < length (tape w)"
  by (auto simp: suspend_def tape_dispatch split: list.splits ev.splits)

lemma wait_for_tape: "wait_for L C w = Ret u w' \<Longrightarrow> length (tape w') < length (tape w)"
  by (auto simp: wait_for_def bnd_def dest: suspend_tape split: res.splits reply.splits)

section \<open>The waits\<close>

text \<open>
  \<open>wait_next_orderbook\<close>. \<open>fresh_quote\<close> is the test at the head of its loop: the
  sequence number of the code is beyond \<open>last_seq\<close> and the code has a snapshot.
  The timeout is in microseconds, as the clock.
\<close>

definition fresh_quote :: "world \<Rightarrow> string \<Rightarrow> int \<Rightarrow> (int \<times> int \<times> int \<times> int \<times> int) option" where
  "fresh_quote w code last_seq =
     (let cur = get0 (orderbook_seq w) code in
      if cur > last_seq then
        (case orderbook w code of
           None \<Rightarrow> None
         | Some (ask1, askq1, bid1, bidq1) \<Rightarrow> Some (cur, ask1, askq1, bid1, bidq1))
      else None)"

function wno_loop ::
  "pylib \<Rightarrow> Config \<Rightarrow> string \<Rightarrow> int \<Rightarrow> int \<Rightarrow> world \<Rightarrow> (int \<times> int \<times> int \<times> int \<times> int) res" where
  "wno_loop L C code last_seq end_t w =
     (case kst_now w of
        Stuck \<Rightarrow> Stuck
      | Raise e w1 \<Rightarrow> Raise e w1
      | Ret t w1 \<Rightarrow>
          if \<not> t < end_t then Raise (TimeoutError ''orderbook timeout'') w1
          else
            (case fresh_quote w1 code last_seq of
               Some q \<Rightarrow> Ret q w1
             | None \<Rightarrow>
                 (case kst_now (w1\<lparr>orderbook_event := event_clear (orderbook_event w1) code\<rparr>) of
                    Stuck \<Rightarrow> Stuck
                  | Raise e w3 \<Rightarrow> Raise e w3
                  | Ret t' w3 \<Rightarrow>
                      (case wait_for L C w3 of
                         Stuck \<Rightarrow> Stuck
                       | Raise e w4 \<Rightarrow> Raise e w4
                       | Ret u w4 \<Rightarrow>
                           if is_set (orderbook_event w4) code
                           then wno_loop L C code last_seq end_t w4
                           else Raise (TimeoutError ''orderbook timeout'') w4))))"
  by pat_completeness auto
termination
  by (relation "measure (\<lambda>(L, C, code, last_seq, end_t, w). length (tape w))")
     (auto dest!: kst_now_tape wait_for_tape)

definition wait_next_orderbook ::
  "pylib \<Rightarrow> Config \<Rightarrow> string \<Rightarrow> int \<Rightarrow> int \<Rightarrow> world \<Rightarrow> (int \<times> int \<times> int \<times> int \<times> int) res" where
  "wait_next_orderbook L C code last_seq timeout w =
     bnd (kst_now (w\<lparr>orderbook_event := ensure_event (orderbook_event w) code\<rparr>))
       (\<lambda>t0 w0. wno_loop L C code last_seq (t0 + timeout) w0)"

text \<open>\<open>wait_trade_reach\<close>; \<open>reached\<close> is the test at the head of its loop.\<close>

definition reached :: "world \<Rightarrow> string \<Rightarrow> int \<Rightarrow> int option" where
  "reached w code target_price =
     (case trade_price w code of
        None \<Rightarrow> None
      | Some p \<Rightarrow> if p \<ge> target_price then Some p else None)"

function wtr_loop :: "pylib \<Rightarrow> Config \<Rightarrow> string \<Rightarrow> int \<Rightarrow> int \<Rightarrow> world \<Rightarrow> int res" where
  "wtr_loop L C code target_price session_end w =
     (case kst_now w of
        Stuck \<Rightarrow> Stuck
      | Raise e w1 \<Rightarrow> Raise e w1
      | Ret t w1 \<Rightarrow>
          if \<not> t < session_end
          then Raise (TimeoutError ''trade reach timeout (session ended)'') w1
          else
            (case reached w1 code target_price of
               Some p \<Rightarrow> Ret p w1
             | None \<Rightarrow>
                 (case kst_now (w1\<lparr>trade_event := event_clear (trade_event w1) code\<rparr>) of
                    Stuck \<Rightarrow> Stuck
                  | Raise e w3 \<Rightarrow> Raise e w3
                  | Ret t' w3 \<Rightarrow>
                      if session_end - t' \<le> 0
                      then Raise (TimeoutError ''trade reach timeout (session ended)'') w3
                      else
                        (case wait_for L C w3 of
                           Stuck \<Rightarrow> Stuck
                         | Raise e w4 \<Rightarrow> Raise e w4
                         | Ret u w4 \<Rightarrow> wtr_loop L C code target_price session_end w4))))"
  by pat_completeness auto
termination
  by (relation "measure (\<lambda>(L, C, code, target_price, session_end, w). length (tape w))")
     (auto dest!: kst_now_tape wait_for_tape)

definition wait_trade_reach :: "pylib \<Rightarrow> Config \<Rightarrow> string \<Rightarrow> int \<Rightarrow> int \<Rightarrow> world \<Rightarrow> int res" where
  "wait_trade_reach L C code target_price session_end w =
     wtr_loop L C code target_price session_end
       (w\<lparr>trade_event := ensure_event (trade_event w) code\<rparr>)"

text \<open>
  \<open>wait_order_fills\<close>. \<open>q_get\<close> is \<open>wait_for(q.get(), timeout)\<close>: after the suspension
  the head of the queue is taken, or the wait has timed out on an empty queue.
\<close>

definition q_get :: "pylib \<Rightarrow> Config \<Rightarrow> string \<Rightarrow> world \<Rightarrow> ExecFill res" where
  "q_get L C order w =
     bnd (wait_for L C w) (\<lambda>u w'.
       case queue_of w' order of
         [] \<Rightarrow> Raise (TimeoutError []) w'
       | f # fs \<Rightarrow>
           Ret f (w'\<lparr>fills_by_order := (fills_by_order w')(order \<mapsto> fs),
                    drained := drained w' @ [f]\<rparr>))"

lemma q_get_tape: "q_get L C order w = Ret f w' \<Longrightarrow> length (tape w') < length (tape w)"
  by (auto simp: q_get_def bnd_def dest: wait_for_tape split: res.splits list.splits)

function wof_loop ::
  "pylib \<Rightarrow> Config \<Rightarrow> string \<Rightarrow> int \<Rightarrow> int \<Rightarrow> world \<Rightarrow> (int \<times> int) res" where
  "wof_loop L C order filled_qty filled_value w =
     (case q_get L C order w of
        Stuck \<Rightarrow> Stuck
      | Raise e w' \<Rightarrow>
          if is_TimeoutError e then Ret (filled_qty, filled_value) w' else Raise e w'
      | Ret nxt w' \<Rightarrow>
          wof_loop L C order (filled_qty + qty nxt) (filled_value + qty nxt * price nxt) w')"
  by pat_completeness auto
termination
  by (relation "measure (\<lambda>(L, C, order, filled_qty, filled_value, w). length (tape w))")
     (auto dest!: q_get_tape)

definition wait_order_fills :: "pylib \<Rightarrow> Config \<Rightarrow> string \<Rightarrow> world \<Rightarrow> (int \<times> int) res" where
  "wait_order_fills L C order w =
     (case q_get L C order (get_order_queue w order) of
        Stuck \<Rightarrow> Stuck
      | Raise e w' \<Rightarrow> if is_TimeoutError e then Ret (0, 0) w' else Raise e w'
      | Ret first w' \<Rightarrow> wof_loop L C order (qty first) (qty first * price first) w')"

section \<open>Concrete inputs\<close>

text \<open>
  A library instance and states for evaluating the definitions on concrete inputs.
  \<open>int_literal\<close> reads an optional minus sign followed by one to fifteen decimal
  digits; on these strings \<open>int(s)\<close>, \<open>int(float(s))\<close> and \<open>float(s)\<close> have its value.
  On every other string the instance raises. The instance decrypts
  with the identity, and of the control frames it decodes one, \<open>key_frame\<close>, which
  stands for the frame that carries the key and the IV of the topic H0STCNI0.
\<close>

definition is_digit :: "char \<Rightarrow> bool" where
  "is_digit c = (let n = (of_char c :: nat) in 48 \<le> n \<and> n \<le> 57)"

definition digits_val :: "string \<Rightarrow> int" where
  "digits_val s = foldl (\<lambda>a c. 10 * a + int (of_char c - 48)) 0 s"

definition int_literal :: "string \<Rightarrow> int option" where
  "int_literal s =
     (let (neg, ds) = (case s of
                         [] \<Rightarrow> (False, [])
                       | c # r \<Rightarrow> if c = CHR ''-'' then (True, r) else (False, s))
      in if ds \<noteq> [] \<and> length ds \<le> 15 \<and> list_all is_digit ds
         then Some (if neg then - digits_val ds else digits_val ds)
         else None)"

definition key_frame :: string where
  "key_frame = ''{key and iv of H0STCNI0}''"

definition key_frame_json :: json where
  "key_frame_json =
     JObj [(''header'', JObj [(''tr_id'', JStr ''H0STCNI0''), (''encrypt'', JStr ''Y'')]),
           (''body'', JObj [(''output'', JObj [(''iv'', JStr ''i''), (''key'', JStr ''k'')])])]"

definition plain_lib :: pylib where
  "plain_lib = \<lparr>json_loads = (\<lambda>s. if s = key_frame then Some key_frame_json else None),
     b64decode = Some,
     aes_cbc_decrypt = (\<lambda>k i c. Some c), unpad = (\<lambda>s n. Some s), utf8_decode = Some,
     int_str = int_literal, float_int = int_literal,
     float_str = (\<lambda>v. case v of JStr s \<Rightarrow> map_option real_of_int (int_literal s) | _ \<Rightarrow> None)\<rparr>"

definition init_world :: world where
  "init_world = \<lparr>aes_key = Map.empty, aes_iv = Map.empty, orderbook = Map.empty,
     orderbook_seq = Map.empty, orderbook_event = Map.empty, trade_price = Map.empty,
     trade_seq = Map.empty, trade_event = Map.empty, fills_by_order = Map.empty,
     recv_task = NotStarted, ws_open = False, cooldowns = Map.empty, tape = [],
     sent = [], logged = [], enqueued = [], drained = []\<rparr>"

definition prod_cfg :: Config where
  "prod_cfg = \<lparr>env = ''prod'', hts_id = ''me'', custtype = ''P''\<rparr>"

definition keyed_world :: world where
  "keyed_world = init_world\<lparr>aes_key := [''H0STCNI0'' \<mapsto> JStr ''k''],
     aes_iv := [''H0STCNI0'' \<mapsto> JStr ''i'']\<rparr>"

section \<open>Classification of execution notifications\<close>

text \<open>
  The flag test in the words of the specification: the flag equals one of Y, 1, T, TRUE
  when letter case is ignored. The source's \<open>_is_truthy\<close> strips white space first.
\<close>

definition spec_truthy :: "string \<Rightarrow> bool" where
  "spec_truthy v = (upper v \<in> set [''Y'', ''1'', ''T'', ''TRUE''])"

lemma split_max_no_sep: "c \<notin> set s \<Longrightarrow> split_max c n s = [s]"
  by (induction c n s rule: split_max.induct) auto

lemma queue_of_put:
  "queue_of (put_nowait (get_order_queue w order) order f) o' =
     (if o' = order then queue_of w order @ [f] else queue_of w o')"
  by (simp add: queue_of_def put_nowait_def get_order_queue_def split: option.splits)

lemma enqueued_put: "enqueued (put_nowait (get_order_queue w order) order f) = enqueued w @ [f]"
  by (simp add: put_nowait_def get_order_queue_def split: option.splits)

lemma queue_of_logmsg: "queue_of (logmsg l s w) o' = queue_of w o'"
  by (simp add: queue_of_def logmsg_def)

lemma enqueued_logmsg: "enqueued (logmsg l s w) = enqueued w"
  by (simp add: logmsg_def)

lemma process_exec_frame:
  assumes "\<not> startswith s CHR ''{''"
    and "split_max CHR ''|'' 3 s = [''1'', exec_tr_id C, third, data]"
  shows "process_frame L C w (Text s) = Inr (on_exec L w (exec_tr_id C) data)"
proof -
  have "CHR ''|'' \<in> set s"
    using assms(2) split_max_no_sep [of "CHR ''|''" s 3] by auto
  moreover have "exec_tr_id C \<noteq> ''H0STASP0''" "exec_tr_id C \<noteq> ''H0STCNT0''"
    by (simp_all add: exec_tr_id_def)
  ultimately show ?thesis
    using assms by (simp add: process_frame_def index_def ebind_def)
qed

text \<open>
  C2 (amended). For every decrypted message of the execution-notification topic, a fill
  is put on the queue of its order id exactly when the reject flag (field 12), with the
  white space of \<open>str.strip()\<close> removed from both ends, is not one of Y, 1, T, TRUE
  in any letter case, and the quantity and the price parsed from fields 9 and 10 are
  both positive. It goes to that queue only. Every other message changes nothing but
  the log (EXEC_NONFILL).
\<close>

theorem exec_fill_iff_stripped:
  assumes "\<not> startswith s CHR ''{''"
    and "split_max CHR ''|'' 3 s = [''1'', exec_tr_id C, third, data]"
    and "truthy (lookup (aes_key w) (exec_tr_id C))"
    and "truthy (lookup (aes_iv w) (exec_tr_id C))"
    and "aes_cbc_base64_decrypt L data (lookup (aes_key w) (exec_tr_id C))
           (lookup (aes_iv w) (exec_tr_id C)) = Inr plain"
    and "flds = split_on CHR ''^'' plain"
    and "f = \<lparr>order_no = field_or flds 2 [], pdno = field_or flds 8 [],
              qty = safe_int L (field_or flds 9 ''0'') 0,
              price = safe_int L (field_or flds 10 ''0'') 0, raw_fields = flds\<rparr>"
  shows "\<exists>w'. process_frame L C w (Text s) = Inr w' \<and>
     (if \<not> spec_truthy (strip (field_or flds 12 [])) \<and> qty f > 0 \<and> price f > 0
      then enqueued w' = enqueued w @ [f] \<and>
           queue_of w' (order_no f) = queue_of w (order_no f) @ [f] \<and>
           (\<forall>o'. o' \<noteq> order_no f \<longrightarrow> queue_of w' o' = queue_of w o')
      else w' = logmsg INFO ''EXEC_NONFILL'' w)"
proof -
  have pf: "process_frame L C w (Text s) = Inr (on_exec L w (exec_tr_id C) data)"
    using assms(1,2) by (rule process_exec_frame)
  have oe: "on_exec L w (exec_tr_id C) data = exec_notify L w plain"
    using assms(3,4,5) by (simp add: on_exec_def Let_def)
  have tr: "is_truthy v = spec_truthy (strip v)" for v
    by (simp add: is_truthy_def spec_truthy_def)
  show ?thesis
    unfolding pf oe
    using assms(6,7)
    by (simp add: exec_notify_def Let_def tr queue_of_put enqueued_put queue_of_logmsg
        enqueued_logmsg)
qed


definition fill_msg :: string where
  "fill_msg = ''a^b^O1^c^d^e^f^g^005930^5^100^h^ N ^Y^Y''"

definition padded_reject_msg :: string where
  "padded_reject_msg = ''a^b^O1^c^d^e^f^g^005930^5^100^h^ Y^Y^Y''"

definition nbsp_reject_msg :: string where
  "nbsp_reject_msg = ''a^b^O1^c^d^e^f^g^005930^5^100^h^'' @ CHR 0xA0 # ''y^Y^Y''"

text \<open>
  The theorem at two messages with quantity 5 and price 100: one whose reject flag is N
  between two spaces, which is a fill, and one whose reject flag is a no-break space
  followed by y, which is none.
\<close>

theorem exec_fill_iff_stripped_witness:
  "(\<exists>w'. process_frame plain_lib prod_cfg keyed_world (Text (''1|H0STCNI0|001|'' @ fill_msg)) = Inr w'
     \<and> enqueued w' = [\<lparr>order_no = ''O1'', pdno = ''005930'', qty = 5, price = 100,
                        raw_fields = split_on CHR ''^'' fill_msg\<rparr>]
     \<and> queue_of w' ''O1'' = [\<lparr>order_no = ''O1'', pdno = ''005930'', qty = 5, price = 100,
                        raw_fields = split_on CHR ''^'' fill_msg\<rparr>])
   \<and> process_frame plain_lib prod_cfg keyed_world (Text (''1|H0STCNI0|001|'' @ nbsp_reject_msg))
       = Inr (logmsg INFO ''EXEC_NONFILL'' keyed_world)"
proof
  let ?s = "''1|H0STCNI0|001|'' @ fill_msg"
  let ?flds = "split_on CHR ''^'' fill_msg"
  let ?f = "\<lparr>order_no = field_or ?flds 2 [], pdno = field_or ?flds 8 [],
              qty = safe_int plain_lib (field_or ?flds 9 ''0'') 0,
              price = safe_int plain_lib (field_or ?flds 10 ''0'') 0, raw_fields = ?flds\<rparr>"
  have a1: "\<not> startswith ?s CHR ''{''" by code_simp
  have a2: "split_max CHR ''|'' 3 ?s = [''1'', exec_tr_id prod_cfg, ''001'', fill_msg]"
    by code_simp
  have a3: "truthy (lookup (aes_key keyed_world) (exec_tr_id prod_cfg))" by code_simp
  have a4: "truthy (lookup (aes_iv keyed_world) (exec_tr_id prod_cfg))" by code_simp
  have a5: "aes_cbc_base64_decrypt plain_lib fill_msg (lookup (aes_key keyed_world) (exec_tr_id prod_cfg))
           (lookup (aes_iv keyed_world) (exec_tr_id prod_cfg)) = Inr fill_msg" by code_simp
  have c: "\<not> spec_truthy (strip (field_or ?flds 12 [])) \<and> qty ?f > 0 \<and> price ?f > 0"
    by code_simp
  have fe: "?f = \<lparr>order_no = ''O1'', pdno = ''005930'', qty = 5, price = 100, raw_fields = ?flds\<rparr>"
    by code_simp
  have q0: "queue_of keyed_world ''O1'' = []" "enqueued keyed_world = []" by code_simp+
  show "\<exists>w'. process_frame plain_lib prod_cfg keyed_world (Text ?s) = Inr w'
     \<and> enqueued w' = [\<lparr>order_no = ''O1'', pdno = ''005930'', qty = 5, price = 100,
                        raw_fields = ?flds\<rparr>]
     \<and> queue_of w' ''O1'' = [\<lparr>order_no = ''O1'', pdno = ''005930'', qty = 5, price = 100,
                        raw_fields = ?flds\<rparr>]"
    using exec_fill_iff_stripped [OF a1 a2 a3 a4 a5 refl refl] c fe q0
    by auto
  let ?t = "''1|H0STCNI0|001|'' @ nbsp_reject_msg"
  let ?flds' = "split_on CHR ''^'' nbsp_reject_msg"
  have b1: "\<not> startswith ?t CHR ''{''" by code_simp
  have b2: "split_max CHR ''|'' 3 ?t = [''1'', exec_tr_id prod_cfg, ''001'', nbsp_reject_msg]"
    by code_simp
  have b5: "aes_cbc_base64_decrypt plain_lib nbsp_reject_msg
           (lookup (aes_key keyed_world) (exec_tr_id prod_cfg))
           (lookup (aes_iv keyed_world) (exec_tr_id prod_cfg)) = Inr nbsp_reject_msg" by code_simp
  have d: "spec_truthy (strip (field_or ?flds' 12 []))" by code_simp
  show "process_frame plain_lib prod_cfg keyed_world (Text ?t)
          = Inr (logmsg INFO ''EXEC_NONFILL'' keyed_world)"
    using exec_fill_iff_stripped [OF b1 b2 a3 a4 b5 refl refl] d
    by auto
qed

text \<open>
  C2 as stated fails: with the reject flag \<open>" Y"\<close> (a leading space), which is not one of
  the four words under case-insensitive equality, and quantity 5 and price 100, nothing
  is put on a queue.
\<close>

theorem padded_reject_flag_counterexample:
  "field_or (split_on CHR ''^'' padded_reject_msg) 12 [] = '' Y''
   \<and> \<not> spec_truthy '' Y''
   \<and> safe_int plain_lib (field_or (split_on CHR ''^'' padded_reject_msg) 9 ''0'') 0 = 5
   \<and> safe_int plain_lib (field_or (split_on CHR ''^'' padded_reject_msg) 10 ''0'') 0 = 100
   \<and> enqueued (exec_notify plain_lib keyed_world padded_reject_msg) = []
   \<and> fills_by_order (exec_notify plain_lib keyed_world padded_reject_msg) ''O1'' = None
   \<and> map_sum id enqueued (process_frame plain_lib prod_cfg keyed_world
         (Text (''1|H0STCNI0|001|'' @ padded_reject_msg))) = Inr []"
  by code_simp


section \<open>Sequence numbers and the order-book wait\<close>

definition same_book :: "world \<Rightarrow> world \<Rightarrow> bool" where
  "same_book w w' = (orderbook w' = orderbook w \<and> orderbook_seq w' = orderbook_seq w)"

lemma same_book_store_key: "store_key w t i k = Inr w' \<Longrightarrow> same_book w w'"
  by (auto simp: store_key_def same_book_def logmsg_def split: json.splits)

lemma same_book_control_frame: "control_frame L w s = Inr w' \<Longrightarrow> same_book w w'"
  by (auto simp: control_frame_def ebind_Inr same_book_def
      dest!: same_book_store_key split: if_splits)

lemma same_book_on_trade: "same_book w (on_trade L w data)"
  by (simp add: on_trade_def same_book_def split: sum.splits prod.splits)

lemma same_book_on_exec: "same_book w (on_exec L w tr_id data)"
  by (simp add: on_exec_def exec_notify_def Let_def same_book_def logmsg_def put_nowait_def
      get_order_queue_def split: sum.splits option.splits)

lemma get0_bump_seq: "get0 (bump_seq d key) k = (if k = key then get0 d key + 1 else get0 d k)"
  by (simp add: get0_def bump_seq_def)

lemma on_orderbook_step:
  "(orderbook (on_orderbook L w data) c = orderbook w c \<and>
    get0 (orderbook_seq (on_orderbook L w data)) c = get0 (orderbook_seq w) c)
   \<or> get0 (orderbook_seq (on_orderbook L w data)) c = get0 (orderbook_seq w) c + 1"
  by (auto simp: on_orderbook_def get0_bump_seq split: sum.splits prod.splits)

lemma process_frame_cases:
  assumes "process_frame L C w m = Inr w'"
  shows "w' = w \<or> (\<exists>s. control_frame L w s = Inr w') \<or> (\<exists>d. w' = on_orderbook L w d)
         \<or> (\<exists>d. w' = on_trade L w d) \<or> (\<exists>t d. w' = on_exec L w t d)"
proof (cases m)
  case (Binary b)
  then show ?thesis using assms by (simp add: process_frame_def)
next
  case (Text s)
  show ?thesis
  proof (cases "startswith s CHR ''{''")
    case True
    then show ?thesis
      using assms Text by (cases "control_frame L w s") (auto simp: process_frame_def)
  next
    case False
    then show ?thesis
      using assms Text
      by (simp add: process_frame_def Let_def ebind_Inr split: if_splits) blast+
  qed
qed

lemma same_book_refl: "same_book w w"
  by (simp add: same_book_def)

lemma process_frame_seq_step:
  assumes "process_frame L C w m = Inr w'"
  shows "(orderbook w' c = orderbook w c \<and> get0 (orderbook_seq w') c = get0 (orderbook_seq w) c)
         \<or> get0 (orderbook_seq w') c = get0 (orderbook_seq w) c + 1"
proof -
  have "same_book w w' \<or> (\<exists>data. w' = on_orderbook L w data)"
    using process_frame_cases [OF assms] same_book_refl same_book_control_frame
      same_book_on_trade same_book_on_exec by blast
  then show ?thesis
    using on_orderbook_step [where w = w and c = c and L = L] by (auto simp: same_book_def)
qed

lemma recv_loop_seq_mono: "get0 (orderbook_seq w) c \<le> get0 (orderbook_seq (recv_loop L C w rs)) c"
proof (induction rs arbitrary: w)
  case Nil
  then show ?case by simp
next
  case (Cons r rs)
  show ?case
  proof (cases r)
    case (Frame m)
    obtain w' where w': "process_frame L C w m = Inr w'"
      using process_frame_total by blast
    have "get0 (orderbook_seq w) c \<le> get0 (orderbook_seq w') c"
      using process_frame_seq_step [OF w', of c] by auto
    also have "\<dots> \<le> get0 (orderbook_seq (recv_loop L C w' rs)) c"
      by (rule Cons.IH)
    finally show ?thesis using Frame w' by simp
  next
    case (RecvFails e)
    then show ?thesis by simp
  qed
qed

lemma wno_loop_fresh:
  "wno_loop L C code last_seq end_t w = Ret q w' \<Longrightarrow> fresh_quote w' code last_seq = Some q"
proof (induction L C code last_seq end_t w rule: wno_loop.induct)
  case (1 L C code last_seq end_t w)
  note p = "1.prems" [unfolded wno_loop.simps [of L C code last_seq end_t w]]
  show ?case
  proof (cases "kst_now w")
    case (Ret t w1)
    note k1 = this
    show ?thesis
    proof (cases "fresh_quote w1 code last_seq")
      case (Some q')
      then show ?thesis using p k1 by (simp split: if_splits)
    next
      case None
      note fq = this
      let ?w2 = "w1\<lparr>orderbook_event := event_clear (orderbook_event w1) code\<rparr>"
      from p k1 fq have lt: "t < end_t" by (simp split: if_splits)
      from p k1 fq lt obtain t' w3 where k3: "kst_now ?w2 = Ret t' w3"
        by (cases "kst_now ?w2") simp_all
      from p k1 fq lt k3 obtain u w4 where k4: "wait_for L C w3 = Ret u w4"
        by (cases "wait_for L C w3") simp_all
      from p k1 fq lt k3 k4 have es: "is_set (orderbook_event w4) code"
        and rec: "wno_loop L C code last_seq end_t w4 = Ret q w'"
        by (simp_all split: if_splits)
      show ?thesis
        using "1.IH" [OF k1 _ fq k3 k4 es rec] lt by simp
    qed
  qed (use p in simp_all)
qed

lemma fresh_quote_SomeD:
  "fresh_quote w code last_seq = Some (cur, a, aq, b, bq) \<Longrightarrow>
     last_seq < cur \<and> get0 (orderbook_seq w) code = cur \<and> orderbook w code = Some (a, aq, b, bq)"
  by (auto simp: fresh_quote_def Let_def split: if_splits option.splits)

text \<open>
  C1. A call of \<open>wait_next_orderbook\<close> with last observed sequence number
  \<open>last_seq\<close> that returns, returns a sequence number greater than \<open>last_seq\<close>,
  and it is the code's sequence number, with the code's snapshot, in the state in which
  the call returns. One frame leaves the snapshot and the sequence number of a code as
  they are, or moves the sequence number up by exactly one; the receive loop never
  lowers a sequence number; \<open>_bump_seq\<close> returns the old number plus one.
\<close>

theorem wait_next_orderbook_fresh:
  "(wait_next_orderbook L C code last_seq timeout w = Ret (cur, a, aq, b, bq) w' \<longrightarrow>
      last_seq < cur \<and> get0 (orderbook_seq w') code = cur \<and>
      orderbook w' code = Some (a, aq, b, bq))
   \<and> (process_frame L C w m = Inr w1 \<longrightarrow>
        (orderbook w1 c = orderbook w c \<and> get0 (orderbook_seq w1) c = get0 (orderbook_seq w) c)
        \<or> get0 (orderbook_seq w1) c = get0 (orderbook_seq w) c + 1)
   \<and> get0 (orderbook_seq w) c \<le> get0 (orderbook_seq (dispatch L C w rs)) c
   \<and> get0 (bump_seq d code) code = get0 d code + 1"
proof -
  have "last_seq < cur \<and> get0 (orderbook_seq w') code = cur \<and> orderbook w' code = Some (a, aq, b, bq)"
    if "wait_next_orderbook L C code last_seq timeout w = Ret (cur, a, aq, b, bq) w'"
  proof -
    from that obtain t0 w0 where "wno_loop L C code last_seq (t0 + timeout) w0 = Ret (cur, a, aq, b, bq) w'"
      by (auto simp: wait_next_orderbook_def bnd_def split: res.splits)
    then show ?thesis
      by (intro fresh_quote_SomeD wno_loop_fresh)
  qed
  moreover have "get0 (orderbook_seq w) c \<le> get0 (orderbook_seq (dispatch L C w rs)) c"
    by (simp add: dispatch_def recv_loop_seq_mono split: task.splits)
  ultimately show ?thesis
    using process_frame_seq_step [of L C w m w1 c] by (simp add: get0_bump_seq)
qed

text \<open>The value a coroutine returns, for evaluation on concrete scripts.\<close>

definition ret_val :: "'a res \<Rightarrow> 'a option" where
  "ret_val r = (case r of Ret x w \<Rightarrow> Some x | _ \<Rightarrow> None)"

lemma ret_val_SomeD: "ret_val r = Some x \<Longrightarrow> \<exists>w'. r = Ret x w'"
  by (cases r) (simp_all add: ret_val_def)

definition quote_1000 :: string where
  "quote_1000 = ''0|H0STASP0|001|005930^x^x^1000^x^x^x^x^x^x^x^x^x^999^x^x^x^x^x^x^x^x^x^7^x^x^x^x^x^x^x^x^x^8''"

definition quote_995 :: string where
  "quote_995 = ''0|H0STASP0|001|005930^x^x^995^x^x^x^x^x^x^x^x^x^994^x^x^x^x^x^x^x^x^x^7^x^x^x^x^x^x^x^x^x^8''"

definition live_world :: world where
  "live_world = init_world\<lparr>recv_task := Running, ws_open := True\<rparr>"

definition quote_tape :: "ev list" where
  "quote_tape = [Now 0, Now 1, Now 2, Susp [Frame (Text quote_1000)] Done, Now 3]"

text \<open>
  A run: the sequence number of 005930 is 0, the caller has seen 0, one order-book
  frame arrives during the wait, and the call returns sequence number 1 with that
  frame's snapshot.
\<close>

theorem wait_next_orderbook_fresh_witness:
  "\<exists>w'. wait_next_orderbook plain_lib prod_cfg ''005930'' 0 5000000
      (live_world\<lparr>tape := quote_tape\<rparr>) = Ret (1, 1000, 7, 999, 8) w'
     \<and> (0::int) < 1 \<and> get0 (orderbook_seq w') ''005930'' = 1
     \<and> orderbook w' ''005930'' = Some (1000, 7, 999, 8)"
proof -
  have "ret_val (wait_next_orderbook plain_lib prod_cfg ''005930'' 0 5000000
          (live_world\<lparr>tape := quote_tape\<rparr>)) = Some (1, 1000, 7, 999, 8)"
    by code_simp
  from ret_val_SomeD [OF this] obtain w' where
    r: "wait_next_orderbook plain_lib prod_cfg ''005930'' 0 5000000
          (live_world\<lparr>tape := quote_tape\<rparr>) = Ret (1, 1000, 7, 999, 8) w'"
    by (rule exE)
  from wait_next_orderbook_fresh [THEN conjunct1, rule_format, OF r]
  have c: "(0::int) < 1 \<and> get0 (orderbook_seq w') ''005930'' = 1
     \<and> orderbook w' ''005930'' = Some (1000, 7, 999, 8)" .
  show ?thesis
    by (rule exI [of _ w']) (rule conjI [OF r c])
qed


section \<open>Aggregation of the fills of one order\<close>

text \<open>
  \<open>fills_for order es\<close> are the fills of \<open>es\<close> that carry the order id \<open>order\<close>;
  \<open>queue_delta w w' es\<close> says that from \<open>w\<close> to \<open>w'\<close> exactly the fills \<open>es\<close> were put on
  queues, each on the queue of its order id, and none was taken.
\<close>

definition fills_for :: "string \<Rightarrow> ExecFill list \<Rightarrow> ExecFill list" where
  "fills_for order es = filter (\<lambda>f. order_no f = order) es"

definition sum_qty :: "ExecFill list \<Rightarrow> int" where
  "sum_qty fs = sum_list (map qty fs)"

definition sum_value :: "ExecFill list \<Rightarrow> int" where
  "sum_value fs = sum_list (map (\<lambda>f. qty f * price f) fs)"

text \<open>
  A fill as the receive loop accepts it has a positive quantity and a positive price.
  \<open>fills_positive\<close> says so of every fill waiting on a queue, and \<open>evolve w w' ds\<close>
  that from \<open>w\<close> to \<open>w'\<close> exactly the fills \<open>ds\<close> were taken from queues, and that
  \<open>fills_positive\<close>, when it holds before, holds afterwards and of \<open>ds\<close>.
\<close>

definition pos :: "ExecFill \<Rightarrow> bool" where
  "pos f = (0 < qty f \<and> 0 < price f)"

definition fills_positive :: "world \<Rightarrow> bool" where
  "fills_positive w = (\<forall>o'. list_all pos (queue_of w o'))"

definition evolve :: "world \<Rightarrow> world \<Rightarrow> ExecFill list \<Rightarrow> bool" where
  "evolve w w' ds =
     (drained w' = drained w @ ds \<and>
      (fills_positive w \<longrightarrow> fills_positive w' \<and> list_all pos ds))"

definition queue_delta :: "world \<Rightarrow> world \<Rightarrow> ExecFill list \<Rightarrow> bool" where
  "queue_delta w w' es =
     (enqueued w' = enqueued w @ es \<and> drained w' = drained w \<and>
      (\<forall>o'. queue_of w' o' = queue_of w o' @ fills_for o' es))"

lemma fills_for_simps [simp]:
  "fills_for o' [] = []"
  "fills_for o' (es @ es') = fills_for o' es @ fills_for o' es'"
  "fills_for o' [f] = (if order_no f = o' then [f] else [])"
  by (simp_all add: fills_for_def)

lemma queue_delta_refl: "queue_delta w w []"
  by (simp add: queue_delta_def)

lemma queue_delta_trans:
  "queue_delta a b es \<Longrightarrow> queue_delta b c es' \<Longrightarrow> queue_delta a c (es @ es')"
  by (simp add: queue_delta_def)

lemma queue_delta_eq:
  "fills_by_order w' = fills_by_order w \<Longrightarrow> enqueued w' = enqueued w \<Longrightarrow>
   drained w' = drained w \<Longrightarrow> queue_delta w w' []"
  by (simp add: queue_delta_def queue_of_def)

lemma queue_delta_store_key: "store_key w t i k = Inr w' \<Longrightarrow> queue_delta w w' []"
  by (rule queue_delta_eq) (auto simp: store_key_def logmsg_def split: json.splits)

lemma queue_delta_control_frame: "control_frame L w s = Inr w' \<Longrightarrow> queue_delta w w' []"
  by (auto simp: control_frame_def ebind_Inr queue_delta_refl
      dest: queue_delta_store_key split: if_splits)

lemma queue_delta_on_orderbook: "queue_delta w (on_orderbook L w data) []"
  by (rule queue_delta_eq) (simp_all add: on_orderbook_def split: sum.splits prod.splits)

lemma queue_delta_on_trade: "queue_delta w (on_trade L w data) []"
  by (rule queue_delta_eq) (simp_all add: on_trade_def split: sum.splits prod.splits)

lemma queue_delta_logmsg: "queue_delta w (logmsg l s w) []"
  by (rule queue_delta_eq) (simp_all add: logmsg_def)

lemma drained_put: "drained (put_nowait (get_order_queue w order) order f) = drained w"
  by (simp add: put_nowait_def get_order_queue_def split: option.splits)

lemma queue_delta_put:
  "order_no f = order \<Longrightarrow> queue_delta w (put_nowait (get_order_queue w order) order f) [f]"
  by (auto simp: queue_delta_def queue_of_put enqueued_put drained_put)

lemma evolve_refl: "evolve w w []"
  by (simp add: evolve_def)

lemma evolve_trans: "evolve a b ds \<Longrightarrow> evolve b c ds' \<Longrightarrow> evolve a c (ds @ ds')"
  by (auto simp: evolve_def)

lemma evolve_queue_delta: "queue_delta w w' es \<Longrightarrow> list_all pos es \<Longrightarrow> evolve w w' []"
  by (auto simp: evolve_def queue_delta_def fills_positive_def fills_for_def list_all_iff)

lemma queue_delta_exec_notify:
  "\<exists>es. length es \<le> 1 \<and> list_all pos es \<and> queue_delta w (exec_notify L w plain) es"
proof -
  let ?flds = "split_on CHR ''^'' plain"
  let ?f = "\<lparr>order_no = field_or ?flds 2 [], pdno = field_or ?flds 8 [],
              qty = safe_int L (field_or ?flds 9 ''0'') 0,
              price = safe_int L (field_or ?flds 10 ''0'') 0, raw_fields = ?flds\<rparr>"
  let ?w1 = "put_nowait (get_order_queue w (field_or ?flds 2 [])) (field_or ?flds 2 []) ?f"
  have "queue_delta w ?w1 [?f]"
    by (rule queue_delta_put) simp
  from queue_delta_trans [OF this queue_delta_logmsg]
  have 1: "queue_delta w (logmsg l s ?w1) [?f]" for l s by simp
  have "(exec_notify L w plain = logmsg INFO ''EXEC_FILL'' ?w1 \<and> pos ?f)
        \<or> exec_notify L w plain = logmsg INFO ''EXEC_NONFILL'' w"
    by (simp add: exec_notify_def Let_def pos_def)
  then show ?thesis
  proof
    assume "exec_notify L w plain = logmsg INFO ''EXEC_FILL'' ?w1 \<and> pos ?f"
    then have e: "exec_notify L w plain = logmsg INFO ''EXEC_FILL'' ?w1" and "pos ?f"
      by simp_all
    then show ?thesis
      by (intro exI [of _ "[?f]"]) (simp add: e 1)
  next
    assume e: "exec_notify L w plain = logmsg INFO ''EXEC_NONFILL'' w"
    show ?thesis
      by (rule exI [of _ "[]"]) (simp add: e queue_delta_logmsg)
  qed
qed

lemma queue_delta_nothing:
  "queue_delta w w' [] \<Longrightarrow> \<exists>es. length es \<le> n \<and> list_all pos es \<and> queue_delta w w' es"
  by (rule exI [of _ "[]"]) simp

lemma queue_delta_on_exec:
  "\<exists>es. length es \<le> 1 \<and> list_all pos es \<and> queue_delta w (on_exec L w tr_id data) es"
proof -
  have "on_exec L w tr_id data = w
        \<or> on_exec L w tr_id data = logmsg WARNING ''EXEC_NOTIFY parse/decrypt failed'' w
        \<or> (\<exists>plain. on_exec L w tr_id data = exec_notify L w plain)"
    by (auto simp: on_exec_def Let_def split: sum.splits)
  then show ?thesis
    using queue_delta_nothing [OF queue_delta_refl, of 1 w]
      queue_delta_nothing [OF queue_delta_logmsg, of 1 w] queue_delta_exec_notify [of w L]
    by metis
qed

lemma queue_delta_process_frame:
  assumes "process_frame L C w m = Inr w'"
  shows "\<exists>es. length es \<le> 1 \<and> list_all pos es \<and> queue_delta w w' es"
proof -
  have z: "queue_delta w w' [] \<Longrightarrow> ?thesis"
    by (rule queue_delta_nothing)
  from process_frame_cases [OF assms] show ?thesis
    using z queue_delta_refl [of w] queue_delta_control_frame [of L w _ w']
      queue_delta_on_orderbook [where w = w and L = L] queue_delta_on_trade [where w = w and L = L] queue_delta_on_exec [of w L]
    by metis
qed

lemma queue_delta_recv_loop:
  "\<exists>es. length es \<le> length rs \<and> list_all pos es \<and> queue_delta w (recv_loop L C w rs) es"
proof (induction rs arbitrary: w)
  case Nil
  show ?case by (rule exI [of _ "[]"]) (simp add: queue_delta_refl)
next
  case (Cons r rs)
  show ?case
  proof (cases r)
    case (RecvFails e)
    have "queue_delta w (w\<lparr>recv_task := Failed e\<rparr>) []"
      by (rule queue_delta_eq) simp_all
    then show ?thesis using RecvFails by (intro exI [of _ "[]"]) simp
  next
    case (Frame m)
    obtain w1 where w1: "process_frame L C w m = Inr w1"
      using process_frame_total by blast
    from queue_delta_process_frame [OF w1] obtain es1 where
      1: "length es1 \<le> 1" "queue_delta w w1 es1" and p1: "list_all pos es1" by blast
    from Cons.IH [of w1] obtain es2 where
      2: "length es2 \<le> length rs" "queue_delta w1 (recv_loop L C w1 rs) es2"
      and p2: "list_all pos es2" by blast
    show ?thesis
      using Frame w1 1 2 p1 p2 queue_delta_trans [OF 1(2) 2(2)]
      by (intro exI [of _ "es1 @ es2"]) simp
  qed
qed

lemma queue_delta_dispatch:
  "\<exists>es. length es \<le> length rs \<and> list_all pos es \<and> queue_delta w (dispatch L C w rs) es"
proof (cases "recv_task w = Running")
  case True
  then show ?thesis using queue_delta_recv_loop [of rs w L C] by (simp add: dispatch_def)
next
  case False
  then have "dispatch L C w rs = w" by (simp add: dispatch_def split: task.splits)
  then show ?thesis by (intro exI [of _ "[]"]) (simp add: queue_delta_refl)
qed

lemma wait_for_RetD:
  assumes "wait_for L C w = Ret u w'"
  shows "\<exists>rs. tape w = Susp rs Done # tape w' \<and> w' = dispatch L C (w\<lparr>tape := tl (tape w)\<rparr>) rs"
  using assms
  by (auto simp: wait_for_def suspend_def bnd_def tape_dispatch
      split: list.splits ev.splits reply.splits)

lemma wait_for_not_Raise: "wait_for L C w \<noteq> Raise e w'"
  by (auto simp: wait_for_def suspend_def bnd_def split: list.splits ev.splits reply.splits)

lemma queue_delta_wait_for:
  assumes "wait_for L C w = Ret u w'"
  shows "\<exists>rs es. tape w = Susp rs Done # tape w' \<and> length es \<le> length rs \<and>
           list_all pos es \<and> queue_delta w w' es"
proof -
  from wait_for_RetD [OF assms] obtain rs where
    t: "tape w = Susp rs Done # tape w'" and w': "w' = dispatch L C (w\<lparr>tape := tl (tape w)\<rparr>) rs"
    by blast
  let ?w0 = "w\<lparr>tape := tl (tape w)\<rparr>"
  from queue_delta_dispatch [of rs ?w0 L C] obtain es where
    es: "length es \<le> length rs" "queue_delta ?w0 w' es" "list_all pos es" using w' by blast
  have "queue_delta w ?w0 []" by (rule queue_delta_eq) simp_all
  from queue_delta_trans [OF this es(2)] have "queue_delta w w' es" by simp
  with t es(1,3) show ?thesis by blast
qed

lemma evolve_wait_for: "wait_for L C w = Ret u w' \<Longrightarrow> evolve w w' []"
  using queue_delta_wait_for evolve_queue_delta by blast


text \<open>What one \<open>q.get()\<close> with a timeout does to the queue and the histories.\<close>

definition got :: "string \<Rightarrow> world \<Rightarrow> world \<Rightarrow> ExecFill list \<Rightarrow> ExecFill list \<Rightarrow> bool" where
  "got order w w' es ds =
     (enqueued w' = enqueued w @ es \<and> evolve w w' ds \<and>
      queue_of w order @ fills_for order es = ds @ queue_of w' order)"

lemma got_trans:
  "got order a b es ds \<Longrightarrow> got order b c es' ds' \<Longrightarrow> got order a c (es @ es') (ds @ ds')"
proof -
  assume 1: "got order a b es ds" and 2: "got order b c es' ds'"
  have "queue_of a order @ fills_for order es @ fills_for order es' =
          (ds @ queue_of b order) @ fills_for order es'"
    using 1 by (simp add: got_def)
  also have "\<dots> = ds @ ds' @ queue_of c order"
    using 2 by (simp add: got_def)
  finally show ?thesis
    using 1 2 evolve_trans [of a b ds c ds'] by (simp add: got_def)
qed

lemma q_get_RetD:
  assumes "q_get L C order w = Ret f w'"
  shows "\<exists>rs es. tape w = Susp rs Done # tape w' \<and> length es \<le> length rs \<and> got order w w' es [f]"
proof -
  from assms obtain u w1 fs where
    1: "wait_for L C w = Ret u w1" and q: "queue_of w1 order = f # fs"
    and w': "w' = w1\<lparr>fills_by_order := (fills_by_order w1)(order \<mapsto> fs), drained := drained w1 @ [f]\<rparr>"
    by (auto simp: q_get_def bnd_def split: res.splits list.splits)
  from queue_delta_wait_for [OF 1] obtain rs es where
    2: "tape w = Susp rs Done # tape w1" "length es \<le> length rs" "queue_delta w w1 es" by blast
  have qw': "queue_of w' o' = (if o' = order then fs else queue_of w1 o')" for o'
    by (simp add: w' queue_of_def)
  have "fills_positive w' \<and> pos f" if fp: "fills_positive w1"
  proof -
    from fp have "list_all pos (queue_of w1 o')" for o' by (simp add: fills_positive_def)
    moreover from this [of order] q have "pos f" "list_all pos fs" by simp_all
    ultimately show ?thesis by (simp add: fills_positive_def qw')
  qed
  then have "evolve w1 w' [f]" by (simp add: evolve_def w')
  from evolve_trans [OF evolve_wait_for [OF 1] this] have "evolve w w' [f]" by simp
  then have "got order w w' es [f]"
    using 2(3) q by (simp add: got_def queue_delta_def w' queue_of_def)
  moreover have "tape w' = tape w1" by (simp add: w')
  ultimately show ?thesis using 2 by auto
qed

lemma q_get_RaiseD:
  assumes "q_get L C order w = Raise e w'"
  shows "e = TimeoutError [] \<and> queue_of w' order = [] \<and> (\<exists>es. got order w w' es [])"
proof -
  from assms obtain u where
    1: "wait_for L C w = Ret u w'" and q: "queue_of w' order = []" and e: "e = TimeoutError []"
    by (auto simp: q_get_def bnd_def wait_for_not_Raise split: res.splits list.splits)
  from queue_delta_wait_for [OF 1] obtain es where "queue_delta w w' es" by blast
  then have "got order w w' es []"
    using q evolve_wait_for [OF 1] by (simp add: got_def queue_delta_def)
  then show ?thesis using q e by blast
qed

lemma wof_loop_sums:
  "wof_loop L C order fq fv w = Ret (q, v) w' \<Longrightarrow>
     \<exists>es ds. got order w w' es ds \<and> queue_of w' order = [] \<and>
             q = fq + sum_qty ds \<and> v = fv + sum_value ds"
proof (induction L C order fq fv w rule: wof_loop.induct)
  case (1 L C order fq fv w)
  note p = "1.prems" [unfolded wof_loop.simps [of L C order fq fv w]]
  show ?case
  proof (cases "q_get L C order w")
    case Stuck
    then show ?thesis using p by simp
  next
    case (Raise e w1)
    from q_get_RaiseD [OF Raise] obtain es where
      "e = TimeoutError []" "queue_of w1 order = []" "got order w w1 es []" by blast
    then show ?thesis
      using p Raise by (intro exI [of _ es] exI [of _ "[]"]) (simp add: sum_qty_def sum_value_def)
  next
    case (Ret nxt w1)
    from q_get_RetD [OF Ret] obtain es1 where g1: "got order w w1 es1 [nxt]" by blast
    from p Ret have "wof_loop L C order (fq + qty nxt) (fv + qty nxt * price nxt) w1 = Ret (q, v) w'"
      by simp
    from "1.IH" [OF Ret this] obtain es2 ds2 where
      g2: "got order w1 w' es2 ds2" and e: "queue_of w' order = []"
      and s: "q = fq + qty nxt + sum_qty ds2" "v = fv + qty nxt * price nxt + sum_value ds2"
      by blast
    show ?thesis
      using got_trans [OF g1 g2] e s
      by (intro exI [of _ "es1 @ es2"] exI [of _ "nxt # ds2"]) (simp add: sum_qty_def sum_value_def)
  qed
qed

lemma wof_loop_not_Raise: "wof_loop L C order fq fv w \<noteq> Raise e w'"
proof (induction L C order fq fv w rule: wof_loop.induct)
  case (1 L C order fq fv w)
  show ?case
  proof (cases "q_get L C order w")
    case Stuck
    then show ?thesis by (simp add: wof_loop.simps [of L C order fq fv w])
  next
    case (Raise e1 w1)
    then show ?thesis
      using q_get_RaiseD [OF Raise] by (simp add: wof_loop.simps [of L C order fq fv w])
  next
    case (Ret nxt w1)
    then show ?thesis
      using "1.IH" [OF Ret] by (simp add: wof_loop.simps [of L C order fq fv w])
  qed
qed

lemma got_get_order_queue: "got order w (get_order_queue w order) [] []"
  by (auto simp: got_def evolve_def fills_positive_def get_order_queue_def queue_of_def
      split: option.splits)

lemma wait_order_fills_sums:
  assumes "wait_order_fills L C order w = Ret (q, v) w'"
  shows "\<exists>es ds. got order w w' es ds \<and> queue_of w' order = [] \<and>
             q = sum_qty ds \<and> v = sum_value ds"
proof -
  let ?w0 = "get_order_queue w order"
  note p = assms [unfolded wait_order_fills_def]
  show ?thesis
  proof (cases "q_get L C order ?w0")
    case Stuck
    then show ?thesis using p by simp
  next
    case (Raise e w1)
    from q_get_RaiseD [OF Raise] obtain es where
      1: "e = TimeoutError []" "queue_of w1 order = []" "got order ?w0 w1 es []" by blast
    from got_trans [OF got_get_order_queue 1(3)] have "got order w w1 es []" by simp
    then show ?thesis
      using p Raise 1
      by (intro exI [of _ es] exI [of _ "[]"]) (simp add: sum_qty_def sum_value_def)
  next
    case (Ret first w1)
    from q_get_RetD [OF Ret] obtain es1 where g1: "got order ?w0 w1 es1 [first]" by blast
    from got_trans [OF got_get_order_queue g1] have g1': "got order w w1 es1 [first]" by simp
    from p Ret have "wof_loop L C order (qty first) (qty first * price first) w1 = Ret (q, v) w'"
      by simp
    from wof_loop_sums [OF this] obtain es2 ds2 where
      g2: "got order w1 w' es2 ds2" and e: "queue_of w' order = []"
      and s: "q = qty first + sum_qty ds2" "v = qty first * price first + sum_value ds2"
      by blast
    show ?thesis
      using got_trans [OF g1' g2] e s
      by (intro exI [of _ "es1 @ es2"] exI [of _ "first # ds2"]) (simp add: sum_qty_def sum_value_def)
  qed
qed

lemma wait_order_fills_not_Raise: "wait_order_fills L C order w \<noteq> Raise e w'"
proof (cases "q_get L C order (get_order_queue w order)")
  case Stuck
  then show ?thesis by (simp add: wait_order_fills_def)
next
  case (Raise e1 w1)
  then show ?thesis using q_get_RaiseD [OF Raise] by (simp add: wait_order_fills_def)
next
  case (Ret first w1)
  then show ?thesis using wof_loop_not_Raise by (simp add: wait_order_fills_def)
qed

lemma wait_order_fills_no_first:
  assumes "wait_for L C (get_order_queue w order) = Ret u w1" and "queue_of w1 order = []"
  shows "wait_order_fills L C order w = Ret (0, 0) w1"
  using assms by (simp add: wait_order_fills_def q_get_def bnd_def)


lemma wait_for_Susp:
  "tape w = Susp rs Done # rest \<Longrightarrow> wait_for L C w = Ret () (dispatch L C (w\<lparr>tape := rest\<rparr>) rs)"
  by (simp add: wait_for_def suspend_def bnd_def)

lemma queue_len_dispatch:
  "length (queue_of (dispatch L C w rs) order) \<le> length (queue_of w order) + length rs"
proof -
  from queue_delta_dispatch [of rs w L C] obtain es where
    "length es \<le> length rs" "queue_delta w (dispatch L C w rs) es" by blast
  moreover have "length (fills_for order es) \<le> length es"
    by (simp add: fills_for_def)
  ultimately show ?thesis by (simp add: queue_delta_def)
qed

lemma wof_loop_returns:
  "tape w = map (\<lambda>b. Susp b Done) bs @ rest \<Longrightarrow>
   length (queue_of w order) + length (concat bs) < length bs \<Longrightarrow>
   \<exists>q v w'. wof_loop L C order fq fv w = Ret (q, v) w'"
proof (induction bs arbitrary: w fq fv)
  case Nil
  then show ?case by simp
next
  case (Cons b bs)
  let ?w0 = "w\<lparr>tape := map (\<lambda>b. Susp b Done) bs @ rest\<rparr>"
  let ?w1 = "dispatch L C ?w0 b"
  have wf: "wait_for L C w = Ret () ?w1"
    using Cons.prems(1) by (intro wait_for_Susp) simp
  have t1: "tape ?w1 = map (\<lambda>b. Susp b Done) bs @ rest"
    by (simp add: tape_dispatch)
  have "queue_of ?w0 order = queue_of w order" by (simp add: queue_of_def)
  with queue_len_dispatch [of L C ?w0 b order]
  have len: "length (queue_of ?w1 order) \<le> length (queue_of w order) + length b" by simp
  show ?case
  proof (cases "queue_of ?w1 order")
    case Nil
    then have "q_get L C order w = Raise (TimeoutError []) ?w1"
      by (simp add: q_get_def wf bnd_def)
    then show ?thesis by (simp add: wof_loop.simps [of L C order fq fv w])
  next
    case (Cons f fs)
    let ?w2 = "?w1\<lparr>fills_by_order := (fills_by_order ?w1)(order \<mapsto> fs), drained := drained ?w1 @ [f]\<rparr>"
    have g: "q_get L C order w = Ret f ?w2"
      using Cons by (simp add: q_get_def wf bnd_def)
    have "tape ?w2 = map (\<lambda>b. Susp b Done) bs @ rest" using t1 by simp
    moreover have "queue_of ?w2 order = fs" by (simp add: queue_of_def)
    moreover have "length fs + length (concat bs) < length bs"
      using len Cons Cons.prems(2) by simp
    ultimately obtain q v w' where
      "wof_loop L C order (fq + qty f) (fv + qty f * price f) ?w2 = Ret (q, v) w'"
      using Cons.IH [of ?w2 "fq + qty f" "fv + qty f * price f"] by auto
    then show ?thesis using g by (simp add: wof_loop.simps [of L C order fq fv w])
  qed
qed

lemma wait_order_fills_returns:
  assumes "tape w = map (\<lambda>b. Susp b Done) bs @ rest"
    and "length (queue_of w order) + length (concat bs) < length bs"
  shows "\<exists>q v w'. wait_order_fills L C order w = Ret (q, v) w'"
proof (cases bs)
  case Nil
  then show ?thesis using assms by simp
next
  case (Cons b bs')
  let ?wq = "get_order_queue w order"
  let ?w0 = "?wq\<lparr>tape := map (\<lambda>b. Susp b Done) bs' @ rest\<rparr>"
  let ?w1 = "dispatch L C ?w0 b"
  have tq: "tape ?wq = tape w" by (simp add: get_order_queue_def split: option.splits)
  have qq: "queue_of ?wq order = queue_of w order"
    by (simp add: get_order_queue_def queue_of_def split: option.splits)
  have wf: "wait_for L C ?wq = Ret () ?w1"
    using assms(1) Cons tq by (intro wait_for_Susp) simp
  have t1: "tape ?w1 = map (\<lambda>b. Susp b Done) bs' @ rest"
    by (simp add: tape_dispatch)
  have "queue_of ?w0 order = queue_of w order" using qq by (simp add: queue_of_def)
  with queue_len_dispatch [of L C ?w0 b order]
  have len: "length (queue_of ?w1 order) \<le> length (queue_of w order) + length b" by simp
  show ?thesis
  proof (cases "queue_of ?w1 order")
    case Nil
    then have "q_get L C order ?wq = Raise (TimeoutError []) ?w1"
      by (simp add: q_get_def wf bnd_def)
    then show ?thesis by (simp add: wait_order_fills_def)
  next
    case (Cons f fs)
    let ?w2 = "?w1\<lparr>fills_by_order := (fills_by_order ?w1)(order \<mapsto> fs), drained := drained ?w1 @ [f]\<rparr>"
    have g: "q_get L C order ?wq = Ret f ?w2"
      using Cons by (simp add: q_get_def wf bnd_def)
    have "tape ?w2 = map (\<lambda>b. Susp b Done) bs' @ rest" using t1 by simp
    moreover have "queue_of ?w2 order = fs" by (simp add: queue_of_def)
    moreover have "length fs + length (concat bs') < length bs'"
      using len Cons assms(2) \<open>bs = b # bs'\<close> by simp
    ultimately obtain q v w' where
      "wof_loop L C order (qty f) (qty f * price f) ?w2 = Ret (q, v) w'"
      using wof_loop_returns [of ?w2 bs' rest order L C "qty f" "qty f * price f"] by auto
    then show ?thesis using g by (simp add: wait_order_fills_def)
  qed
qed

text \<open>
  C3. When \<open>wait_order_fills\<close> returns \<open>(q, v)\<close>, the fills it has taken (\<open>ds\<close>) are
  the fills that were on the order's queue at the call followed by all fills put on that
  queue during the call (\<open>es\<close> are all fills enqueued meanwhile), each taken once; the
  queue is empty at the return, and \<open>q\<close> and \<open>v\<close> are the sums of quantity and of
  quantity times price over \<open>ds\<close>. When the first wait ends on an empty queue the
  result is \<open>(0, 0)\<close>. The call never raises. It returns whenever the script holds
  more suspensions than there are fills on the queue and frames to come.
\<close>

theorem wait_order_fills_aggregates:
  "(wait_order_fills L C order w = Ret (q, v) w' \<longrightarrow>
      (\<exists>es ds. enqueued w' = enqueued w @ es \<and> drained w' = drained w @ ds \<and>
               ds = queue_of w order @ fills_for order es \<and> queue_of w' order = [] \<and>
               q = sum_qty ds \<and> v = sum_value ds))
   \<and> (wait_for L C (get_order_queue w order) = Ret u w1 \<and> queue_of w1 order = [] \<longrightarrow>
        wait_order_fills L C order w = Ret (0, 0) w1)
   \<and> wait_order_fills L C order w \<noteq> Raise e w2
   \<and> (tape w = map (\<lambda>b. Susp b Done) bs @ rest \<and>
        length (queue_of w order) + length (concat bs) < length bs \<longrightarrow>
        (\<exists>q v w'. wait_order_fills L C order w = Ret (q, v) w'))"
proof (intro conjI impI)
  assume "wait_order_fills L C order w = Ret (q, v) w'"
  from wait_order_fills_sums [OF this] obtain es ds where
    "got order w w' es ds" "queue_of w' order = []" "q = sum_qty ds" "v = sum_value ds"
    by blast
  then show "\<exists>es ds. enqueued w' = enqueued w @ es \<and> drained w' = drained w @ ds \<and>
               ds = queue_of w order @ fills_for order es \<and> queue_of w' order = [] \<and>
               q = sum_qty ds \<and> v = sum_value ds"
    by (intro exI [of _ es] exI [of _ ds]) (simp add: got_def evolve_def)
next
  assume "wait_for L C (get_order_queue w order) = Ret u w1 \<and> queue_of w1 order = []"
  then show "wait_order_fills L C order w = Ret (0, 0) w1"
    using wait_order_fills_no_first by blast
next
  show "wait_order_fills L C order w \<noteq> Raise e w2"
    by (rule wait_order_fills_not_Raise)
next
  assume "tape w = map (\<lambda>b. Susp b Done) bs @ rest \<and>
        length (queue_of w order) + length (concat bs) < length bs"
  then show "\<exists>q v w'. wait_order_fills L C order w = Ret (q, v) w'"
    using wait_order_fills_returns by blast
qed

definition fill_10_1000 :: string where
  "fill_10_1000 = ''1|H0STCNI0|001|a^b^O1^c^d^e^f^g^005930^10^1000^h^N^Y^Y''"

definition fill_5_995 :: string where
  "fill_5_995 = ''1|H0STCNI0|001|a^b^O1^c^d^e^f^g^005930^5^995^h^N^Y^Y''"

definition keyed_live_world :: world where
  "keyed_live_world = keyed_world\<lparr>recv_task := Running, ws_open := True\<rparr>"

definition two_fills_tape :: "ev list" where
  "two_fills_tape =
     [Susp [Frame (Text fill_10_1000), Frame (Text fill_5_995)] Done, Susp [] Done, Susp [] Done]"

text \<open>
  A run: two fills of order O1, (10, 1000) and (5, 995), arrive during the first wait;
  the second wait takes the second fill and the third finds the queue empty.
\<close>

theorem wait_order_fills_aggregates_witness:
  "\<exists>w' es ds. wait_order_fills plain_lib prod_cfg ''O1'' (keyed_live_world\<lparr>tape := two_fills_tape\<rparr>)
        = Ret (15, 14975) w'
     \<and> enqueued w' = enqueued (keyed_live_world\<lparr>tape := two_fills_tape\<rparr>) @ es
     \<and> drained w' = drained (keyed_live_world\<lparr>tape := two_fills_tape\<rparr>) @ ds
     \<and> ds = queue_of (keyed_live_world\<lparr>tape := two_fills_tape\<rparr>) ''O1'' @ fills_for ''O1'' es
     \<and> queue_of w' ''O1'' = [] \<and> 15 = sum_qty ds \<and> 14975 = sum_value ds"
proof -
  let ?w = "keyed_live_world\<lparr>tape := two_fills_tape\<rparr>"
  have "ret_val (wait_order_fills plain_lib prod_cfg ''O1'' ?w) = Some (15, 14975)"
    by code_simp
  from ret_val_SomeD [OF this] obtain w' where
    r: "wait_order_fills plain_lib prod_cfg ''O1'' ?w = Ret (15, 14975) w'"
    by (rule exE)
  from wait_order_fills_aggregates [THEN conjunct1, rule_format, OF r]
  obtain es ds where
    c: "enqueued w' = enqueued ?w @ es \<and> drained w' = drained ?w @ ds \<and>
        ds = queue_of ?w ''O1'' @ fills_for ''O1'' es \<and> queue_of w' ''O1'' = [] \<and>
        15 = sum_qty ds \<and> 14975 = sum_value ds"
    by (elim exE)
  show ?thesis
    by (rule exI [of _ w'], rule exI [of _ es], rule exI [of _ ds]) (rule conjI [OF r c])
qed


section \<open>The IOC loops\<close>

text \<open>
  How the body of a \<open>for\<close> loop ends: with \<open>break\<close>, or by going on to the next
  round with new values of the loop's variables.
\<close>

datatype 'a ctl = Brk | Cont 'a

text \<open>\<open>int(x)\<close> on a float truncates towards zero. Floats are modelled by reals.\<close>

definition py_trunc :: "real \<Rightarrow> int" where
  "py_trunc r = (if r \<ge> 0 then \<lfloor>r\<rfloor> else \<lceil>r\<rceil>)"

text \<open>
  One round of the loop of \<open>ioc_buy_with_ws\<close>. The variables carried to the next
  round are \<open>last_seq\<close>, \<open>total_qty\<close> and \<open>total_value\<close>.
\<close>

definition buy_attempt ::
  "pylib \<Rightarrow> Config \<Rightarrow> string \<Rightarrow> int \<Rightarrow> real \<Rightarrow> int \<Rightarrow> int \<Rightarrow> int \<Rightarrow> world
     \<Rightarrow> (int \<times> int \<times> int) ctl res" where
  "buy_attempt L C code session_end cash_use_ratio last_seq total_qty total_value w =
     bnd (kst_now w) (\<lambda>t w1.
       if t \<ge> session_end then Ret Brk w1
       else
     bnd (wait_next_orderbook L C code last_seq 5000000 w1) (\<lambda>(seq, ask1, askq1, bid1, bidq1) w2.
       if ask1 \<le> 0 then Ret (Cont (seq, total_qty, total_value)) w2
       else
     bnd (inquire_psbl_cash L C code ask1 w2) (\<lambda>cash w3.
       let psbl_cash = py_trunc (real_of_int cash * cash_use_ratio);
           affordable = psbl_cash div ask1
       in if affordable \<le> 0 then Ret Brk (logmsg INFO ''No more cash to buy'' w3)
          else
     bnd (order_cash L C ''buy'' code affordable ask1 ''11'' (logmsg INFO ''[BUY]'' w3)) (\<lambda>odno w4.
     bnd (wait_order_fills L C odno w4) (\<lambda>(filled_qty, filled_value) w5.
       if filled_qty \<le> 0
       then Ret (Cont (seq, total_qty, total_value)) (logmsg WARNING ''BUY no fill'' w5)
       else Ret (Cont (seq, total_qty + filled_qty, total_value + filled_value)) w5)))))"

text \<open>
  The \<open>for\<close> loop, with \<open>k\<close> rounds left. It yields the values of \<open>total_qty\<close> and
  \<open>total_value\<close> when control leaves the loop, and the exception if control leaves it
  by one.
\<close>

fun buy_loop ::
  "pylib \<Rightarrow> Config \<Rightarrow> string \<Rightarrow> int \<Rightarrow> real \<Rightarrow> nat \<Rightarrow> int \<Rightarrow> int \<Rightarrow> int \<Rightarrow> world
     \<Rightarrow> (int \<times> int \<times> exn option) res" where
  "buy_loop L C code session_end ratio 0 last_seq total_qty total_value w =
     Ret (total_qty, total_value, None) w"
| "buy_loop L C code session_end ratio (Suc k) last_seq total_qty total_value w =
     (case buy_attempt L C code session_end ratio last_seq total_qty total_value w of
        Stuck \<Rightarrow> Stuck
      | Raise e w' \<Rightarrow> Ret (total_qty, total_value, Some e) w'
      | Ret Brk w' \<Rightarrow> Ret (total_qty, total_value, None) w'
      | Ret (Cont (seq, tq, tv)) w' \<Rightarrow> buy_loop L C code session_end ratio k seq tq tv w')"

text \<open>
  \<open>except Exception: print(traceback)\<close> followed by \<open>finally: unsubscribe\<close>, for a
  block that was left with the pending exception \<open>exc\<close>: the handler swallows an
  \<open>Exception\<close>, the unsubscription runs in every case, and what is still pending
  afterwards is raised. \<open>k\<close> is the rest of the function.
\<close>

definition except_finally ::
  "pylib \<Rightarrow> Config \<Rightarrow> string \<Rightarrow> string \<Rightarrow> exn option \<Rightarrow> world \<Rightarrow> (world \<Rightarrow> 'a res) \<Rightarrow> 'a res" where
  "except_finally L C tr_id code exc w k =
     (let pending = (case exc of None \<Rightarrow> None
                     | Some e \<Rightarrow> if is_Exception e then None else Some e);
          w1 = (case exc of None \<Rightarrow> w
                | Some e \<Rightarrow> if is_Exception e then logmsg STDOUT ''traceback'' w else w)
      in bnd (unsubscribe L C tr_id code w1) (\<lambda>u w2.
           case pending of None \<Rightarrow> k w2 | Some e \<Rightarrow> Raise e w2))"

text \<open>\<open>ioc_buy_with_ws\<close> after its loop, and the whole function.\<close>

definition buy_finish ::
  "pylib \<Rightarrow> Config \<Rightarrow> string \<Rightarrow> int \<times> int \<times> exn option \<Rightarrow> world \<Rightarrow> (int \<times> real) res" where
  "buy_finish L C code = (\<lambda>(total_qty, total_value, exc) w3.
     except_finally L C ''H0STASP0'' code exc w3 (\<lambda>w4.
       if total_qty \<le> 0 then Ret (0, 0) w4
       else Ret (total_qty, real_of_int total_value / real_of_int total_qty) w4))"

definition ioc_buy_with_ws ::
  "pylib \<Rightarrow> Config \<Rightarrow> string \<Rightarrow> int \<Rightarrow> nat \<Rightarrow> real \<Rightarrow> world \<Rightarrow> (int \<times> real) res" where
  "ioc_buy_with_ws L C code session_end max_attempts cash_use_ratio w =
     bnd (get_approval_key L C w) (\<lambda>approval_key w1.
     bnd (subscribe L C ''H0STASP0'' code w1) (\<lambda>u w2.
     bnd (buy_loop L C code session_end cash_use_ratio max_attempts
            (get0 (orderbook_seq w2) code) 0 0 w2)
       (buy_finish L C code)))"

text \<open>
  One round of the loop of \<open>ioc_sell_with_ws\<close>; the variables carried on are
  \<open>last_seq\<close>, \<open>remain\<close>, \<open>sold_qty\<close> and \<open>sold_value\<close>.
\<close>

definition sell_attempt ::
  "pylib \<Rightarrow> Config \<Rightarrow> string \<Rightarrow> int \<Rightarrow> int \<Rightarrow> int \<Rightarrow> int \<Rightarrow> world
     \<Rightarrow> (int \<times> int \<times> int \<times> int) ctl res" where
  "sell_attempt L C code last_seq remain sold_qty sold_value w =
     (if remain \<le> 0 then Ret Brk w
      else
     bnd (wait_next_orderbook L C code last_seq 5000000 w) (\<lambda>(seq, ask1, askq1, bid1, bidq1) w2.
       if bid1 \<le> 0 then Ret (Cont (seq, remain, sold_qty, sold_value)) w2
       else
     bnd (order_cash L C ''sell'' code remain bid1 ''11'' (logmsg INFO ''[SELL]'' w2)) (\<lambda>odno w4.
     bnd (wait_order_fills L C odno w4) (\<lambda>(filled_qty, filled_value) w5.
       if filled_qty \<le> 0
       then Ret (Cont (seq, remain, sold_qty, sold_value)) (logmsg WARNING ''SELL no fill'' w5)
       else Ret (Cont (seq, remain - filled_qty, sold_qty + filled_qty,
                       sold_value + filled_value)) w5))))"

fun sell_loop ::
  "pylib \<Rightarrow> Config \<Rightarrow> string \<Rightarrow> nat \<Rightarrow> int \<Rightarrow> int \<Rightarrow> int \<Rightarrow> int \<Rightarrow> world
     \<Rightarrow> (int \<times> int \<times> exn option) res" where
  "sell_loop L C code 0 last_seq remain sold_qty sold_value w =
     Ret (sold_qty, sold_value, None) w"
| "sell_loop L C code (Suc k) last_seq remain sold_qty sold_value w =
     (case sell_attempt L C code last_seq remain sold_qty sold_value w of
        Stuck \<Rightarrow> Stuck
      | Raise e w' \<Rightarrow> Ret (sold_qty, sold_value, Some e) w'
      | Ret Brk w' \<Rightarrow> Ret (sold_qty, sold_value, None) w'
      | Ret (Cont (seq, rm, sq, sv)) w' \<Rightarrow> sell_loop L C code k seq rm sq sv w')"

text \<open>
  \<open>ioc_sell_with_ws\<close> after its loop, and the whole function. Its parameter
  \<open>session_end\<close> is left out: the source never reads it.
\<close>

definition sell_finish ::
  "pylib \<Rightarrow> Config \<Rightarrow> string \<Rightarrow> int \<times> int \<times> exn option \<Rightarrow> world \<Rightarrow> (int \<times> int) res" where
  "sell_finish L C code = (\<lambda>(sold_qty, sold_value, exc) w3.
     except_finally L C ''H0STASP0'' code exc w3 (\<lambda>w4. Ret (sold_qty, sold_value) w4))"

definition ioc_sell_with_ws ::
  "pylib \<Rightarrow> Config \<Rightarrow> string \<Rightarrow> int \<Rightarrow> nat \<Rightarrow> world \<Rightarrow> (int \<times> int) res" where
  "ioc_sell_with_ws L C code qty_to_sell max_attempts w =
     bnd (get_approval_key L C w) (\<lambda>approval_key w1.
     bnd (subscribe L C ''H0STASP0'' code w1) (\<lambda>u w2.
     bnd (sell_loop L C code max_attempts (get0 (orderbook_seq w2) code) qty_to_sell 0 0 w2)
       (sell_finish L C code)))"

text \<open>
  Binary floats (IEEE 754 binary64). A finite float is modelled by its value, a real.
  \<open>float_round x\<close> is the float nearest to the real \<open>x\<close>, ties going to the even
  significand, and \<open>None\<close> where that is an infinity: with \<open>e = binade \<bar>x\<bar>\<close>, the
  exponent of the power of two at or below \<open>\<bar>x\<bar>\<close>, the floats around \<open>x\<close> are the
  multiples of \<open>2 ^ (e - 52)\<close>, and of \<open>2 ^ (- 1074)\<close> below the normal range; a
  result of \<open>2 ^ 1024\<close> or more overflows. The product of two floats is the rounded
  product of their values.
\<close>

function bits :: "int \<Rightarrow> nat" where
  "bits n = (if n \<le> 0 then 0 else Suc (bits (n div 2)))"
  by pat_completeness auto
termination
  by (relation "measure nat") auto

definition binade :: "real \<Rightarrow> int" where
  "binade x = (if 1 \<le> x then int (bits \<lfloor>x\<rfloor>) - 1 else - int (bits (\<lceil>1 / x\<rceil> - 1)))"

definition pow2 :: "int \<Rightarrow> real" where
  "pow2 e = (if 0 \<le> e then 2 ^ nat e else 1 / 2 ^ nat (- e))"

definition round_half_even :: "real \<Rightarrow> int" where
  "round_half_even x =
     (let f = \<lfloor>x\<rfloor>; d = x - real_of_int f
      in if d < 1 / 2 then f else if 1 / 2 < d then f + 1 else if even f then f else f + 1)"

definition float_round :: "real \<Rightarrow> real option" where
  "float_round x =
     (if x = 0 then Some 0
      else
        (let a = \<bar>x\<bar>;
             q = pow2 (max (binade a) (- 1022) - 52);
             r = real_of_int (round_half_even (a / q)) * q
         in if 1024 \<le> binade r then None else Some (if x < 0 then - r else r)))"

text \<open>
  \<open>math.ceil(avg_buy * 1.01)\<close>. The literal \<open>1.01\<close> is the float nearest to 101/100.
  The argument \<open>avg_buy\<close> is a float: a real that is none is read as the float nearest
  to it, which is what the division at the end of \<open>ioc_buy_with_ws\<close> yields in the
  source. \<open>math.ceil\<close> is exact on a finite float and raises OverflowError on an
  infinity.
\<close>

definition float_1_01 :: real where
  "float_1_01 = 4548635623644201 / 4503599627370496"

definition target_price :: "real \<Rightarrow> exn + int" where
  "target_price avg_buy =
     (case float_round avg_buy of
        None \<Rightarrow> Inl OverflowError
      | Some a \<Rightarrow>
          (case float_round (a * float_1_01) of
             None \<Rightarrow> Inl OverflowError
           | Some x \<Rightarrow> Inr \<lceil>x\<rceil>))"

text \<open>
  \<open>wait_for_1pct_then_sell\<close>. The target is computed after the subscription and
  outside the \<open>try\<close>. The inner \<open>try\<close> turns the outcome of the wait into the flag
  \<open>target_hit\<close> and the exception still pending after \<open>except asyncio.TimeoutError\<close>.
\<close>

definition target_wait ::
  "pylib \<Rightarrow> Config \<Rightarrow> string \<Rightarrow> int \<Rightarrow> int \<Rightarrow> world \<Rightarrow> (bool \<times> exn option) res" where
  "target_wait L C code target session_end w =
     (case wait_trade_reach L C code target session_end w of
        Stuck \<Rightarrow> Stuck
      | Ret last_price w' \<Rightarrow> Ret (True, None) (logmsg INFO ''Reached target'' w')
      | Raise e w' \<Rightarrow>
          if is_TimeoutError e
          then Ret (False, None) (logmsg WARNING ''Session end reached before target'' w')
          else Ret (False, Some e) w')"

definition wait_for_1pct_then_sell ::
  "pylib \<Rightarrow> Config \<Rightarrow> string \<Rightarrow> int \<Rightarrow> real \<Rightarrow> int \<Rightarrow> world \<Rightarrow> (int \<times> int \<times> bool) res" where
  "wait_for_1pct_then_sell L C code buy_qty avg_buy session_end w =
     bnd (get_approval_key L C w) (\<lambda>approval_key w1.
     bnd (subscribe L C ''H0STCNT0'' code w1) (\<lambda>u w2.
       case target_price avg_buy of
         Inl e \<Rightarrow> Raise e w2
       | Inr target \<Rightarrow>
     bnd (target_wait L C code target session_end
            (logmsg INFO ''Target(+1%)'' w2)) (\<lambda>(target_hit, exc) w3.
     except_finally L C ''H0STCNT0'' code exc w3 (\<lambda>w4.
     bnd (ioc_sell_with_ws L C code buy_qty 30 w4) (\<lambda>(sold_qty, sold_value) w5.
       Ret (sold_qty, sold_value, target_hit) w5)))))"



subsection \<open>What the waits leave of the record of calls\<close>

lemma sent_recv_loop: "sent (recv_loop L C w rs) = sent w"
proof (induction rs arbitrary: w)
  case Nil
  then show ?case by simp
next
  case (Cons r rs)
  show ?case
  proof (cases r)
    case (Frame m)
    obtain w' where w': "process_frame L C w m = Inr w'"
      using process_frame_total by blast
    have "sent w' = sent w"
      using same_outside_process_frame [OF w'] by (simp add: same_outside_def)
    then show ?thesis using Frame w' Cons.IH [of w'] by simp
  next
    case (RecvFails e)
    then show ?thesis by simp
  qed
qed

lemma sent_dispatch: "sent (dispatch L C w rs) = sent w"
  by (simp add: dispatch_def sent_recv_loop split: task.splits)

lemma ws_open_recv_loop: "ws_open (recv_loop L C w rs) = ws_open w"
proof (induction rs arbitrary: w)
  case Nil
  then show ?case by simp
next
  case (Cons r rs)
  show ?case
  proof (cases r)
    case (Frame m)
    obtain w' where w': "process_frame L C w m = Inr w'"
      using process_frame_total by blast
    have "ws_open w' = ws_open w"
      using same_outside_process_frame [OF w'] by (simp add: same_outside_def)
    then show ?thesis using Frame w' Cons.IH [of w'] by simp
  next
    case (RecvFails e)
    then show ?thesis by simp
  qed
qed

lemma ws_open_dispatch: "ws_open (dispatch L C w rs) = ws_open w"
  by (simp add: dispatch_def ws_open_recv_loop split: task.splits)

lemma kst_now_RetD: "kst_now w = Ret t w' \<Longrightarrow> w' = w\<lparr>tape := tl (tape w)\<rparr>"
  by (auto simp: kst_now_def split: list.splits ev.splits)

lemma kst_now_not_Raise: "kst_now w \<noteq> Raise e w'"
  by (auto simp: kst_now_def split: list.splits ev.splits)

lemma wait_for_sent: "wait_for L C w = Ret u w' \<Longrightarrow> sent w' = sent w \<and> ws_open w' = ws_open w"
  by (auto dest!: wait_for_RetD simp: sent_dispatch ws_open_dispatch)

lemma wno_loop_sent:
  "wno_loop L C code last_seq end_t w = Ret q w' \<or> wno_loop L C code last_seq end_t w = Raise e w'
     \<Longrightarrow> sent w' = sent w \<and> ws_open w' = ws_open w"
proof (induction L C code last_seq end_t w rule: wno_loop.induct)
  case (1 L C code last_seq end_t w)
  note p = "1.prems" [unfolded wno_loop.simps [of L C code last_seq end_t w]]
  show ?case
  proof (cases "kst_now w")
    case Stuck
    then show ?thesis using p by simp
  next
    case (Raise e1 w1)
    then show ?thesis using kst_now_not_Raise by blast
  next
    case (Ret t w1)
    note k1 = this
    have s1: "sent w1 = sent w" "ws_open w1 = ws_open w"
      using kst_now_RetD [OF k1] by simp_all
    show ?thesis
    proof (cases "t < end_t")
      case False
      then show ?thesis using p k1 s1 by simp
    next
      case True
      note lt = this
      show ?thesis
      proof (cases "fresh_quote w1 code last_seq")
        case (Some q')
        then show ?thesis using p k1 s1 lt by simp
      next
        case None
        note fq = this
        let ?w2 = "w1\<lparr>orderbook_event := event_clear (orderbook_event w1) code\<rparr>"
        show ?thesis
        proof (cases "kst_now ?w2")
          case Stuck
          then show ?thesis using p k1 lt fq by simp
        next
          case (Raise e3 w3)
          then show ?thesis using kst_now_not_Raise by blast
        next
          case (Ret t' w3)
          note k3 = this
          have s3: "sent w3 = sent w" "ws_open w3 = ws_open w"
            using kst_now_RetD [OF k3] s1 by simp_all
          show ?thesis
          proof (cases "wait_for L C w3")
            case Stuck
            then show ?thesis using p k1 lt fq k3 by simp
          next
            case (Raise e4 w4)
            then show ?thesis using wait_for_not_Raise by blast
          next
            case (Ret u w4)
            note k4 = this
            have s4: "sent w4 = sent w" "ws_open w4 = ws_open w"
              using wait_for_sent [OF k4] s3 by simp_all
            show ?thesis
            proof (cases "is_set (orderbook_event w4) code")
              case True
              then have "wno_loop L C code last_seq end_t w4 = Ret q w'
                         \<or> wno_loop L C code last_seq end_t w4 = Raise e w'"
                using p k1 lt fq k3 k4 by simp
              from "1.IH" [OF k1 _ fq k3 k4 True this] lt s4 show ?thesis by simp
            next
              case False
              then show ?thesis using p k1 lt fq k3 k4 s4 by simp
            qed
          qed
        qed
      qed
    qed
  qed
qed

lemma wno_loop_RaiseD:
  "wno_loop L C code last_seq end_t w = Raise e w' \<Longrightarrow> e = TimeoutError ''orderbook timeout''"
proof (induction L C code last_seq end_t w rule: wno_loop.induct)
  case (1 L C code last_seq end_t w)
  note p = "1.prems" [unfolded wno_loop.simps [of L C code last_seq end_t w]]
  show ?case
  proof (cases "kst_now w")
    case Stuck
    then show ?thesis using p by simp
  next
    case (Raise e1 w1)
    then show ?thesis using kst_now_not_Raise by blast
  next
    case (Ret t w1)
    note k1 = this
    show ?thesis
    proof (cases "t < end_t")
      case False
      then show ?thesis using p k1 by simp
    next
      case True
      note lt = this
      show ?thesis
      proof (cases "fresh_quote w1 code last_seq")
        case (Some q')
        then show ?thesis using p k1 lt by simp
      next
        case None
        note fq = this
        let ?w2 = "w1\<lparr>orderbook_event := event_clear (orderbook_event w1) code\<rparr>"
        show ?thesis
        proof (cases "kst_now ?w2")
          case Stuck
          then show ?thesis using p k1 lt fq by simp
        next
          case (Raise e3 w3)
          then show ?thesis using kst_now_not_Raise by blast
        next
          case (Ret t' w3)
          note k3 = this
          show ?thesis
          proof (cases "wait_for L C w3")
            case Stuck
            then show ?thesis using p k1 lt fq k3 by simp
          next
            case (Raise e4 w4)
            then show ?thesis using wait_for_not_Raise by blast
          next
            case (Ret u w4)
            note k4 = this
            show ?thesis
            proof (cases "is_set (orderbook_event w4) code")
              case True
              then have "wno_loop L C code last_seq end_t w4 = Raise e w'"
                using p k1 lt fq k3 k4 by simp
              from "1.IH" [OF k1 _ fq k3 k4 True this] lt show ?thesis by simp
            next
              case False
              then show ?thesis using p k1 lt fq k3 k4 by simp
            qed
          qed
        qed
      qed
    qed
  qed
qed

lemma bnd_RetD: "bnd r f = Ret y w' \<Longrightarrow> \<exists>x w1. r = Ret x w1 \<and> f x w1 = Ret y w'"
  by (cases r) (simp_all add: bnd_def)

lemma bnd_RaiseD:
  "bnd r f = Raise e w' \<Longrightarrow> r = Raise e w' \<or> (\<exists>x w1. r = Ret x w1 \<and> f x w1 = Raise e w')"
  by (cases r) (simp_all add: bnd_def)

lemma wait_next_orderbook_sent:
  assumes "wait_next_orderbook L C code last_seq timeout w = Ret q w'
           \<or> wait_next_orderbook L C code last_seq timeout w = Raise e w'"
  shows "sent w' = sent w \<and> ws_open w' = ws_open w"
proof -
  let ?w0 = "w\<lparr>orderbook_event := ensure_event (orderbook_event w) code\<rparr>"
  from assms obtain t0 w1 where k: "kst_now ?w0 = Ret t0 w1"
    and l: "wno_loop L C code last_seq (t0 + timeout) w1 = Ret q w'
            \<or> wno_loop L C code last_seq (t0 + timeout) w1 = Raise e w'"
    unfolding wait_next_orderbook_def
    using kst_now_not_Raise by (cases "kst_now ?w0") (auto simp: bnd_def)
  from kst_now_RetD [OF k] have "sent w1 = sent w" "ws_open w1 = ws_open w" by simp_all
  with wno_loop_sent [OF l] show ?thesis by simp
qed

lemma wait_next_orderbook_RaiseD:
  assumes "wait_next_orderbook L C code last_seq timeout w = Raise e w'"
  shows "e = TimeoutError ''orderbook timeout''"
proof -
  let ?w0 = "w\<lparr>orderbook_event := ensure_event (orderbook_event w) code\<rparr>"
  from assms obtain t0 w1 where "wno_loop L C code last_seq (t0 + timeout) w1 = Raise e w'"
    unfolding wait_next_orderbook_def
    using kst_now_not_Raise by (cases "kst_now ?w0") (auto simp: bnd_def)
  then show ?thesis by (rule wno_loop_RaiseD)
qed

lemma unsubscribe_RetD:
  "unsubscribe L C tr_id code w = Ret u w' \<Longrightarrow> sent w' = sent w @ [Unsubscribe tr_id code]"
  by (auto simp: unsubscribe_def call_def suspend_def bnd_def sent_dispatch logmsg_def
      split: if_splits list.splits ev.splits reply.splits)

text \<open>
  C10 (amended). In a round of the buy loop that is not ended by the clock, and in a
  round of the sell loop with something left to sell, when \<open>wait_next_orderbook\<close>
  raises, the exception is the order-book timeout and the loop ends in that round,
  however many rounds are left, with what was accumulated before the round and with
  nothing sent. Then the function unsubscribes. When the unsubscription goes through,
  the function returns what was accumulated (for the buy loop the quantity and the
  average price, for the sell loop the quantity and the notional), and nothing was sent
  from the start of the round on but the unsubscription. When the unsubscription raises,
  the function raises that exception, and what was accumulated is not returned.
\<close>

theorem orderbook_timeout_ends_loop:
  "(kst_now w = Ret t w1 \<and> t < session_end \<and>
    wait_next_orderbook L C code last_seq 5000000 w1 = Raise e w2 \<longrightarrow>
      e = TimeoutError ''orderbook timeout'' \<and>
      buy_loop L C code session_end ratio (Suc k) last_seq total_qty total_value w
        = Ret (total_qty, total_value, Some e) w2 \<and>
      sent w2 = sent w)
   \<and> (kst_now w = Ret t w1 \<and> t < session_end \<and>
    wait_next_orderbook L C code last_seq 5000000 w1 = Raise e w2 \<and>
    unsubscribe L C ''H0STASP0'' code (logmsg STDOUT ''traceback'' w2) = Ret u w3 \<longrightarrow>
      bnd (buy_loop L C code session_end ratio (Suc k) last_seq total_qty total_value w)
          (buy_finish L C code)
        = Ret (if total_qty \<le> 0 then (0, 0)
               else (total_qty, real_of_int total_value / real_of_int total_qty)) w3
      \<and> sent w3 = sent w @ [Unsubscribe ''H0STASP0'' code])
   \<and> (kst_now w = Ret t w1 \<and> t < session_end \<and>
    wait_next_orderbook L C code last_seq 5000000 w1 = Raise e w2 \<and>
    unsubscribe L C ''H0STASP0'' code (logmsg STDOUT ''traceback'' w2) = Raise e' w3 \<longrightarrow>
      bnd (buy_loop L C code session_end ratio (Suc k) last_seq total_qty total_value w)
          (buy_finish L C code)
        = Raise e' w3)
   \<and> (0 < remain \<and>
       wait_next_orderbook L C code last_seq 5000000 w = Raise e w2 \<longrightarrow>
      e = TimeoutError ''orderbook timeout'' \<and>
      sell_loop L C code (Suc k) last_seq remain sold_qty sold_value w
        = Ret (sold_qty, sold_value, Some e) w2 \<and>
      sent w2 = sent w)
   \<and> (0 < remain \<and>
       wait_next_orderbook L C code last_seq 5000000 w = Raise e w2 \<and>
       unsubscribe L C ''H0STASP0'' code (logmsg STDOUT ''traceback'' w2) = Ret u w3 \<longrightarrow>
      bnd (sell_loop L C code (Suc k) last_seq remain sold_qty sold_value w)
          (sell_finish L C code)
        = Ret (sold_qty, sold_value) w3
      \<and> sent w3 = sent w @ [Unsubscribe ''H0STASP0'' code])
   \<and> (0 < remain \<and>
       wait_next_orderbook L C code last_seq 5000000 w = Raise e w2 \<and>
       unsubscribe L C ''H0STASP0'' code (logmsg STDOUT ''traceback'' w2) = Raise e' w3 \<longrightarrow>
      bnd (sell_loop L C code (Suc k) last_seq remain sold_qty sold_value w)
          (sell_finish L C code)
        = Raise e' w3)"
proof -
  have buy: "e = TimeoutError ''orderbook timeout'' \<and>
      buy_loop L C code session_end ratio (Suc k) last_seq total_qty total_value w
        = Ret (total_qty, total_value, Some e) w2 \<and>
      sent w2 = sent w"
    if a: "kst_now w = Ret t w1" "t < session_end"
      "wait_next_orderbook L C code last_seq 5000000 w1 = Raise e w2"
  proof -
    have e: "e = TimeoutError ''orderbook timeout''"
      using a(3) by (rule wait_next_orderbook_RaiseD)
    have "buy_attempt L C code session_end ratio last_seq total_qty total_value w = Raise e w2"
      using a by (simp add: buy_attempt_def bnd_def)
    then have l: "buy_loop L C code session_end ratio (Suc k) last_seq total_qty total_value w
               = Ret (total_qty, total_value, Some e) w2"
      by simp
    have "sent w2 = sent w1"
      using wait_next_orderbook_sent [of L C code last_seq 5000000 w1 _ w2 e] a(3) by simp
    moreover have "sent w1 = sent w" using kst_now_RetD [OF a(1)] by simp
    ultimately show ?thesis using e l by simp
  qed
  have sell: "e = TimeoutError ''orderbook timeout'' \<and>
      sell_loop L C code (Suc k) last_seq remain sold_qty sold_value w
        = Ret (sold_qty, sold_value, Some e) w2 \<and>
      sent w2 = sent w"
    if a: "0 < remain" "wait_next_orderbook L C code last_seq 5000000 w = Raise e w2"
  proof -
    have e: "e = TimeoutError ''orderbook timeout''"
      using a(2) by (rule wait_next_orderbook_RaiseD)
    have "sell_attempt L C code last_seq remain sold_qty sold_value w = Raise e w2"
      using a by (simp add: sell_attempt_def bnd_def)
    then have l: "sell_loop L C code (Suc k) last_seq remain sold_qty sold_value w
               = Ret (sold_qty, sold_value, Some e) w2"
      by simp
    have "sent w2 = sent w"
      using wait_next_orderbook_sent [of L C code last_seq 5000000 w _ w2 e] a(2) by simp
    then show ?thesis using e l by simp
  qed
  show ?thesis
  proof (intro conjI impI)
    assume a: "kst_now w = Ret t w1 \<and> t < session_end \<and>
      wait_next_orderbook L C code last_seq 5000000 w1 = Raise e w2"
    from buy a
    show "e = TimeoutError ''orderbook timeout''"
      and "buy_loop L C code session_end ratio (Suc k) last_seq total_qty total_value w
        = Ret (total_qty, total_value, Some e) w2"
      and "sent w2 = sent w"
      by simp_all
  next
    assume a: "kst_now w = Ret t w1 \<and> t < session_end \<and>
      wait_next_orderbook L C code last_seq 5000000 w1 = Raise e w2 \<and>
      unsubscribe L C ''H0STASP0'' code (logmsg STDOUT ''traceback'' w2) = Ret u w3"
    from buy a
    have b: "e = TimeoutError ''orderbook timeout''"
      "buy_loop L C code session_end ratio (Suc k) last_seq total_qty total_value w
        = Ret (total_qty, total_value, Some e) w2"
      "sent w2 = sent w"
      by simp_all
    show "bnd (buy_loop L C code session_end ratio (Suc k) last_seq total_qty total_value w)
          (buy_finish L C code)
        = Ret (if total_qty \<le> 0 then (0, 0)
               else (total_qty, real_of_int total_value / real_of_int total_qty)) w3"
      using a b(1) by (simp only: b(2)) (simp add: bnd_def buy_finish_def except_finally_def)
    have "sent w3 = sent (logmsg STDOUT ''traceback'' w2) @ [Unsubscribe ''H0STASP0'' code]"
      using a unsubscribe_RetD by blast
    then show "sent w3 = sent w @ [Unsubscribe ''H0STASP0'' code]"
      using b(3) by (simp add: logmsg_def)
  next
    assume a: "kst_now w = Ret t w1 \<and> t < session_end \<and>
      wait_next_orderbook L C code last_seq 5000000 w1 = Raise e w2 \<and>
      unsubscribe L C ''H0STASP0'' code (logmsg STDOUT ''traceback'' w2) = Raise e' w3"
    from buy a
    have b: "e = TimeoutError ''orderbook timeout''"
      "buy_loop L C code session_end ratio (Suc k) last_seq total_qty total_value w
        = Ret (total_qty, total_value, Some e) w2"
      by simp_all
    show "bnd (buy_loop L C code session_end ratio (Suc k) last_seq total_qty total_value w)
          (buy_finish L C code) = Raise e' w3"
      using a b(1) by (simp only: b(2)) (simp add: bnd_def buy_finish_def except_finally_def)
  next
    assume a: "0 < remain \<and> wait_next_orderbook L C code last_seq 5000000 w = Raise e w2"
    from sell a
    show "e = TimeoutError ''orderbook timeout''"
      and "sell_loop L C code (Suc k) last_seq remain sold_qty sold_value w
        = Ret (sold_qty, sold_value, Some e) w2"
      and "sent w2 = sent w"
      by simp_all
  next
    assume a: "0 < remain \<and>
       wait_next_orderbook L C code last_seq 5000000 w = Raise e w2 \<and>
       unsubscribe L C ''H0STASP0'' code (logmsg STDOUT ''traceback'' w2) = Ret u w3"
    from sell a
    have b: "e = TimeoutError ''orderbook timeout''"
      "sell_loop L C code (Suc k) last_seq remain sold_qty sold_value w
        = Ret (sold_qty, sold_value, Some e) w2"
      "sent w2 = sent w"
      by simp_all
    show "bnd (sell_loop L C code (Suc k) last_seq remain sold_qty sold_value w)
          (sell_finish L C code) = Ret (sold_qty, sold_value) w3"
      using a b(1) by (simp only: b(2)) (simp add: bnd_def sell_finish_def except_finally_def)
    have "sent w3 = sent (logmsg STDOUT ''traceback'' w2) @ [Unsubscribe ''H0STASP0'' code]"
      using a unsubscribe_RetD by blast
    then show "sent w3 = sent w @ [Unsubscribe ''H0STASP0'' code]"
      using b(3) by (simp add: logmsg_def)
  next
    assume a: "0 < remain \<and>
       wait_next_orderbook L C code last_seq 5000000 w = Raise e w2 \<and>
       unsubscribe L C ''H0STASP0'' code (logmsg STDOUT ''traceback'' w2) = Raise e' w3"
    from sell a
    have b: "e = TimeoutError ''orderbook timeout''"
      "sell_loop L C code (Suc k) last_seq remain sold_qty sold_value w
        = Ret (sold_qty, sold_value, Some e) w2"
      by simp_all
    show "bnd (sell_loop L C code (Suc k) last_seq remain sold_qty sold_value w)
          (sell_finish L C code) = Raise e' w3"
      using a b(1) by (simp only: b(2)) (simp add: bnd_def sell_finish_def except_finally_def)
  qed
qed


text \<open>The exception and the final state of an outcome, for evaluation.\<close>

definition raise_val :: "'a res \<Rightarrow> exn option" where
  "raise_val r = (case r of Raise e w \<Rightarrow> Some e | _ \<Rightarrow> None)"

definition res_world :: "'a res \<Rightarrow> world \<Rightarrow> world" where
  "res_world r d = (case r of Stuck \<Rightarrow> d | Raise e w \<Rightarrow> w | Ret x w \<Rightarrow> w)"

lemma ret_val_res_world: "ret_val r = Some x \<Longrightarrow> r = Ret x (res_world r d)"
  by (cases r) (simp_all add: ret_val_def res_world_def)

lemma raise_val_res_world: "raise_val r = Some e \<Longrightarrow> r = Raise e (res_world r d)"
  by (cases r) (simp_all add: raise_val_def res_world_def)

definition quiet_tape :: "ev list" where
  "quiet_tape = [Now 11, Now 12, Now 13, Susp [] Done, Susp [] Done]"

definition buy_timeout_world :: world where
  "buy_timeout_world = live_world\<lparr>tape := Now 10 # quiet_tape\<rparr>"

definition sell_timeout_world :: world where
  "sell_timeout_world = live_world\<lparr>tape := quiet_tape\<rparr>"

text \<open>
  The same with a lost connection: \<open>recv()\<close> fails during the order-book wait and the
  send of the unsubscription raises.
\<close>

definition lost_tape :: "ev list" where
  "lost_tape = [Now 11, Now 12, Now 13, Susp [RecvFails ConnectionClosed] Done,
                Susp [] (Fails ConnectionClosed)]"

definition buy_lost_world :: world where
  "buy_lost_world = live_world\<lparr>tape := Now 10 # lost_tape\<rparr>"

definition sell_lost_world :: world where
  "sell_lost_world = live_world\<lparr>tape := lost_tape\<rparr>"

text \<open>
  Four runs in which no order book arrives during the wait: the buy loop with 20 rounds
  left and 10 shares bought for 10000 so far, the sell loop with 30 rounds left, 7
  shares to sell and 3 sold for 3000 so far, each once with an unsubscription that goes
  through and once with one that raises.
\<close>

theorem orderbook_timeout_ends_loop_witness:
  "ret_val (bnd (buy_loop plain_lib prod_cfg ''005930'' 1000 (98 / 100) (Suc 19) 0 10 10000
                   buy_timeout_world)
                (buy_finish plain_lib prod_cfg ''005930'')) = Some (10, 1000)
   \<and> ret_val (bnd (sell_loop plain_lib prod_cfg ''005930'' (Suc 29) 0 7 3 3000
                      sell_timeout_world)
                   (sell_finish plain_lib prod_cfg ''005930'')) = Some (3, 3000)
   \<and> raise_val (bnd (buy_loop plain_lib prod_cfg ''005930'' 1000 (98 / 100) (Suc 19) 0 10 10000
                   buy_lost_world)
                (buy_finish plain_lib prod_cfg ''005930'')) = Some ConnectionClosed
   \<and> raise_val (bnd (sell_loop plain_lib prod_cfg ''005930'' (Suc 29) 0 7 3 3000
                      sell_lost_world)
                   (sell_finish plain_lib prod_cfg ''005930'')) = Some ConnectionClosed
   \<and> ret_val (sell_loop plain_lib prod_cfg ''005930'' (Suc 29) 0 7 3 3000 sell_lost_world)
       = Some (3, 3000, Some (TimeoutError ''orderbook timeout''))"
proof (intro conjI)
  let ?e = "TimeoutError ''orderbook timeout''"
  let ?r2 = "wait_next_orderbook plain_lib prod_cfg ''005930'' 0 5000000 sell_timeout_world"
  let ?w2 = "res_world ?r2 sell_timeout_world"
  let ?r3 = "unsubscribe plain_lib prod_cfg ''H0STASP0'' ''005930'' (logmsg STDOUT ''traceback'' ?w2)"
  let ?w3 = "res_world ?r3 sell_timeout_world"
  let ?q2 = "wait_next_orderbook plain_lib prod_cfg ''005930'' 0 5000000 sell_lost_world"
  let ?v2 = "res_world ?q2 sell_lost_world"
  let ?q3 = "unsubscribe plain_lib prod_cfg ''H0STASP0'' ''005930'' (logmsg STDOUT ''traceback'' ?v2)"
  let ?v3 = "res_world ?q3 sell_lost_world"
  have k: "kst_now buy_timeout_world = Ret 10 sell_timeout_world"
    by (simp add: kst_now_def buy_timeout_world_def sell_timeout_world_def)
  have k': "kst_now buy_lost_world = Ret 10 sell_lost_world"
    by (simp add: kst_now_def buy_lost_world_def sell_lost_world_def)
  have "raise_val ?r2 = Some ?e" by code_simp
  from raise_val_res_world [OF this] have r2: "?r2 = Raise ?e ?w2" .
  have "ret_val ?r3 = Some ()" by code_simp
  from ret_val_res_world [OF this] have r3: "?r3 = Ret () ?w3" .
  have "raise_val ?q2 = Some ?e" by code_simp
  from raise_val_res_world [OF this] have q2: "?q2 = Raise ?e ?v2" .
  have "raise_val ?q3 = Some ConnectionClosed" by code_simp
  from raise_val_res_world [OF this] have q3: "?q3 = Raise ConnectionClosed ?v3" .
  have lt: "(10::int) < 1000" by simp
  have pos: "(0::int) < 7" by simp
  note main = orderbook_timeout_ends_loop
  from main [THEN conjunct2, THEN conjunct1, rule_format,
      OF conjI [OF k conjI [OF lt conjI [OF r2 r3]]], of "98 / 100" 19 10 10000]
  show "ret_val (bnd (buy_loop plain_lib prod_cfg ''005930'' 1000 (98 / 100) (Suc 19) 0 10 10000
                   buy_timeout_world)
                (buy_finish plain_lib prod_cfg ''005930'')) = Some (10, 1000)"
    by (simp add: ret_val_def)
  from main [THEN conjunct2, THEN conjunct2, THEN conjunct2, THEN conjunct2, THEN conjunct1,
      rule_format, OF conjI [OF pos conjI [OF r2 r3]], of 29 3 3000]
  show "ret_val (bnd (sell_loop plain_lib prod_cfg ''005930'' (Suc 29) 0 7 3 3000
                      sell_timeout_world)
                   (sell_finish plain_lib prod_cfg ''005930'')) = Some (3, 3000)"
    by (simp add: ret_val_def)
  from main [THEN conjunct2, THEN conjunct2, THEN conjunct1, rule_format,
      OF conjI [OF k' conjI [OF lt conjI [OF q2 q3]]], of "98 / 100" 19 10 10000]
  show "raise_val (bnd (buy_loop plain_lib prod_cfg ''005930'' 1000 (98 / 100) (Suc 19) 0 10 10000
                   buy_lost_world)
                (buy_finish plain_lib prod_cfg ''005930'')) = Some ConnectionClosed"
    by (simp add: raise_val_def)
  from main [THEN conjunct2, THEN conjunct2, THEN conjunct2, THEN conjunct2, THEN conjunct2,
      rule_format, OF conjI [OF pos conjI [OF q2 q3]], of 29 3 3000]
  show "raise_val (bnd (sell_loop plain_lib prod_cfg ''005930'' (Suc 29) 0 7 3 3000
                      sell_lost_world)
                   (sell_finish plain_lib prod_cfg ''005930'')) = Some ConnectionClosed"
    by (simp add: raise_val_def)
  from main [THEN conjunct2, THEN conjunct2, THEN conjunct2, THEN conjunct1, rule_format,
      OF conjI [OF pos q2], of 29 3 3000]
  show "ret_val (sell_loop plain_lib prod_cfg ''005930'' (Suc 29) 0 7 3 3000 sell_lost_world)
       = Some (3, 3000, Some (TimeoutError ''orderbook timeout''))"
    by (simp add: ret_val_def)
qed

text \<open>
  C10 as stated fails: a buy that has bought 10 shares at 1000 in its first round, and a
  sale of 10 shares that has sold 4 at 999 in its first round; in the second round the
  connection is lost, the order-book wait times out and the send of the unsubscription
  raises. The functions raise that exception, and the 10 shares bought and the 4 shares
  sold are not returned.
\<close>

definition sell_fill_4_999 :: string where
  "sell_fill_4_999 = ''1|H0STCNI0|001|a^b^S1^c^d^e^f^g^005930^4^999^h^N^Y^Y''"

definition buy_then_lost_world :: world where
  "buy_then_lost_world = keyed_live_world\<lparr>tape :=
     [Susp [] (RStr ''key''), Susp [] Done,
      Now 10, Now 11, Now 12, Now 13, Susp [Frame (Text quote_1000)] Done, Now 14,
      Susp [] (RInt 10300), Susp [] (RStr ''O1''),
      Susp [Frame (Text fill_10_1000)] Done, Susp [] Done,
      Now 20, Now 21, Now 22, Now 23, Susp [RecvFails ConnectionClosed] Done,
      Susp [] (Fails ConnectionClosed)]\<rparr>"

definition sell_then_lost_world :: world where
  "sell_then_lost_world = keyed_live_world\<lparr>tape :=
     [Susp [] (RStr ''key''), Susp [] Done,
      Now 11, Now 12, Now 13, Susp [Frame (Text quote_1000)] Done, Now 14,
      Susp [] (RStr ''S1''),
      Susp [Frame (Text sell_fill_4_999)] Done, Susp [] Done,
      Now 21, Now 22, Now 23, Susp [RecvFails ConnectionClosed] Done,
      Susp [] (Fails ConnectionClosed)]\<rparr>"

theorem unsubscribe_raises_counterexample:
  "raise_val (ioc_buy_with_ws plain_lib prod_cfg ''005930'' 1000 20 (98 / 100)
       buy_then_lost_world) = Some ConnectionClosed
   \<and> ret_val (ioc_buy_with_ws plain_lib prod_cfg ''005930'' 1000 20 (98 / 100)
       buy_then_lost_world) = None
   \<and> sum_qty (drained (res_world (ioc_buy_with_ws plain_lib prod_cfg ''005930'' 1000 20
       (98 / 100) buy_then_lost_world) buy_then_lost_world)) = 10
   \<and> raise_val (ioc_sell_with_ws plain_lib prod_cfg ''005930'' 10 30 sell_then_lost_world)
       = Some ConnectionClosed
   \<and> ret_val (ioc_sell_with_ws plain_lib prod_cfg ''005930'' 10 30 sell_then_lost_world) = None
   \<and> sum_qty (drained (res_world (ioc_sell_with_ws plain_lib prod_cfg ''005930'' 10 30
       sell_then_lost_world) sell_then_lost_world)) = 4"
  by code_simp


section \<open>Holding for the target and selling\<close>



text \<open>
  The target for some average prices: 1010 for 1000; 1001 for 100000/101, whose float
  has a product with the float of 1.01 just above 1000; 507 for the float
  501.980198019802, whose product is rounded down to 507.
\<close>

lemma target_price_values:
  "target_price 1000 = Inr 1010"
  "target_price (100000 / 101) = Inr 1001"
  "target_price (8830929034177141 / 17592186044416) = Inr 507"
  by code_simp+










section \<open>The session deadline in the trade wait\<close>






lemma is_TimeoutError_class: "is_TimeoutError e \<longleftrightarrow> exn_class e = ''TimeoutError''"
  by (cases e) simp_all






section \<open>The result of the buy loop\<close>

lemma evolve_same:
  "fills_by_order w' = fills_by_order w \<Longrightarrow> drained w' = drained w \<Longrightarrow> evolve w w' []"
  by (simp add: evolve_def fills_positive_def queue_of_def)

lemma evolve_logmsg: "evolve w (logmsg l s w) []"
  by (rule evolve_same) (simp_all add: logmsg_def)

lemma evolve_kst_now: "kst_now w = Ret t w' \<Longrightarrow> evolve w w' []"
  by (drule kst_now_RetD, rule evolve_same) simp_all

lemma evolve_fp: "evolve w w' ds \<Longrightarrow> fills_positive w \<Longrightarrow> fills_positive w'"
  by (simp add: evolve_def)

lemma evolve_suspend:
  assumes "suspend L C w = Ret r w'"
  shows "evolve w w' []"
proof -
  from assms obtain rs es where w': "w' = dispatch L C (w\<lparr>tape := es\<rparr>) rs"
    by (auto simp: suspend_def split: list.splits ev.splits)
  from queue_delta_dispatch [of rs "w\<lparr>tape := es\<rparr>" L C] evolve_queue_delta
  have "evolve (w\<lparr>tape := es\<rparr>) w' []" unfolding w' by blast
  moreover have "evolve w (w\<lparr>tape := es\<rparr>) []" by (rule evolve_same) simp_all
  ultimately show ?thesis using evolve_trans by fastforce
qed

lemma suspend_not_Raise: "suspend L C w \<noteq> Raise e w'"
  by (auto simp: suspend_def split: list.splits ev.splits)

lemma evolve_call:
  assumes "call L C eff w = Ret r w' \<or> call L C eff w = Raise e w'"
  shows "evolve w w' []"
proof -
  let ?w0 = "w\<lparr>sent := sent w @ [eff]\<rparr>"
  from assms obtain r0 where "suspend L C ?w0 = Ret r0 w'"
    using suspend_not_Raise
    by (cases "suspend L C ?w0") (auto simp: call_def bnd_def split: reply.splits)
  from evolve_suspend [OF this] have "evolve ?w0 w' []" .
  moreover have "evolve w ?w0 []" by (rule evolve_same) simp_all
  ultimately show ?thesis using evolve_trans by fastforce
qed

lemma call_cases:
  "call L C eff w = Stuck \<or> (\<exists>e w'. call L C eff w = Raise e w' \<and> evolve w w' [])
     \<or> (\<exists>r w'. call L C eff w = Ret r w' \<and> evolve w w' [])"
  using evolve_call [of L C eff w] by (cases "call L C eff w") auto

lemma evolve_get_approval_key:
  "get_approval_key L C w = Ret r w' \<or> get_approval_key L C w = Raise e w' \<Longrightarrow> evolve w w' []"
  using call_cases [of L C GetApprovalKey w]
  by (auto simp: get_approval_key_def bnd_def split: reply.splits)

lemma evolve_inquire_psbl_cash:
  "inquire_psbl_cash L C code p w = Ret r w' \<or> inquire_psbl_cash L C code p w = Raise e w'
     \<Longrightarrow> evolve w w' []"
  using call_cases [of L C "InquirePsblCash code p" w]
  by (auto simp: inquire_psbl_cash_def bnd_def split: reply.splits)

lemma evolve_order_cash:
  "order_cash L C side code q p d w = Ret r w' \<or> order_cash L C side code q p d w = Raise e w'
     \<Longrightarrow> evolve w w' []"
  using call_cases [of L C "OrderCash side code q p d" w]
  by (auto simp: order_cash_def bnd_def split: reply.splits)

lemma evolve_subscribe:
  "subscribe L C tr_id code w = Ret r w' \<or> subscribe L C tr_id code w = Raise e w'
     \<Longrightarrow> evolve w w' []"
  using call_cases [of L C "Subscribe tr_id code" w] evolve_logmsg evolve_trans evolve_refl
  by (auto simp: subscribe_def bnd_def split: reply.splits if_splits) fastforce

lemma evolve_unsubscribe:
  "unsubscribe L C tr_id code w = Ret r w' \<or> unsubscribe L C tr_id code w = Raise e w'
     \<Longrightarrow> evolve w w' []"
  using call_cases [of L C "Unsubscribe tr_id code" w] evolve_logmsg evolve_trans evolve_refl
  by (auto simp: unsubscribe_def bnd_def split: reply.splits if_splits) fastforce


lemma wno_loop_rel:
  assumes r: "\<And>w. R w w" and tr: "\<And>a b c. R a b \<Longrightarrow> R b c \<Longrightarrow> R a c"
    and k: "\<And>w t w'. kst_now w = Ret t w' \<Longrightarrow> R w w'"
    and c: "\<And>w. R w (w\<lparr>orderbook_event := event_clear (orderbook_event w) code\<rparr>)"
    and f: "\<And>w u w'. wait_for L C w = Ret u w' \<Longrightarrow> R w w'"
    and "wno_loop L C code last_seq end_t w = Ret q w'
         \<or> wno_loop L C code last_seq end_t w = Raise e w'"
  shows "R w w'"
  using assms
proof (induction L C code last_seq end_t w rule: wno_loop.induct)
  case (1 L C code last_seq end_t w)
  note p = "1.prems" (6) [unfolded wno_loop.simps [of L C code last_seq end_t w]]
  note hyps = "1.prems" (1-5)
  show ?case
  proof (cases "kst_now w")
    case Stuck
    then show ?thesis using p by simp
  next
    case (Raise e1 w1)
    then show ?thesis using kst_now_not_Raise by blast
  next
    case (Ret t w1)
    note k1 = this
    have s1: "R w w1" using hyps(3) k1 by blast
    show ?thesis
    proof (cases "t < end_t")
      case False
      then show ?thesis using p k1 s1 by simp
    next
      case True
      note lt = this
      show ?thesis
      proof (cases "fresh_quote w1 code last_seq")
        case (Some q')
        then show ?thesis using p k1 s1 lt by simp
      next
        case None
        note fq = this
        let ?w2 = "w1\<lparr>orderbook_event := event_clear (orderbook_event w1) code\<rparr>"
        have s2: "R w ?w2" using hyps(2) [OF s1 hyps(4)] .
        show ?thesis
        proof (cases "kst_now ?w2")
          case Stuck
          then show ?thesis using p k1 lt fq by simp
        next
          case (Raise e3 w3)
          then show ?thesis using kst_now_not_Raise by blast
        next
          case (Ret t' w3)
          note k3 = this
          have s3: "R w w3" using hyps(2) [OF s2 hyps(3) [OF k3]] .
          show ?thesis
          proof (cases "wait_for L C w3")
            case Stuck
            then show ?thesis using p k1 lt fq k3 by simp
          next
            case (Raise e4 w4)
            then show ?thesis using wait_for_not_Raise by blast
          next
            case (Ret u w4)
            note k4 = this
            have s4: "R w w4" using hyps(2) [OF s3 hyps(5) [OF k4]] .
            show ?thesis
            proof (cases "is_set (orderbook_event w4) code")
              case True
              then have "wno_loop L C code last_seq end_t w4 = Ret q w'
                         \<or> wno_loop L C code last_seq end_t w4 = Raise e w'"
                using p k1 lt fq k3 k4 by simp
              from "1.IH" [OF k1 _ fq k3 k4 True hyps this] lt have "R w4 w'" by simp
              with s4 show ?thesis using hyps(2) by blast
            next
              case False
              then show ?thesis using p k1 lt fq k3 k4 s4 by simp
            qed
          qed
        qed
      qed
    qed
  qed
qed

lemma evolve_wait_next_orderbook:
  assumes "wait_next_orderbook L C code last_seq timeout w = Ret q w'
           \<or> wait_next_orderbook L C code last_seq timeout w = Raise e w'"
  shows "evolve w w' []"
proof -
  let ?w0 = "w\<lparr>orderbook_event := ensure_event (orderbook_event w) code\<rparr>"
  from assms obtain t0 w1 where k: "kst_now ?w0 = Ret t0 w1"
    and l: "wno_loop L C code last_seq (t0 + timeout) w1 = Ret q w'
            \<or> wno_loop L C code last_seq (t0 + timeout) w1 = Raise e w'"
    unfolding wait_next_orderbook_def
    using kst_now_not_Raise by (cases "kst_now ?w0") (auto simp: bnd_def)
  have tr: "evolve a b [] \<Longrightarrow> evolve b c [] \<Longrightarrow> evolve a c []" for a b c
    using evolve_trans [of a b "[]" c "[]"] by simp
  have "evolve w1 w' []"
  proof (rule wno_loop_rel [where R = "\<lambda>a b. evolve a b []" and L = L and C = C
        and code = code, OF _ _ _ _ _ l])
    show "evolve a a []" for a by (rule evolve_refl)
    show "evolve a b [] \<Longrightarrow> evolve b c [] \<Longrightarrow> evolve a c []" for a b c by (rule tr)
    show "kst_now a = Ret t b \<Longrightarrow> evolve a b []" for a t b by (rule evolve_kst_now)
    show "evolve a (a\<lparr>orderbook_event := event_clear (orderbook_event a) code\<rparr>) []" for a
      by (rule evolve_same) simp_all
    show "wait_for L C a = Ret u b \<Longrightarrow> evolve a b []" for a u b by (rule evolve_wait_for)
  qed
  moreover have "evolve w ?w0 []" by (rule evolve_same) simp_all
  moreover have "evolve ?w0 w1 []" using k by (rule evolve_kst_now)
  ultimately show ?thesis using tr by blast
qed

lemma evolve_wait_order_fills:
  assumes "wait_order_fills L C order w = Ret (q, v) w'"
  shows "\<exists>ds. evolve w w' ds \<and> q = sum_qty ds \<and> v = sum_value ds"
  using wait_order_fills_sums [OF assms] by (auto simp: got_def)

lemma pos_sum_qty: "list_all pos ds \<Longrightarrow> ds \<noteq> [] \<Longrightarrow> 0 < sum_qty ds"
proof (induction ds)
  case Nil
  then show ?case by simp
next
  case (Cons f ds)
  then show ?case
    by (cases ds) (auto simp: sum_qty_def pos_def)
qed

lemma sum_append [simp]:
  "sum_qty (a @ b) = sum_qty a + sum_qty b" "sum_value (a @ b) = sum_value a + sum_value b"
  "sum_qty [] = 0" "sum_value [] = 0"
  by (simp_all add: sum_qty_def sum_value_def)

text \<open>What one round of the buy loop does to the totals and to the histories.\<close>

definition round_ok :: "world \<Rightarrow> int \<Rightarrow> int \<Rightarrow> (int \<times> int \<times> int) ctl res \<Rightarrow> bool" where
  "round_ok w tq tv r =
     (case r of
        Stuck \<Rightarrow> True
      | Raise e w' \<Rightarrow> evolve w w' []
      | Ret Brk w' \<Rightarrow> evolve w w' []
      | Ret (Cont (seq, tq', tv')) w' \<Rightarrow>
          (\<exists>ds. evolve w w' ds \<and> tq' = tq + sum_qty ds \<and> tv' = tv + sum_value ds))"

lemma round_ok_Cont:
  "evolve w w' ds \<Longrightarrow> tq' = tq + sum_qty ds \<Longrightarrow> tv' = tv + sum_value ds \<Longrightarrow>
     round_ok w tq tv (Ret (Cont (seq, tq', tv')) w')"
  by (auto simp: round_ok_def)

lemma buy_attempt_round_ok:
  assumes fp: "fills_positive w"
  shows "round_ok w tq tv (buy_attempt L C code session_end ratio last_seq tq tv w)"
proof -
  have tr: "evolve a b [] \<Longrightarrow> evolve b c [] \<Longrightarrow> evolve a c []" for a b c
    using evolve_trans [of a b "[]" c "[]"] by simp
  let ?r = "buy_attempt L C code session_end ratio last_seq tq tv w"
  show ?thesis
  proof (cases "kst_now w")
    case Stuck
    then show ?thesis by (simp add: buy_attempt_def bnd_def round_ok_def)
  next
    case (Raise e1 w1)
    then show ?thesis using kst_now_not_Raise by blast
  next
    case (Ret t w1)
    note k1 = this
    have e1: "evolve w w1 []" using k1 by (rule evolve_kst_now)
    show ?thesis
    proof (cases "t \<ge> session_end")
      case True
      then show ?thesis using k1 e1 by (simp add: buy_attempt_def bnd_def round_ok_def)
    next
      case False
      note lt = this
      show ?thesis
      proof (cases "wait_next_orderbook L C code last_seq 5000000 w1")
        case Stuck
        then show ?thesis using k1 lt by (simp add: buy_attempt_def bnd_def round_ok_def)
      next
        case (Raise e2 w2)
        from evolve_wait_next_orderbook [of L C code last_seq 5000000 w1 _ w2 e2] Raise
        have "evolve w w2 []" using tr [OF e1] by blast
        then show ?thesis using k1 lt Raise by (simp add: buy_attempt_def bnd_def round_ok_def)
      next
        case (Ret q2 w2)
        note k2 = this
        obtain seq ask1 askq1 bid1 bidq1 where q2: "q2 = (seq, ask1, askq1, bid1, bidq1)"
          by (cases q2) auto
        from evolve_wait_next_orderbook [of L C code last_seq 5000000 w1 q2 w2] k2
        have e2: "evolve w w2 []" using tr [OF e1] by blast
        show ?thesis
        proof (cases "ask1 \<le> 0")
          case True
          have "round_ok w tq tv (Ret (Cont (seq, tq, tv)) w2)"
            using e2 by (intro round_ok_Cont [of _ _ "[]"]) simp_all
          then show ?thesis
            using True k1 lt k2 q2 by (simp add: buy_attempt_def bnd_def)
        next
          case False
          note ask = this
          show ?thesis
          proof (cases "inquire_psbl_cash L C code ask1 w2")
            case Stuck
            then show ?thesis
              using k1 lt k2 q2 ask by (simp add: buy_attempt_def bnd_def round_ok_def)
          next
            case (Raise e3 w3)
            from evolve_inquire_psbl_cash [of L C code ask1 w2 _ w3 e3] Raise
            have "evolve w w3 []" using tr [OF e2] by blast
            then show ?thesis
              using k1 lt k2 q2 ask Raise by (simp add: buy_attempt_def bnd_def round_ok_def)
          next
            case (Ret cash w3)
            note k3 = this
            from evolve_inquire_psbl_cash [of L C code ask1 w2 cash w3] k3
            have e3: "evolve w w3 []" using tr [OF e2] by blast
            let ?aff = "py_trunc (real_of_int cash * ratio) div ask1"
            let ?w3 = "logmsg INFO ''[BUY]'' w3"
            show ?thesis
            proof (cases "?aff \<le> 0")
              case True
              have "evolve w (logmsg INFO ''No more cash to buy'' w3) []"
                using tr [OF e3 evolve_logmsg] .
              then show ?thesis
                using k1 lt k2 q2 ask k3 True
                by (simp add: buy_attempt_def bnd_def round_ok_def Let_def)
            next
              case False
              note aff = this
              have e3': "evolve w ?w3 []" using tr [OF e3 evolve_logmsg] .
              show ?thesis
              proof (cases "order_cash L C ''buy'' code ?aff ask1 ''11'' ?w3")
                case Stuck
                then show ?thesis
                  using k1 lt k2 q2 ask k3 aff
                  by (simp add: buy_attempt_def bnd_def round_ok_def Let_def)
              next
                case (Raise e4 w4)
                from evolve_order_cash [of L C "''buy''" code ?aff ask1 "''11''" ?w3 _ w4 e4] Raise
                have "evolve w w4 []" using tr [OF e3'] by blast
                then show ?thesis
                  using k1 lt k2 q2 ask k3 aff Raise
                  by (simp add: buy_attempt_def bnd_def round_ok_def Let_def)
              next
                case (Ret odno w4)
                note k4 = this
                from evolve_order_cash [of L C "''buy''" code ?aff ask1 "''11''" ?w3 odno w4] k4
                have e4: "evolve w w4 []" using tr [OF e3'] by blast
                show ?thesis
                proof (cases "wait_order_fills L C odno w4")
                  case Stuck
                  then show ?thesis
                    using k1 lt k2 q2 ask k3 aff k4
                    by (simp add: buy_attempt_def bnd_def round_ok_def Let_def)
                next
                  case (Raise e5 w5)
                  then show ?thesis using wait_order_fills_not_Raise by blast
                next
                  case (Ret qv w5)
                  note k5 = this
                  obtain fq fv where qv: "qv = (fq, fv)" by (cases qv) auto
                  from evolve_wait_order_fills [of L C odno w4 fq fv w5] k5 qv obtain ds where
                    e5: "evolve w4 w5 ds" and s: "fq = sum_qty ds" "fv = sum_value ds" by auto
                  from evolve_trans [OF e4 e5] have e5': "evolve w w5 ds" by simp
                  then have pd: "list_all pos ds" using fp by (simp add: evolve_def)
                  show ?thesis
                  proof (cases "fq \<le> 0")
                    case True
                    then have "ds = []" using pd s pos_sum_qty [of ds] by force
                    then have "evolve w (logmsg WARNING ''BUY no fill'' w5) []"
                      using e5' tr [OF _ evolve_logmsg] by simp
                    then have "round_ok w tq tv
                        (Ret (Cont (seq, tq, tv)) (logmsg WARNING ''BUY no fill'' w5))"
                      by (intro round_ok_Cont [of _ _ "[]"]) simp_all
                    then show ?thesis
                      using k1 lt k2 q2 ask k3 aff k4 k5 qv True
                      by (simp add: buy_attempt_def bnd_def Let_def)
                  next
                    case False
                    have "round_ok w tq tv (Ret (Cont (seq, tq + fq, tv + fv)) w5)"
                      using e5' s by (intro round_ok_Cont [of _ _ ds]) simp_all
                    then show ?thesis
                      using k1 lt k2 q2 ask k3 aff k4 k5 qv False
                      by (simp add: buy_attempt_def bnd_def Let_def)
                  qed
                qed
              qed
            qed
          qed
        qed
      qed
    qed
  qed
qed

lemma buy_loop_totals:
  "fills_positive w \<Longrightarrow>
   buy_loop L C code session_end ratio k last_seq tq tv w = Ret (tq', tv', exc) w' \<Longrightarrow>
     \<exists>ds. evolve w w' ds \<and> tq' = tq + sum_qty ds \<and> tv' = tv + sum_value ds"
proof (induction k arbitrary: w last_seq tq tv)
  case 0
  then show ?case by (intro exI [of _ "[]"]) (simp add: evolve_refl)
next
  case (Suc k)
  let ?r = "buy_attempt L C code session_end ratio last_seq tq tv w"
  note ok = buy_attempt_round_ok [OF Suc.prems(1), of tq tv L C code session_end ratio last_seq]
  show ?case
  proof (cases ?r)
    case Stuck
    then show ?thesis using Suc.prems(2) by simp
  next
    case (Raise e w1)
    then show ?thesis
      using Suc.prems(2) ok by (intro exI [of _ "[]"]) (auto simp: round_ok_def)
  next
    case (Ret c w1)
    show ?thesis
    proof (cases c)
      case Brk
      then show ?thesis
        using Suc.prems(2) ok Ret by (intro exI [of _ "[]"]) (auto simp: round_ok_def)
    next
      case (Cont x)
      obtain seq tq1 tv1 where x: "x = (seq, tq1, tv1)" by (cases x) auto
      from ok Ret Cont x obtain ds1 where
        1: "evolve w w1 ds1" "tq1 = tq + sum_qty ds1" "tv1 = tv + sum_value ds1"
        by (auto simp: round_ok_def)
      have fp1: "fills_positive w1" using 1(1) Suc.prems(1) by (rule evolve_fp)
      have "buy_loop L C code session_end ratio k seq tq1 tv1 w1 = Ret (tq', tv', exc) w'"
        using Suc.prems(2) Ret Cont x by simp
      from Suc.IH [OF fp1 this] obtain ds2 where
        2: "evolve w1 w' ds2" "tq' = tq1 + sum_qty ds2" "tv' = tv1 + sum_value ds2" by blast
      show ?thesis
        using evolve_trans [OF 1(1) 2(1)] 1 2 by (intro exI [of _ "ds1 @ ds2"]) simp
    qed
  qed
qed

lemma buy_finish_RetD:
  assumes "buy_finish L C code (tq, tv, exc) w = Ret (q, avg) w'"
  shows "evolve w w' [] \<and>
         (q, avg) = (if tq \<le> 0 then (0, 0) else (tq, real_of_int tv / real_of_int tq))"
proof -
  let ?w1 = "case exc of None \<Rightarrow> w
             | Some e \<Rightarrow> if is_Exception e then logmsg STDOUT ''traceback'' w else w"
  have 1: "evolve w ?w1 []"
    by (auto simp: evolve_refl evolve_logmsg split: option.splits)
  from assms obtain u where u: "unsubscribe L C ''H0STASP0'' code ?w1 = Ret u w'"
    and r: "(q, avg) = (if tq \<le> 0 then (0, 0) else (tq, real_of_int tv / real_of_int tq))"
    by (cases "unsubscribe L C ''H0STASP0'' code ?w1")
       (auto simp: buy_finish_def except_finally_def bnd_def Let_def
          split: option.splits if_splits)
  from evolve_unsubscribe [of L C "''H0STASP0''" code ?w1 u w'] u have "evolve ?w1 w' []" by simp
  with 1 r show ?thesis using evolve_trans by fastforce
qed


lemma ioc_buy_with_ws_totals:
  assumes fp: "fills_positive w"
    and r: "ioc_buy_with_ws L C code session_end max_attempts ratio w = Ret (q, avg) w'"
  shows "\<exists>ds. evolve w w' ds \<and> q = sum_qty ds \<and>
           avg = (if ds = [] then 0 else real_of_int (sum_value ds) / real_of_int (sum_qty ds))"
proof -
  from r [unfolded ioc_buy_with_ws_def] bnd_RetD obtain key w1 where
    k1: "get_approval_key L C w = Ret key w1"
    and r1: "bnd (subscribe L C ''H0STASP0'' code w1) (\<lambda>u w2.
               bnd (buy_loop L C code session_end ratio max_attempts
                      (get0 (orderbook_seq w2) code) 0 0 w2) (buy_finish L C code))
             = Ret (q, avg) w'"
    by meson
  from bnd_RetD [OF r1] obtain u w2 where
    k2: "subscribe L C ''H0STASP0'' code w1 = Ret u w2"
    and r2: "bnd (buy_loop L C code session_end ratio max_attempts
                      (get0 (orderbook_seq w2) code) 0 0 w2) (buy_finish L C code)
             = Ret (q, avg) w'"
    by blast
  from bnd_RetD [OF r2] obtain x w3 where
    k3: "buy_loop L C code session_end ratio max_attempts
           (get0 (orderbook_seq w2) code) 0 0 w2 = Ret x w3"
    and r3: "buy_finish L C code x w3 = Ret (q, avg) w'"
    by blast
  obtain tq tv exc where x: "x = (tq, tv, exc)" by (cases x) auto
  have e1: "evolve w w1 []" using evolve_get_approval_key k1 by blast
  have e2: "evolve w1 w2 []" using evolve_subscribe k2 by blast
  from evolve_trans [OF e1 e2] have e12: "evolve w w2 []" by simp
  then have fp2: "fills_positive w2" using fp by (rule evolve_fp)
  from buy_loop_totals [OF fp2 k3 [unfolded x]] obtain ds where
    e3: "evolve w2 w3 ds" and s: "tq = sum_qty ds" "tv = sum_value ds" by auto
  from buy_finish_RetD [OF r3 [unfolded x]] have
    e4: "evolve w3 w' []"
    and res: "(q, avg) = (if tq \<le> 0 then (0, 0) else (tq, real_of_int tv / real_of_int tq))"
    by simp_all
  from evolve_trans [OF evolve_trans [OF e12 e3] e4] have e: "evolve w w' ds" by simp
  then have pd: "list_all pos ds" using fp by (simp add: evolve_def)
  show ?thesis
  proof (cases "ds = []")
    case True
    then show ?thesis using e s res by (intro exI [of _ ds]) simp
  next
    case False
    then have "0 < tq" using pd s pos_sum_qty by simp
    then show ?thesis using e s res False by (intro exI [of _ ds]) simp
  qed
qed

lemma fills_positive_process_frame:
  assumes "fills_positive w" and "process_frame L C w m = Inr w1"
  shows "fills_positive w1"
proof -
  from queue_delta_process_frame [OF assms(2)] obtain es where
    "list_all pos es" "queue_delta w w1 es" by blast
  then have "evolve w w1 []" using evolve_queue_delta by blast
  then show ?thesis using assms(1) by (rule evolve_fp)
qed

lemma fills_positive_init: "fills_positive init_world"
  by (simp add: fills_positive_def queue_of_def init_world_def)

definition scenario_a_world :: world where
  "scenario_a_world = keyed_live_world\<lparr>orderbook_seq := [''005930'' \<mapsto> 100], tape :=
     [Susp [] (RStr ''key''), Susp [] Done,
      Now 10, Now 11, Now 12, Now 13, Susp [Frame (Text quote_1000)] Done, Now 14,
      Susp [] (RInt 10300), Susp [] (RStr ''O1''),
      Susp [Frame (Text fill_10_1000)] Done, Susp [] Done,
      Now 20, Now 21, Now 22, Now 23, Susp [Frame (Text quote_995)] Done, Now 24,
      Susp [] (RInt 10200), Susp [] (RStr ''O2''),
      Susp [Frame (Text ''1|H0STCNI0|001|a^b^O2^c^d^e^f^g^005930^5^995^h^N^Y^Y'')] Done,
      Susp [] Done,
      Susp [] Done]\<rparr>"

text \<open>
  C7. With only positive fills waiting on the queues (which holds of the initial state
  and is kept by every frame), a call of \<open>ioc_buy_with_ws\<close> that returns, returns the
  sum of the quantities of the fills it has taken (\<open>ds\<close>) and, when it has taken any,
  the sum of quantity times price divided by the sum of the quantities; when it has
  taken none it returns the quantity 0 and the price 0, as an ordinary return. In
  Scenario A (sequence number 100 at the start, two rounds, quotes with ask 1000 and
  995, fills (10, 1000) and (5, 995)) it places buys of 10 at 1000 and of 10 at 995 and
  returns 15 and (10 * 1000 + 5 * 995) / 15. Python's floats are modelled by reals.
\<close>

theorem buy_returns_vwap:
  "(fills_positive w \<and>
    ioc_buy_with_ws L C code session_end max_attempts ratio w = Ret (q, avg) w' \<longrightarrow>
      (\<exists>ds. drained w' = drained w @ ds \<and> list_all pos ds \<and> fills_positive w' \<and>
            q = sum_qty ds \<and>
            avg = (if ds = [] then 0
                   else real_of_int (sum_value ds) / real_of_int (sum_qty ds))))
   \<and> (fills_positive w \<and> process_frame L C w m = Inr w1 \<longrightarrow> fills_positive w1)
   \<and> fills_positive init_world
   \<and> ret_val (ioc_buy_with_ws plain_lib prod_cfg ''005930'' 1000 2 (98 / 100) scenario_a_world)
       = Some (15, (10 * 1000 + 5 * 995) / 15)
   \<and> filter (\<lambda>x. case x of OrderCash a b c d e \<Rightarrow> True | _ \<Rightarrow> False)
        (sent (res_world (ioc_buy_with_ws plain_lib prod_cfg ''005930'' 1000 2 (98 / 100)
                            scenario_a_world) scenario_a_world))
       = [OrderCash ''buy'' ''005930'' 10 1000 ''11'', OrderCash ''buy'' ''005930'' 10 995 ''11'']"
proof (intro conjI impI)
  assume a: "fills_positive w \<and>
    ioc_buy_with_ws L C code session_end max_attempts ratio w = Ret (q, avg) w'"
  from ioc_buy_with_ws_totals [OF conjunct1 [OF a] conjunct2 [OF a]] obtain ds where
    "evolve w w' ds" "q = sum_qty ds"
    "avg = (if ds = [] then 0 else real_of_int (sum_value ds) / real_of_int (sum_qty ds))"
    by blast
  then show "\<exists>ds. drained w' = drained w @ ds \<and> list_all pos ds \<and> fills_positive w' \<and>
            q = sum_qty ds \<and>
            avg = (if ds = [] then 0
                   else real_of_int (sum_value ds) / real_of_int (sum_qty ds))"
    using a by (intro exI [of _ ds]) (simp add: evolve_def)
next
  assume "fills_positive w \<and> process_frame L C w m = Inr w1"
  then show "fills_positive w1" using fills_positive_process_frame by blast
next
  show "fills_positive init_world" by (rule fills_positive_init)
next
  show "ret_val (ioc_buy_with_ws plain_lib prod_cfg ''005930'' 1000 2 (98 / 100) scenario_a_world)
       = Some (15, (10 * 1000 + 5 * 995) / 15)"
    by code_simp
next
  show "filter (\<lambda>x. case x of OrderCash a b c d e \<Rightarrow> True | _ \<Rightarrow> False)
        (sent (res_world (ioc_buy_with_ws plain_lib prod_cfg ''005930'' 1000 2 (98 / 100)
                            scenario_a_world) scenario_a_world))
       = [OrderCash ''buy'' ''005930'' 10 1000 ''11'', OrderCash ''buy'' ''005930'' 10 995 ''11'']"
    by code_simp
qed

text \<open>The general statement at Scenario A: the fills taken sum to 15 shares.\<close>

theorem buy_returns_vwap_witness:
  "\<exists>w' ds. ioc_buy_with_ws plain_lib prod_cfg ''005930'' 1000 2 (98 / 100) scenario_a_world
             = Ret (15, 2995 / 3) w'
     \<and> drained w' = drained scenario_a_world @ ds \<and> list_all pos ds \<and> fills_positive w'
     \<and> 15 = sum_qty ds
     \<and> 2995 / 3 = (if ds = [] then 0
                    else real_of_int (sum_value ds) / real_of_int (sum_qty ds))"
proof -
  let ?r = "ioc_buy_with_ws plain_lib prod_cfg ''005930'' 1000 2 (98 / 100) scenario_a_world"
  let ?w' = "res_world ?r scenario_a_world"
  have "ret_val ?r = Some (15, 2995 / 3)" by code_simp
  from ret_val_res_world [OF this] have r: "?r = Ret (15, 2995 / 3) ?w'" .
  have fp: "fills_positive scenario_a_world"
    by (simp add: fills_positive_def queue_of_def scenario_a_world_def keyed_live_world_def
        keyed_world_def init_world_def)
  from buy_returns_vwap [THEN conjunct1, THEN mp, OF conjI [OF fp r]] obtain ds where
    c: "drained ?w' = drained scenario_a_world @ ds \<and> list_all pos ds \<and> fills_positive ?w' \<and>
        15 = sum_qty ds \<and>
        2995 / 3 = (if ds = [] then 0
                    else real_of_int (sum_value ds) / real_of_int (sum_qty ds))"
    by (elim exE)
  show ?thesis
    by (rule exI [of _ ?w'], rule exI [of _ ds]) (rule conjI [OF r c])
qed


section \<open>Candidate discovery\<close>

text \<open>\<open>x.strip()\<close> exists only on a string.\<close>

definition py_strip :: "json \<Rightarrow> exn + string" where
  "py_strip v = (case v of JStr s \<Rightarrow> Inr (strip s) | _ \<Rightarrow> Inl AttributeError)"

text \<open>The two chains of \<open>item.get(...) or ...\<close> of \<open>pick_code_from_ranking_item\<close>.\<close>

definition item_code :: "json \<Rightarrow> exn + string" where
  "item_code item =
     ebind (py_get item ''stck_shrn_iscd'') (\<lambda>a.
     ebind (py_get item ''mksc_shrn_iscd'') (\<lambda>b.
     ebind (py_get item ''code'') (\<lambda>c.
     py_strip (py_or a (py_or b (py_or c (JStr [])))))))"

definition item_rate :: "json \<Rightarrow> exn + json" where
  "item_rate item =
     ebind (py_get item ''prdy_ctrt'') (\<lambda>a.
     ebind (py_get item ''prdy_ctrt_1'') (\<lambda>b.
     ebind (py_get item ''fluc_rt'') (\<lambda>c.
     ebind (py_get item ''rate'') (\<lambda>d.
     Inr (py_or a (py_or b (py_or c d)))))))"

text \<open>
  When the conversion to a float fails the handler only logs, and the next statement
  reads the variable \<open>rate_f\<close>, which was never assigned.
\<close>

definition pick_code_from_ranking_item :: "pylib \<Rightarrow> json \<Rightarrow> world \<Rightarrow> string option res" where
  "pick_code_from_ranking_item L item w =
     (case item_code item of
        Inl e \<Rightarrow> Raise e w
      | Inr code \<Rightarrow>
          (case item_rate item of
             Inl e \<Rightarrow> Raise e w
           | Inr rate \<Rightarrow>
               (case float_str L rate of
                  None \<Rightarrow> Raise (UnboundLocalError ''rate_f'')
                            (logmsg WARNING ''conversion float error'' w)
                | Some rate_f \<Rightarrow>
                    Ret (if 20 \<le> rate_f \<and> rate_f \<le> 28 \<and> code \<noteq> [] then Some code
                         else None) w)))"

text \<open>The first of the given keys of the response that holds a list.\<close>

fun find_items :: "json \<Rightarrow> string list \<Rightarrow> exn + json list" where
  "find_items res [] = Inr []"
| "find_items res (k # ks) =
     ebind (py_get res k) (\<lambda>v. case v of JArr xs \<Rightarrow> Inr xs | _ \<Rightarrow> find_items res ks)"

text \<open>
  The loop over the items: an item that is not an object, has no code in the band, or
  is in its cooldown of 20 minutes is passed over. Times are in microseconds.
\<close>

definition in_cooldown :: "world \<Rightarrow> string \<Rightarrow> int \<Rightarrow> bool" where
  "in_cooldown w code now =
     (case cooldowns w code of None \<Rightarrow> False | Some last_t \<Rightarrow> now - last_t < 1200000000)"

fun scan_items :: "pylib \<Rightarrow> int \<Rightarrow> json list \<Rightarrow> world \<Rightarrow> string option res" where
  "scan_items L now [] w = Ret None w"
| "scan_items L now (it # its) w =
     (case it of
        JObj kvs \<Rightarrow>
          (case pick_code_from_ranking_item L it w of
             Stuck \<Rightarrow> Stuck
           | Raise e w' \<Rightarrow> Raise e w'
           | Ret None w' \<Rightarrow> scan_items L now its w'
           | Ret (Some code) w' \<Rightarrow>
               if in_cooldown w' code now then scan_items L now its w'
               else Ret (Some code) (logmsg INFO ''Candidate picked'' w'))
      | _ \<Rightarrow> scan_items L now its w)"

lemma call_tape: "call L C eff w = Ret r w' \<Longrightarrow> length (tape w') < length (tape w)"
  by (auto simp: call_def suspend_def bnd_def tape_dispatch
      split: list.splits ev.splits reply.splits)

lemma get_ranking_fluctuation_tape:
  "get_ranking_fluctuation L C w = Ret r w' \<Longrightarrow> length (tape w') < length (tape w)"
  by (auto simp: get_ranking_fluctuation_def bnd_def dest: call_tape
      split: res.splits reply.splits)

lemma sleep_tape: "sleep L C w = Ret r w' \<Longrightarrow> length (tape w') < length (tape w)"
  by (auto simp: sleep_def bnd_def dest: call_tape split: res.splits reply.splits)

lemma pick_code_tape:
  "pick_code_from_ranking_item L item w = Ret r w' \<Longrightarrow> tape w' = tape w"
  by (auto simp: pick_code_from_ranking_item_def split: sum.splits option.splits)

lemma scan_items_tape: "scan_items L now its w = Ret r w' \<Longrightarrow> tape w' = tape w"
proof (induction its arbitrary: w)
  case Nil
  then show ?case by simp
next
  case (Cons it its)
  show ?case
  proof (cases it)
    case (JObj kvs)
    show ?thesis
    proof (cases "pick_code_from_ranking_item L it w")
      case Stuck
      then show ?thesis using Cons.prems JObj by simp
    next
      case (Raise e w1)
      then show ?thesis using Cons.prems JObj by simp
    next
      case (Ret c w1)
      from pick_code_tape [OF Ret] have t: "tape w1 = tape w" .
      show ?thesis
      proof (cases c)
        case None
        then show ?thesis using Cons.prems JObj Ret Cons.IH [of w1] t by simp
      next
        case (Some code)
        then show ?thesis
          using Cons.prems JObj Ret Cons.IH [of w1] t
          by (cases "in_cooldown w1 code now") (auto simp: logmsg_def)
      qed
    qed
  qed (use Cons in simp_all)
qed

definition ranking_keys :: "string list" where
  "ranking_keys = [''output'', ''output1'', ''Output'', ''Output1'']"

definition printed :: "nat \<Rightarrow> world \<Rightarrow> world" where
  "printed try_cnt w = (if try_cnt < 10 then logmsg STDOUT ''res'' w else w)"

function fc_loop :: "pylib \<Rightarrow> Config \<Rightarrow> int \<Rightarrow> nat \<Rightarrow> world \<Rightarrow> string option res" where
  "fc_loop L C session_end try_cnt w =
     (case kst_now w of
        Stuck \<Rightarrow> Stuck
      | Raise e w1 \<Rightarrow> Raise e w1
      | Ret t w1 \<Rightarrow>
          if \<not> t < session_end then Ret None w1
          else
            (case get_ranking_fluctuation L C w1 of
               Stuck \<Rightarrow> Stuck
             | Raise e w2 \<Rightarrow> Raise e w2
             | Ret res w2 \<Rightarrow>
                 (case find_items res ranking_keys of
                    Inl e \<Rightarrow> Raise e (printed try_cnt w2)
                  | Inr items \<Rightarrow>
                      (case kst_now (printed try_cnt w2) of
                         Stuck \<Rightarrow> Stuck
                       | Raise e w3 \<Rightarrow> Raise e w3
                       | Ret now w3 \<Rightarrow>
                           (case scan_items L now items w3 of
                              Stuck \<Rightarrow> Stuck
                            | Raise e w4 \<Rightarrow> Raise e w4
                            | Ret (Some code) w4 \<Rightarrow> Ret (Some code) w4
                            | Ret None w4 \<Rightarrow>
                                (case sleep L C w4 of
                                   Stuck \<Rightarrow> Stuck
                                 | Raise e w5 \<Rightarrow> Raise e w5
                                 | Ret u w5 \<Rightarrow>
                                     fc_loop L C session_end (Suc try_cnt) w5))))))"
  by pat_completeness auto
termination
proof (relation "measure (\<lambda>(L, C, session_end, try_cnt, w). length (tape w))", goal_cases)
  case 1
  then show ?case by simp
next
  case (2 L C session_end try_cnt w t w1 res w2 items now w3 c w4 u w5)
  have "length (tape w5) < length (tape w4)" using 2 sleep_tape by blast
  moreover have "tape w4 = tape w3" using 2 scan_items_tape by blast
  moreover have "length (tape w3) < length (tape (printed try_cnt w2))"
    using 2 kst_now_tape by fastforce
  moreover have "tape (printed try_cnt w2) = tape w2" by (simp add: printed_def logmsg_def)
  moreover have "length (tape w2) < length (tape w1)"
    using 2 get_ranking_fluctuation_tape by blast
  moreover have "length (tape w1) < length (tape w)" using 2 kst_now_tape by fastforce
  ultimately show ?case by simp
qed

definition find_candidate :: "pylib \<Rightarrow> Config \<Rightarrow> int \<Rightarrow> world \<Rightarrow> string option res" where
  "find_candidate L C session_end w = fc_loop L C session_end 0 w"


lemma scan_items_append:
  "scan_items L now pre w = Ret None w1 \<Longrightarrow>
     scan_items L now (pre @ rest) w = scan_items L now rest w1"
proof (induction pre arbitrary: w)
  case Nil
  then show ?case by simp
next
  case (Cons it pre)
  show ?case
  proof (cases it)
    case (JObj kvs)
    show ?thesis
    proof (cases "pick_code_from_ranking_item L it w")
      case Stuck
      then show ?thesis using Cons.prems JObj by simp
    next
      case (Raise e w')
      then show ?thesis using Cons.prems JObj by simp
    next
      case (Ret c w')
      show ?thesis
      proof (cases c)
        case None
        then show ?thesis using Cons.prems JObj Ret Cons.IH [of w'] by simp
      next
        case (Some code)
        then show ?thesis
          using Cons.prems JObj Ret Cons.IH [of w']
          by (cases "in_cooldown w' code now") simp_all
      qed
    qed
  qed (use Cons in simp_all)
qed

text \<open>
  C9. When \<open>float(str(rate))\<close> fails for the change rate of an item (the field is
  missing, so that the rate is \<open>None\<close>, or it is not the text of a float),
  \<open>pick_code_from_ranking_item\<close> logs a warning and raises UnboundLocalError; every
  object item with such a rate makes it raise. The scan of the items raises at the
  first such item it reaches, and \<open>find_candidate\<close> raises with it: the item is not
  passed over.
\<close>

theorem malformed_rate_aborts_scan:
  "(item_code item = Inr code \<and> item_rate item = Inr rate \<and> float_str L rate = None \<longrightarrow>
      pick_code_from_ranking_item L item w =
        Raise (UnboundLocalError ''rate_f'') (logmsg WARNING ''conversion float error'' w))
   \<and> (item_rate (JObj kvs) = Inr rate \<and> float_str L rate = None \<longrightarrow>
        (\<exists>e w'. pick_code_from_ranking_item L (JObj kvs) w = Raise e w'))
   \<and> (scan_items L now pre w = Ret None w1 \<and>
       pick_code_from_ranking_item L (JObj kvs) w1 = Raise e w2 \<longrightarrow>
        scan_items L now (pre @ JObj kvs # post) w = Raise e w2)
   \<and> (kst_now w = Ret t w1 \<and> t < session_end \<and>
       get_ranking_fluctuation L C w1 = Ret res w2 \<and>
       find_items res ranking_keys = Inr items \<and>
       kst_now (printed 0 w2) = Ret now w3 \<and>
       scan_items L now items w3 = Raise e w4 \<longrightarrow>
        find_candidate L C session_end w = Raise e w4)"
proof (intro conjI impI)
  assume "item_code item = Inr code \<and> item_rate item = Inr rate \<and> float_str L rate = None"
  then show "pick_code_from_ranking_item L item w =
        Raise (UnboundLocalError ''rate_f'') (logmsg WARNING ''conversion float error'' w)"
    by (simp add: pick_code_from_ranking_item_def)
next
  assume "item_rate (JObj kvs) = Inr rate \<and> float_str L rate = None"
  then show "\<exists>e w'. pick_code_from_ranking_item L (JObj kvs) w = Raise e w'"
    by (cases "item_code (JObj kvs)") (simp_all add: pick_code_from_ranking_item_def)
next
  assume a: "scan_items L now pre w = Ret None w1 \<and>
       pick_code_from_ranking_item L (JObj kvs) w1 = Raise e w2"
  from scan_items_append [OF conjunct1 [OF a], of "JObj kvs # post"] conjunct2 [OF a]
  show "scan_items L now (pre @ JObj kvs # post) w = Raise e w2"
    by simp
next
  assume "kst_now w = Ret t w1 \<and> t < session_end \<and>
       get_ranking_fluctuation L C w1 = Ret res w2 \<and>
       find_items res ranking_keys = Inr items \<and>
       kst_now (printed 0 w2) = Ret now w3 \<and>
       scan_items L now items w3 = Raise e w4"
  then show "find_candidate L C session_end w = Raise e w4"
    by (simp add: find_candidate_def fc_loop.simps [of L C session_end 0 w])
qed

definition bad_item :: json where
  "bad_item = JObj [(''stck_shrn_iscd'', JStr ''005930''), (''prdy_ctrt'', JStr ''abc'')]"

definition no_rate_item :: json where
  "no_rate_item = JObj [(''stck_shrn_iscd'', JStr ''005930'')]"

definition good_item :: json where
  "good_item = JObj [(''stck_shrn_iscd'', JStr ''000660''), (''prdy_ctrt'', JStr ''25'')]"

definition bad_ranking_world :: world where
  "bad_ranking_world = live_world\<lparr>tape :=
     [Now 10, Susp [] (RJson (JObj [(''output'', JArr [JStr ''x'', no_rate_item, good_item])])),
      Now 11]\<rparr>"

text \<open>
  An item whose rate is the text abc, and a poll whose list holds a string, an item
  without a rate and a good item: the scan raises at the second element and never
  reaches the good item.
\<close>

theorem malformed_rate_aborts_scan_witness:
  "pick_code_from_ranking_item plain_lib bad_item init_world =
     Raise (UnboundLocalError ''rate_f'') (logmsg WARNING ''conversion float error'' init_world)
   \<and> raise_val (find_candidate plain_lib prod_cfg 1000 bad_ranking_world)
       = Some (UnboundLocalError ''rate_f'')"
proof
  have 1: "item_code bad_item = Inr ''005930''" by code_simp
  have 2: "item_rate bad_item = Inr (JStr ''abc'')"
    by (simp add: item_rate_def bad_item_def ebind_def py_or_def)
  have 3: "float_str plain_lib (JStr ''abc'') = None" by code_simp
  from malformed_rate_aborts_scan [THEN conjunct1, THEN mp, OF conjI [OF 1 conjI [OF 2 3]]]
  show "pick_code_from_ranking_item plain_lib bad_item init_world =
     Raise (UnboundLocalError ''rate_f'') (logmsg WARNING ''conversion float error'' init_world)" .
  let ?L = plain_lib and ?C = prod_cfg and ?w = bad_ranking_world
  let ?e = "UnboundLocalError ''rate_f''"
  let ?w1 = "res_world (kst_now ?w) ?w"
  let ?res = "JObj [(''output'', JArr [JStr ''x'', no_rate_item, good_item])]"
  let ?w2 = "res_world (get_ranking_fluctuation ?L ?C ?w1) ?w"
  let ?w3 = "res_world (kst_now (printed 0 ?w2)) ?w"
  let ?items = "[JStr ''x'', no_rate_item, good_item]"
  let ?r4 = "scan_items ?L 11 ?items ?w3"
  have "ret_val (kst_now ?w) = Some 10" by code_simp
  from ret_val_res_world [OF this] have k1: "kst_now ?w = Ret 10 ?w1" .
  have lt: "(10::int) < 1000" by simp
  have "get_ranking_fluctuation ?L ?C ?w1 = Ret ?res (res_world (get_ranking_fluctuation ?L ?C ?w1) ?w)"
    by (simp add: get_ranking_fluctuation_def call_def suspend_def bnd_def res_world_def
        kst_now_def bad_ranking_world_def)
  then have k2: "get_ranking_fluctuation ?L ?C ?w1 = Ret ?res ?w2" .
  have k3: "find_items ?res ranking_keys = Inr ?items"
    by (simp add: ranking_keys_def ebind_def)
  have "ret_val (kst_now (printed 0 ?w2)) = Some 11" by code_simp
  from ret_val_res_world [OF this] have k4: "kst_now (printed 0 ?w2) = Ret 11 ?w3" .
  have "raise_val ?r4 = Some ?e" by code_simp
  from raise_val_res_world [OF this] have k5: "?r4 = Raise ?e (res_world ?r4 ?w)" .
  from malformed_rate_aborts_scan [THEN conjunct2, THEN conjunct2, THEN conjunct2, THEN mp,
      OF conjI [OF k1 conjI [OF lt conjI [OF k2 conjI [OF k3 conjI [OF k4 k5]]]]]]
  show "raise_val (find_candidate ?L ?C 1000 ?w) = Some ?e"
    by (simp add: raise_val_def)
qed

section \<open>The session\<close>

text \<open>
  \<open>connect\<close> and \<open>close\<close> of \<open>KISWebSocket\<close>. \<open>create_task\<close> starts the receive
  loop; \<open>cancel\<close> ends a running one and leaves a finished one as it is. Nothing
  awaits the task, and nothing else reads it.
\<close>

definition connect :: "pylib \<Rightarrow> Config \<Rightarrow> world \<Rightarrow> unit res" where
  "connect L C w =
     bnd (get_approval_key L C w) (\<lambda>approval_key w1.
     bnd (call L C WsConnect w1) (\<lambda>r w2.
       case r of
         Done \<Rightarrow>
           bnd (subscribe L C (exec_tr_id C) (hts_id C)
                  (logmsg INFO ''WS connected'' (w2\<lparr>ws_open := True\<rparr>)))
             (\<lambda>u w3. Ret () (w3\<lparr>recv_task := Running\<rparr>))
       | _ \<Rightarrow> Stuck))"

definition close :: "pylib \<Rightarrow> Config \<Rightarrow> world \<Rightarrow> unit res" where
  "close L C w =
     (let w1 = (case recv_task w of Running \<Rightarrow> w\<lparr>recv_task := Cancelled\<rparr> | _ \<Rightarrow> w)
      in if ws_open w1
         then bnd (call L C WsClose w1) (\<lambda>r w2. case r of Done \<Rightarrow> Ret () w2 | _ \<Rightarrow> Stuck)
         else Ret () w1)"

text \<open>\<open>KISWebSocket(cfg, rest, logger)\<close>: a new client with empty dictionaries.\<close>

definition new_client :: "world \<Rightarrow> world" where
  "new_client w =
     w\<lparr>aes_key := Map.empty, aes_iv := Map.empty, orderbook := Map.empty,
       orderbook_seq := Map.empty, orderbook_event := Map.empty, trade_price := Map.empty,
       trade_seq := Map.empty, trade_event := Map.empty, fills_by_order := Map.empty,
       recv_task := NotStarted, ws_open := False\<rparr>"

text \<open>
  The \<open>while\<close> loop of \<open>run_trading_session\<close>, with the variables \<open>done\<close> and
  \<open>open_position\<close>; it yields \<open>open_position\<close> when the loop is left. The first
  argument bounds the number of rounds; every round that goes on reads the clock, and
  \<open>run_trading_session\<close> passes one more than the number of events of the script.
\<close>

fun session_loop ::
  "pylib \<Rightarrow> Config \<Rightarrow> int \<Rightarrow> nat \<Rightarrow> nat \<Rightarrow> (string \<times> int \<times> real) option \<Rightarrow> world
     \<Rightarrow> (string \<times> int \<times> real) option res" where
  "session_loop L C session_end 0 done_n open_position w = Stuck"
| "session_loop L C session_end (Suc n) done_n open_position w =
     (if \<not> done_n < 5 then Ret open_position w
      else
     bnd (kst_now w) (\<lambda>t w1.
       if \<not> t < session_end then Ret open_position w1
       else
     bnd (find_candidate L C session_end w1) (\<lambda>cand w2.
       case cand of
         None \<Rightarrow> Ret open_position (logmsg INFO ''No candidate until session end'' w2)
       | Some code \<Rightarrow>
     bnd (ioc_buy_with_ws L C code session_end 20 (98 / 100) w2) (\<lambda>(buy_qty, avg_buy) w3.
     bnd (kst_now w3) (\<lambda>t1 w4.
       if buy_qty \<le> 0
       then session_loop L C session_end n done_n open_position
              (logmsg WARNING ''BUY failed'' (w4\<lparr>cooldowns := (cooldowns w4)(code \<mapsto> t1)\<rparr>))
       else
     bnd (wait_for_1pct_then_sell L C code buy_qty avg_buy session_end
            (w4\<lparr>cooldowns := (cooldowns w4)(code \<mapsto> t1)\<rparr>))
       (\<lambda>(sold_qty, sold_value, target_hit) w6.
     bnd (kst_now w6) (\<lambda>t2 w7.
       if sold_qty \<le> 0
       then session_loop L C session_end n done_n (Some (code, buy_qty, avg_buy))
              (logmsg WARNING ''SELL failed or not filled''
                 (w7\<lparr>cooldowns := (cooldowns w7)(code \<mapsto> t2)\<rparr>))
       else if avg_buy = 0
       then Raise ZeroDivisionError (w7\<lparr>cooldowns := (cooldowns w7)(code \<mapsto> t2)\<rparr>)
       else session_loop L C session_end n (Suc done_n) None
              (logmsg INFO ''Progress''
                 (logmsg INFO ''TRADE DONE''
                    (w7\<lparr>cooldowns := (cooldowns w7)(code \<mapsto> t2)\<rparr>))))))))))"

text \<open>The forced liquidation after the loop.\<close>

definition force_liquidate ::
  "pylib \<Rightarrow> Config \<Rightarrow> int \<Rightarrow> (string \<times> int \<times> real) option \<Rightarrow> world \<Rightarrow> unit res" where
  "force_liquidate L C session_end open_position w =
     (case open_position of
        None \<Rightarrow> Ret () w
      | Some (code, q, avg_buy) \<Rightarrow>
          bnd (kst_now w) (\<lambda>t w1.
            if \<not> t \<ge> session_end then Ret () w1
            else
          bnd (ioc_sell_with_ws L C code q 30
                 (logmsg WARNING ''Session end. Force liquidation attempt'' w1))
            (\<lambda>(sold_qty, sold_value) w2.
              if sold_qty > 0
              then (if avg_buy = 0 then Raise ZeroDivisionError w2
                    else Ret () (logmsg INFO ''LIQUIDATED'' w2))
              else Ret () (logmsg ERROR ''LIQUIDATION FAILED'' w2))))"

definition is_weekend :: "nat \<Rightarrow> bool" where
  "is_weekend weekday = (weekday \<ge> 5)"

text \<open>
  \<open>run_trading_session\<close>; the start of the session enters by its day of the week
  only. The \<open>finally\<close> clause closes the client on every way out.
\<close>

definition run_trading_session :: "pylib \<Rightarrow> Config \<Rightarrow> nat \<Rightarrow> int \<Rightarrow> world \<Rightarrow> unit res" where
  "run_trading_session L C weekday session_end w =
     (if is_weekend weekday then Ret () (logmsg INFO ''Weekend. Skip session'' w)
      else
     bnd (connect L C (new_client w)) (\<lambda>u w1.
       case bnd (session_loop L C session_end (Suc (length (tape w1))) 0 None w1)
              (force_liquidate L C session_end) of
         Stuck \<Rightarrow> Stuck
       | Ret x w2 \<Rightarrow> close L C w2
       | Raise e w2 \<Rightarrow>
           (case close L C w2 of
              Stuck \<Rightarrow> Stuck
            | Raise e' w3 \<Rightarrow> Raise e' w3
            | Ret x w3 \<Rightarrow> Raise e w3)))"


section \<open>Sessions on concrete scripts\<close>

text \<open>
  Two ranking items, the frames of the two stocks, and the scripts of a session:
  \<open>connect\<close>, then a cycle that buys 10 shares of 000100 at 1000 and whose sell loop
  gets no order book within its five seconds, then a cycle that buys 5 shares of
  000200 at 500 and sells them at 499.
\<close>

definition item_A :: json where
  "item_A = JObj [(''stck_shrn_iscd'', JStr ''000100''), (''prdy_ctrt'', JStr ''25'')]"

definition item_B :: json where
  "item_B = JObj [(''stck_shrn_iscd'', JStr ''000200''), (''prdy_ctrt'', JStr ''21'')]"

definition quote_A :: string where
  "quote_A = ''0|H0STASP0|001|000100^x^x^1000^x^x^x^x^x^x^x^x^x^999^x^x^x^x^x^x^x^x^x^7^x^x^x^x^x^x^x^x^x^8''"

definition quote_B :: string where
  "quote_B = ''0|H0STASP0|001|000200^x^x^500^x^x^x^x^x^x^x^x^x^499^x^x^x^x^x^x^x^x^x^7^x^x^x^x^x^x^x^x^x^8''"

definition fill_A_buy :: string where
  "fill_A_buy = ''1|H0STCNI0|001|a^b^B1^c^d^e^f^g^000100^10^1000^h^N^Y^Y''"

definition fill_B_buy :: string where
  "fill_B_buy = ''1|H0STCNI0|001|a^b^B2^c^d^e^f^g^000200^5^500^h^N^Y^Y''"

definition fill_B_sell :: string where
  "fill_B_sell = ''1|H0STCNI0|001|a^b^S2^c^d^e^f^g^000200^5^499^h^N^Y^Y''"

definition tick_A :: string where
  "tick_A = ''0|H0STCNT0|001|000100^093000^1010''"

definition tick_B :: string where
  "tick_B = ''0|H0STCNT0|001|000200^100000^505''"

definition connect_script :: "ev list" where
  "connect_script = [Susp [] (RStr ''key''), Susp [] Done, Susp [] Done]"

definition cycle_A_script :: "ev list" where
  "cycle_A_script =
     [Now 100,
      Now 101, Susp [Frame (Text key_frame)] (RJson (JObj [(''output'', JArr [item_A])])), Now 102,
      Susp [] (RStr ''key''), Susp [] Done,
      Now 103, Now 104, Now 105, Now 106, Susp [Frame (Text quote_A)] Done, Now 107,
      Susp [] (RInt 10300), Susp [] (RStr ''B1''),
      Susp [Frame (Text fill_A_buy)] Done, Susp [] Done,
      Now 108, Now 109, Now 110, Now 111, Susp [Frame (Text quote_A)] Done, Now 112,
      Susp [] (RInt 0),
      Susp [] Done,
      Now 113,
      Susp [] (RStr ''key''), Susp [] Done,
      Now 114, Now 115, Susp [Frame (Text tick_A)] Done, Now 116,
      Susp [] Done,
      Susp [] (RStr ''key''), Susp [] Done,
      Now 117, Now 118, Now 119, Susp [] Done,
      Susp [] Done,
      Now 120]"

definition cycle_B_script :: "ev list" where
  "cycle_B_script =
     [Now 121,
      Now 122, Susp [] (RJson (JObj [(''output'', JArr [item_A, item_B])])), Now 123,
      Susp [] (RStr ''key''), Susp [] Done,
      Now 124, Now 125, Now 126, Now 127, Susp [Frame (Text quote_B)] Done, Now 128,
      Susp [] (RInt 2560), Susp [] (RStr ''B2''),
      Susp [Frame (Text fill_B_buy)] Done, Susp [] Done,
      Now 129, Now 130, Now 131, Now 132, Susp [Frame (Text quote_B)] Done, Now 133,
      Susp [] (RInt 0),
      Susp [] Done,
      Now 134,
      Susp [] (RStr ''key''), Susp [] Done,
      Now 135, Now 136, Susp [Frame (Text tick_B)] Done, Now 137,
      Susp [] Done,
      Susp [] (RStr ''key''), Susp [] Done,
      Now 138, Now 139, Now 140, Susp [Frame (Text quote_B)] Done, Now 141,
      Susp [] (RStr ''S2''),
      Susp [Frame (Text fill_B_sell)] Done, Susp [] Done,
      Susp [] Done,
      Now 142]"

definition two_cycles_world :: world where
  "two_cycles_world = init_world\<lparr>tape :=
     connect_script @ cycle_A_script @ cycle_B_script @ [Now 2000000, Susp [] Done]\<rparr>"


text \<open>
  After the first cycle alone the clock passes the end of the session, and the sell
  loop of the forced liquidation sells the 10 shares at 999.
\<close>

definition fill_A_sell :: string where
  "fill_A_sell = ''1|H0STCNI0|001|a^b^S1^c^d^e^f^g^000100^10^999^h^N^Y^Y''"

definition one_cycle_world :: world where
  "one_cycle_world = init_world\<lparr>tape :=
     connect_script @ cycle_A_script @
     [Now 2000000, Now 2000001,
      Susp [] (RStr ''key''), Susp [] Done,
      Now 2000002, Now 2000003, Now 2000004, Susp [Frame (Text quote_A)] Done, Now 2000005,
      Susp [] (RStr ''S1''),
      Susp [Frame (Text fill_A_sell)] Done, Susp [] Done,
      Susp [] Done,
      Susp [] Done]\<rparr>"

text \<open>
  A session in which \<open>recv()\<close> fails during the first poll of the ranking; no stock
  is in the ranking until the end of the session.
\<close>

definition lost_world :: world where
  "lost_world = init_world\<lparr>tape :=
     connect_script @
     [Now 100,
      Now 101, Susp [RecvFails ConnectionClosed] (RJson (JObj [(''output'', JArr [])])), Now 102,
      Susp [] Done,
      Now 103, Susp [Frame (Text quote_A)] (RJson (JObj [(''output'', JArr [])])), Now 104,
      Susp [] Done,
      Now 2000000,
      Susp [] Done]\<rparr>"

definition is_order :: "effect \<Rightarrow> bool" where
  "is_order e = (case e of OrderCash side code q unpr dv \<Rightarrow> True | _ \<Rightarrow> False)"

section \<open>A failure of the receive call\<close>

lemma recv_task_recv_loop_frames:
  "recv_task (recv_loop L C w (map Frame ms)) = recv_task w"
proof (induction ms arbitrary: w)
  case Nil
  show ?case by simp
next
  case (Cons m ms)
  obtain w' where w': "process_frame L C w m = Inr w'"
    using process_frame_total by blast
  have "recv_task w' = recv_task w"
    using same_outside_process_frame [OF w'] by (simp add: same_outside_def)
  then show ?case using w' Cons.IH [of w'] by simp
qed

lemma recv_loop_frames_then_failure:
  "recv_loop L C w (map Frame ms @ RecvFails e # rs) =
     (recv_loop L C w (map Frame ms))\<lparr>recv_task := Failed e\<rparr>"
proof (induction ms arbitrary: w)
  case Nil
  show ?case by simp
next
  case (Cons m ms)
  obtain w' where w': "process_frame L C w m = Inr w'"
    using process_frame_total by blast
  show ?case using w' Cons.IH [of w'] by simp
qed

lemma call_after_failure:
  assumes "recv_task w = Failed e" and "tape w = Susp rs r # es"
  shows "call L C eff w =
           (case r of
              Fails e' \<Rightarrow> Raise e' (w\<lparr>sent := sent w @ [eff], tape := es\<rparr>)
            | _ \<Rightarrow> Ret r (w\<lparr>sent := sent w @ [eff], tape := es\<rparr>))"
  using assms by (simp add: call_def suspend_def dispatch_def bnd_def split: reply.splits)

text \<open>
  C8 (amended). Messages alone never end the receive task, whatever they hold: an
  error of decoding or decrypting is caught in the body of the loop. A failure of
  \<open>recv()\<close> ends the task with that exception, after the messages before it have
  been processed. Once the task has ended with an exception, nothing that arrives is
  processed and the task is not started again. The exception stays in the task: a call
  that the session awaits afterwards changes nothing but the record of calls and the
  script, and it returns, or raises, what its own reply says.
\<close>

theorem recv_failure_stays_in_task:
  "(recv_task w = Running \<longrightarrow> recv_task (dispatch L C w (map Frame ms)) = Running)
   \<and> (recv_task w = Running \<longrightarrow>
        dispatch L C w (map Frame ms @ RecvFails e # rs) =
          (dispatch L C w (map Frame ms))\<lparr>recv_task := Failed e\<rparr>)
   \<and> (recv_task w = Failed e \<longrightarrow> dispatch L C w rs = w)
   \<and> (recv_task w = Failed e \<and> tape w = Susp rs r # es \<longrightarrow>
        call L C eff w =
          (case r of
             Fails e' \<Rightarrow> Raise e' (w\<lparr>sent := sent w @ [eff], tape := es\<rparr>)
           | _ \<Rightarrow> Ret r (w\<lparr>sent := sent w @ [eff], tape := es\<rparr>)))"
proof (intro conjI impI)
  assume "recv_task w = Running"
  then show "recv_task (dispatch L C w (map Frame ms)) = Running"
    by (simp add: dispatch_def recv_task_recv_loop_frames)
next
  assume "recv_task w = Running"
  then show "dispatch L C w (map Frame ms @ RecvFails e # rs) =
          (dispatch L C w (map Frame ms))\<lparr>recv_task := Failed e\<rparr>"
    by (simp add: dispatch_def recv_loop_frames_then_failure)
next
  assume "recv_task w = Failed e"
  then show "dispatch L C w rs = w" by (simp add: dispatch_def)
next
  assume "recv_task w = Failed e \<and> tape w = Susp rs r # es"
  then show "call L C eff w =
          (case r of
             Fails e' \<Rightarrow> Raise e' (w\<lparr>sent := sent w @ [eff], tape := es\<rparr>)
           | _ \<Rightarrow> Ret r (w\<lparr>sent := sent w @ [eff], tape := es\<rparr>))"
    using call_after_failure by blast
qed

text \<open>
  Two clients whose receive task has ended with an exception: during the next call of
  the one a frame arrives and the call returns, the next call of the other raises.
\<close>

definition dead_world :: world where
  "dead_world = live_world\<lparr>recv_task := Failed ConnectionClosed,
     tape := [Susp [Frame (Text quote_1000)] Done]\<rparr>"

definition dead_send_world :: world where
  "dead_send_world = live_world\<lparr>recv_task := Failed ConnectionClosed,
     tape := [Susp [] (Fails ConnectionClosed)]\<rparr>"

text \<open>
  A session in which \<open>recv()\<close> fails during the first poll of the ranking, which
  names a stock, and the send of the next subscription raises.
\<close>

definition lost_send_world :: world where
  "lost_send_world = init_world\<lparr>tape :=
     connect_script @
     [Now 100,
      Now 101, Susp [RecvFails ConnectionClosed] (RJson (JObj [(''output'', JArr [item_A])])),
      Now 102,
      Susp [] (RStr ''key''), Susp [] (Fails ConnectionClosed),
      Susp [] Done]\<rparr>"

text \<open>
  The theorem at a running client that receives an order-book frame, then the failure,
  then another frame, and at the two clients whose task has ended. In the session of
  \<open>lost_send_world\<close> the exception of the send ends the session.
\<close>

theorem recv_failure_stays_in_task_witness:
  "recv_task (dispatch plain_lib prod_cfg live_world (map Frame [Text quote_1000])) = Running
   \<and> dispatch plain_lib prod_cfg live_world
         (map Frame [Text quote_1000] @ RecvFails ConnectionClosed # [Frame (Text quote_995)]) =
       (dispatch plain_lib prod_cfg live_world (map Frame [Text quote_1000]))
         \<lparr>recv_task := Failed ConnectionClosed\<rparr>
   \<and> dispatch plain_lib prod_cfg dead_world [Frame (Text quote_995)] = dead_world
   \<and> call plain_lib prod_cfg (Subscribe ''H0STASP0'' ''005930'') dead_world =
       Ret Done (dead_world\<lparr>sent := [Subscribe ''H0STASP0'' ''005930''], tape := []\<rparr>)
   \<and> call plain_lib prod_cfg (Subscribe ''H0STASP0'' ''005930'') dead_send_world =
       Raise ConnectionClosed
         (dead_send_world\<lparr>sent := [Subscribe ''H0STASP0'' ''005930''], tape := []\<rparr>)
   \<and> raise_val (run_trading_session plain_lib prod_cfg 0 1000000 lost_send_world)
       = Some ConnectionClosed"
proof -
  have s: "raise_val (run_trading_session plain_lib prod_cfg 0 1000000 lost_send_world)
       = Some ConnectionClosed"
    by code_simp
  show ?thesis
    using recv_failure_stays_in_task [where w = live_world and L = plain_lib and C = prod_cfg
        and ms = "[Text quote_1000]" and e = ConnectionClosed
        and rs = "[Frame (Text quote_995)]"]
      recv_failure_stays_in_task [where w = dead_world and L = plain_lib and C = prod_cfg
        and e = ConnectionClosed and rs = "[Frame (Text quote_995)]"]
      recv_failure_stays_in_task [where w = dead_world and L = plain_lib and C = prod_cfg
        and e = ConnectionClosed and rs = "[Frame (Text quote_1000)]" and r = Done and es = "[]"
        and eff = "Subscribe ''H0STASP0'' ''005930''"]
      recv_failure_stays_in_task [where w = dead_send_world and L = plain_lib and C = prod_cfg
        and e = ConnectionClosed and rs = "[]" and r = "Fails ConnectionClosed" and es = "[]"
        and eff = "Subscribe ''H0STASP0'' ''005930''"]
      s
    by (simp add: live_world_def dead_world_def dead_send_world_def init_world_def)
qed

text \<open>
  C8 as stated fails: in the session of \<open>lost_world\<close> the receive call fails during
  the first poll, the session polls the ranking again, sleeps, and at the end of the
  session returns without an exception; the task holds the exception, which nothing
  has read.
\<close>

theorem unpropagated_recv_failure_counterexample:
  "ret_val (run_trading_session plain_lib prod_cfg 0 1000000 lost_world) = Some ()
   \<and> recv_task (res_world (run_trading_session plain_lib prod_cfg 0 1000000 lost_world)
        lost_world) = Failed ConnectionClosed
   \<and> sent (res_world (run_trading_session plain_lib prod_cfg 0 1000000 lost_world)
        lost_world) =
       [GetApprovalKey, WsConnect, Subscribe ''H0STCNI0'' ''me'',
        GetRanking, Sleep, GetRanking, Sleep, WsClose]"
  by code_simp

section \<open>The position of a failed cycle\<close>

text \<open>
  C4, at the session of \<open>two_cycles_world\<close>: the sell phase of the first cycle fills
  nothing and the 10 shares of 000100 stay in \<open>open_position\<close>; the buy of the second
  cycle overwrites it, and its sale sets it to \<open>None\<close>. The session ends after the
  end of the session time with three orders, none of them a sale of 000100, and
  without a forced liquidation. In the session of \<open>one_cycle_world\<close>, which ends
  after the first cycle, the forced liquidation sells the 10 shares.
\<close>

theorem overwritten_position_not_liquidated:
  "ret_val (run_trading_session plain_lib prod_cfg 0 1000000 two_cycles_world) = Some ()
   \<and> filter is_order
        (sent (res_world (run_trading_session plain_lib prod_cfg 0 1000000 two_cycles_world)
           two_cycles_world)) =
       [OrderCash ''buy'' ''000100'' 10 1000 ''11'', OrderCash ''buy'' ''000200'' 5 500 ''11'',
        OrderCash ''sell'' ''000200'' 5 499 ''11'']
   \<and> (WARNING, ''SELL failed or not filled'') \<in>
        set (logged (res_world (run_trading_session plain_lib prod_cfg 0 1000000
           two_cycles_world) two_cycles_world))
   \<and> (WARNING, ''Session end. Force liquidation attempt'') \<notin>
        set (logged (res_world (run_trading_session plain_lib prod_cfg 0 1000000
           two_cycles_world) two_cycles_world))
   \<and> ret_val (run_trading_session plain_lib prod_cfg 0 1000000 one_cycle_world) = Some ()
   \<and> filter is_order
        (sent (res_world (run_trading_session plain_lib prod_cfg 0 1000000 one_cycle_world)
           one_cycle_world)) =
       [OrderCash ''buy'' ''000100'' 10 1000 ''11'', OrderCash ''sell'' ''000100'' 10 999 ''11'']"
  by code_simp

end
